(* ===== verification/Prelude.thy ===== *)
theory Prelude
  imports Main "HOL-Library.Word" "HOL-Library.Multiset" "HOL-Library.Monad_Syntax"
begin

unbundle bit_operations_syntax

text \<open>
  Types, collections and generic lemmas shared by every theory of the development.

  \<^item> Machine integers: \<open>uint8_t\<close>, \<open>uint16_t\<close>, \<open>uint32_t\<close> are words of that width.
  \<^item> \<open>ns3::Time\<close> is a signed count of the simulator's time unit; it is an \<open>int\<close> here
    (the values of a run stay far below the 64 bits the simulator gives them).
    \<open>Simulator::Now ()\<close> is an argument \<open>now\<close> of every operation that reads it.
  \<^item> \<open>ns3::Ipv4Address\<close> is the 32-bit number its \<open>Get ()\<close> returns.
  \<^item> \<open>std::map\<close> is an association list kept in ascending key order, which is the order its
    iterators follow. \<open>std::list::sort\<close> and \<open>std::remove_if\<close> are the stable \<open>sort_key\<close> and
    \<open>filter\<close>.
\<close>

type_synonym u8 = "8 word"
type_synonym u16 = "16 word"
type_synonym u32 = "32 word"
type_synonym time = int
type_synonym ipv4addr = "32 word"

named_theorems cfg_simps \<open>field projections of configuration updates\<close>
named_theorems map_simps \<open>laws of the ordered map operations\<close>
named_theorems nb_simps \<open>lookups after neighbour list operations\<close>
named_theorems frame_simps \<open>fields an operation leaves alone\<close>

section \<open>std::map: insert, operator[], find, erase\<close>

fun map_insert :: "'k::linorder \<Rightarrow> 'v \<Rightarrow> ('k \<times> 'v) list \<Rightarrow> ('k \<times> 'v) list" where
  "map_insert k v [] = [(k, v)]"
| "map_insert k v ((a, b) # ps) =
     (if k < a then (k, v) # (a, b) # ps
      else if k = a then (a, b) # ps
      else (a, b) # map_insert k v ps)"

fun map_assign :: "'k::linorder \<Rightarrow> 'v \<Rightarrow> ('k \<times> 'v) list \<Rightarrow> ('k \<times> 'v) list" where
  "map_assign k v [] = [(k, v)]"
| "map_assign k v ((a, b) # ps) =
     (if k < a then (k, v) # (a, b) # ps
      else if k = a then (k, v) # ps
      else (a, b) # map_assign k v ps)"

definition map_erase :: "'k \<Rightarrow> ('k \<times> 'v) list \<Rightarrow> ('k \<times> 'v) list" where
  "map_erase k m = filter (\<lambda>p. fst p \<noteq> k) m"

definition map_ok :: "('k::linorder \<times> 'v) list \<Rightarrow> bool" where
  "map_ok m \<longleftrightarrow> sorted_wrt (<) (map fst m)"

lemma map_ok_Nil [simp]: "map_ok []"
  by (simp add: map_ok_def)

lemma map_ok_Cons: "map_ok ((a, b) # ps) \<longleftrightarrow> (\<forall>k\<in>fst ` set ps. a < k) \<and> map_ok ps"
  by (simp add: map_ok_def)

lemma map_ok_distinct: "map_ok m \<Longrightarrow> distinct (map fst m)"
  by (simp add: map_ok_def strict_sorted_iff)

lemma keys_map_insert: "fst ` set (map_insert k v m) = insert k (fst ` set m)"
  by (induction k v m rule: map_insert.induct) auto

lemma keys_map_assign: "fst ` set (map_assign k v m) = insert k (fst ` set m)"
  by (induction k v m rule: map_assign.induct) auto

lemma map_ok_insert: "map_ok m \<Longrightarrow> map_ok (map_insert k v m)"
  by (induction k v m rule: map_insert.induct)
    (auto simp: map_ok_Cons keys_map_insert)

lemma map_ok_assign: "map_ok m \<Longrightarrow> map_ok (map_assign k v m)"
  by (induction k v m rule: map_assign.induct)
    (auto simp: map_ok_Cons keys_map_assign)

lemma map_ok_filter: "map_ok m \<Longrightarrow> map_ok (filter P m)"
  by (induction m) (auto simp: map_ok_Cons)

lemma map_ok_erase: "map_ok m \<Longrightarrow> map_ok (map_erase k m)"
  by (simp add: map_erase_def map_ok_filter)

lemma map_of_below: "\<forall>k'\<in>fst ` set m. k < k' \<Longrightarrow> map_of m k = None" for k :: "'k::linorder"
  by (induction m) auto

lemma map_of_insert:
  "map_ok m \<Longrightarrow>
   map_of (map_insert k v m) = (case map_of m k of None \<Rightarrow> (map_of m)(k \<mapsto> v) | Some _ \<Rightarrow> map_of m)"
proof (induction k v m rule: map_insert.induct)
  case (1 k v)
  show ?case by simp
next
  case (2 k v a b ps)
  consider "k < a" | "k = a" | "a < k" by (rule linorder_cases)
  then show ?case
  proof cases
    case 1
    with "2.prems" have "map_of ((a, b) # ps) k = None"
      by (intro map_of_below) (auto simp: map_ok_Cons)
    with 1 show ?thesis by simp
  next
    case 2
    then show ?thesis by simp
  next
    case 3
    with 2 have "map_of (map_insert k v ps) =
        (case map_of ps k of None \<Rightarrow> (map_of ps)(k \<mapsto> v) | Some _ \<Rightarrow> map_of ps)"
      by (auto simp: map_ok_Cons)
    with 3 show ?thesis by (auto split: option.splits simp: fun_upd_twist)
  qed
qed

lemma map_of_assign: "map_of (map_assign k v m) = (map_of m)(k \<mapsto> v)"
proof (induction k v m rule: map_assign.induct)
  case (2 k v a b ps)
  then show ?case
    by (cases "k = a") (auto simp: fun_upd_twist)
qed simp

lemma map_of_erase: "map_of (map_erase k m) = (map_of m)(k := None)"
  by (induction m) (auto simp: map_erase_def fun_eq_iff)

lemma map_assign_id: "map_ok m \<Longrightarrow> map_of m k = Some v \<Longrightarrow> map_assign k v m = m"
proof (induction k v m rule: map_assign.induct)
  case (2 k v a b ps)
  show ?case
  proof (cases "k < a")
    case True
    with "2.prems" have "map_of ((a, b) # ps) k = None"
      by (intro map_of_below) (auto simp: map_ok_Cons)
    with "2.prems" show ?thesis by simp
  next
    case False
    with 2 show ?thesis by (auto simp: map_ok_Cons)
  qed
qed simp

lemma map_ok_length: "map_ok m \<Longrightarrow> length m = card (fst ` set m)"
  using distinct_card [OF map_ok_distinct, of m] by simp

lemma length_map_insert:
  assumes "map_ok m"
  shows "length (map_insert k v m) =
    (case map_of m k of None \<Rightarrow> Suc (length m) | Some _ \<Rightarrow> length m)"
proof -
  have "k \<in> fst ` set m \<longleftrightarrow> map_of m k \<noteq> None"
    by (simp add: map_of_eq_None_iff)
  then show ?thesis
    using assms map_ok_length [OF map_ok_insert [OF assms]] map_ok_length [OF assms]
    by (auto simp: keys_map_insert card_insert_if split: option.splits)
qed

text \<open>
  The interface the tables rely on. \<open>insert\<close> keeps an existing entry (C++
  \<open>std::map::insert\<close>), \<open>assign\<close> overwrites it (\<open>operator[]\<close> or a write through \<open>i->second\<close>).
\<close>

locale ordered_map =
  fixes find :: "'m \<Rightarrow> 'k \<Rightarrow> 'v option"
    and ins :: "'k \<Rightarrow> 'v \<Rightarrow> 'm \<Rightarrow> 'm"
    and asg :: "'k \<Rightarrow> 'v \<Rightarrow> 'm \<Rightarrow> 'm"
    and era :: "'k \<Rightarrow> 'm \<Rightarrow> 'm"
    and ok :: "'m \<Rightarrow> bool"
  assumes find_ins: "ok m \<Longrightarrow>
      find (ins k v m) = (case find m k of None \<Rightarrow> (find m)(k \<mapsto> v) | Some _ \<Rightarrow> find m)"
    and find_asg: "ok m \<Longrightarrow> find (asg k v m) = (find m)(k \<mapsto> v)"
    and find_era: "ok m \<Longrightarrow> find (era k m) = (find m)(k := None)"
    and ok_ins: "ok m \<Longrightarrow> ok (ins k v m)"
    and ok_asg: "ok m \<Longrightarrow> ok (asg k v m)"
    and ok_era: "ok m \<Longrightarrow> ok (era k m)"
begin

lemma ins_first_wins: "ok m \<Longrightarrow> find (ins k w (ins k v m)) = find (ins k v m)"
  by (auto simp: find_ins ok_ins split: option.splits)

lemma find_ins_other: "ok m \<Longrightarrow> k' \<noteq> k \<Longrightarrow> find (ins k v m) k' = find m k'"
  by (auto simp: find_ins split: option.splits)

lemma find_ins_same: "ok m \<Longrightarrow> find (ins k v m) k = Some (case find m k of None \<Rightarrow> v | Some w \<Rightarrow> w)"
  by (auto simp: find_ins split: option.splits)

lemma era_ins_new: "ok m \<Longrightarrow> find m k = None \<Longrightarrow> find (era k (ins k v m)) = find m"
  by (auto simp: find_ins find_era ok_ins fun_eq_iff)

lemma find_asg_other: "ok m \<Longrightarrow> k' \<noteq> k \<Longrightarrow> find (asg k v m) k' = find m k'"
  by (simp add: find_asg)

lemma dom_fold_ins:
  "ok m \<Longrightarrow> dom (find (fold (\<lambda>p. ins (fst p) (snd p)) ps m)) = dom (find m) \<union> fst ` set ps"
proof (induction ps arbitrary: m)
  case (Cons p ps)
  then have "dom (find (ins (fst p) (snd p) m)) = insert (fst p) (dom (find m))"
    by (auto simp: find_ins dom_def split: option.splits if_splits)
  with Cons show ?case by (simp add: ok_ins)
qed simp

lemma ok_fold_ins: "ok m \<Longrightarrow> ok (fold (\<lambda>p. ins (fst p) (snd p)) ps m)"
  by (induction ps arbitrary: m) (auto simp: ok_ins)

end

interpretation omap: ordered_map map_of map_insert map_assign map_erase map_ok
  by unfold_locales
    (simp_all add: map_of_insert map_of_assign map_of_erase map_ok_insert map_ok_assign map_ok_erase)

lemmas map_laws = omap.find_ins omap.find_asg omap.find_era omap.ok_ins omap.ok_asg omap.ok_era

section \<open>Timed containers\<close>

text \<open>
  Every container of the protocol drops or demotes elements by age when it is used:
  \<open>age c t x\<close> is what is left of \<open>x\<close> at time \<open>t\<close> (\<open>None\<close>: removed) under configuration \<open>c\<close>.
\<close>

locale aging =
  fixes okc :: "'c \<Rightarrow> bool"
    and age :: "'c \<Rightarrow> time \<Rightarrow> 'x \<Rightarrow> 'x option"
  assumes age_stable: "okc c \<Longrightarrow> age c t x = Some y \<Longrightarrow> age c t y = Some y"
begin

lemma purge_stable:
  "okc c \<Longrightarrow> y \<in> set (List.map_filter (age c t) xs) \<Longrightarrow> age c t y = Some y"
  by (auto simp: List.map_filter_def dest: age_stable)

lemma purge_idem:
  "okc c \<Longrightarrow>
   List.map_filter (age c t) (List.map_filter (age c t) xs) = List.map_filter (age c t) xs"
  by (induction xs) (auto simp: List.map_filter_simps age_stable split: option.splits)

end

locale expiring =
  fixes dead :: "time \<Rightarrow> 'x \<Rightarrow> bool"
  assumes dead_mono: "t \<le> t' \<Longrightarrow> dead t x \<Longrightarrow> dead t' x"
begin

lemma purge_later:
  "t \<le> t' \<Longrightarrow>
   filter (\<lambda>x. \<not> dead t' x) (filter (\<lambda>x. \<not> dead t x) xs) = filter (\<lambda>x. \<not> dead t' x) xs"
  by (induction xs) (auto dest: dead_mono)

lemma purge_alive: "x \<in> set (filter (\<lambda>x. \<not> dead t x) xs) \<Longrightarrow> \<not> dead t x"
  by simp

lemma alive_kept: "x \<in> set xs \<Longrightarrow> t \<le> t' \<Longrightarrow> \<not> dead t' x \<Longrightarrow> x \<in> set (filter (\<lambda>x. \<not> dead t x) xs)"
  by (auto dest: dead_mono)

lemma purge_noop: "(\<And>x. x \<in> set xs \<Longrightarrow> \<not> dead t x) \<Longrightarrow> filter (\<lambda>x. \<not> dead t x) xs = xs"
  by (simp add: filter_id_conv)

end

sublocale expiring \<subseteq> aging "\<lambda>c::unit. True" "\<lambda>c t x. if dead t x then None else Some x"
  by unfold_locales (auto split: if_splits)

section \<open>Choosing the best element\<close>

text \<open>
  The code picks a best element by one pass that replaces its candidate whenever it meets a better
  one. For a strict partial order the result is maximal, though the order need not be total.
\<close>

definition pick_better :: "('x \<Rightarrow> 'x \<Rightarrow> bool) \<Rightarrow> 'x \<Rightarrow> 'x option \<Rightarrow> 'x option" where
  "pick_better better x best =
     (case best of None \<Rightarrow> Some x | Some b \<Rightarrow> if better x b then Some x else best)"

locale preference =
  fixes better :: "'x \<Rightarrow> 'x \<Rightarrow> bool"
  assumes irrefl: "\<not> better x x"
    and trans: "better x y \<Longrightarrow> better y z \<Longrightarrow> better x z"
begin

lemma asym: "better x y \<Longrightarrow> \<not> better y x"
  using irrefl trans by blast

lemma fold_from:
  "\<exists>y. fold (pick_better better) xs (Some b) = Some y \<and> (y = b \<or> better y b) \<and> y \<in> insert b (set xs)
     \<and> (\<forall>x\<in>set xs. \<not> better x y)"
proof (induction xs arbitrary: b)
  case Nil
  show ?case by simp
next
  case (Cons a xs)
  let ?c = "if better a b then a else b"
  obtain y where y: "fold (pick_better better) xs (Some ?c) = Some y" "y = ?c \<or> better y ?c"
    "y \<in> insert ?c (set xs)" "\<forall>x\<in>set xs. \<not> better x y"
    using Cons.IH [of ?c] by blast
  have "pick_better better a (Some b) = Some ?c" by (simp add: pick_better_def)
  moreover have "y = b \<or> better y b" using y(2) trans by (auto split: if_splits)
  moreover have "\<not> better a y" using y(2) irrefl trans [of a y b] asym by (auto split: if_splits)
  ultimately show ?case using y by (intro exI [of _ y]) (auto split: if_splits)
qed

lemma best_maximal:
  "fold (pick_better better) xs None = Some b \<Longrightarrow> b \<in> set xs \<and> (\<forall>x\<in>set xs. \<not> better x b)"
proof (cases xs)
  case (Cons a ys)
  assume "fold (pick_better better) xs None = Some b"
  with Cons have b: "fold (pick_better better) ys (Some a) = Some b" by (simp add: pick_better_def)
  with fold_from [of ys a] have "b = a \<or> better b a" "b \<in> insert a (set ys)" "\<forall>x\<in>set ys. \<not> better x b"
    by auto
  then show ?thesis using Cons irrefl asym by auto
qed simp

lemma best_None: "fold (pick_better better) xs None = None \<longleftrightarrow> xs = []"
proof (cases xs)
  case (Cons a ys)
  with fold_from [of ys a] show ?thesis by (auto simp: pick_better_def)
qed simp

end

section \<open>Generic lemmas\<close>

lemma distinct_map_append_new:
  "distinct (map f xs) \<Longrightarrow> f x \<notin> f ` set xs \<Longrightarrow> distinct (map f (xs @ [x]))"
  by simp

lemma distinct_key_neq: "distinct (map f (x # xs)) \<Longrightarrow> y \<in> set xs \<Longrightarrow> f y \<noteq> f x"
  by (metis distinct.simps(2) image_eqI list.set_map list.simps(9))

lemma find_Some_mem: "List.find P xs = Some x \<Longrightarrow> x \<in> set xs \<and> P x"
  by (induction xs) (auto split: if_splits)

lemma find_distinct:
  "distinct (map f xs) \<Longrightarrow> x \<in> set xs \<Longrightarrow> List.find (\<lambda>y. f y = f x) xs = Some x"
  by (induction xs) auto

lemma find_key_None: "List.find (\<lambda>y. f y = k) xs = None \<longleftrightarrow> k \<notin> f ` set xs"
  by (induction xs) auto

lemma distinct_sort_key_map: "distinct (map f (sort_key g xs)) = distinct (map f xs)"
proof -
  have "mset (map f (sort_key g xs)) = mset (map f xs)" by simp
  then show ?thesis by (metis mset_eq_imp_distinct_iff)
qed

lemma filter_empty_iff: "filter P xs = [] \<longleftrightarrow> (\<forall>x\<in>set xs. \<not> P x)"
  by (induction xs) auto

lemma unat_small: "n < 2 ^ LENGTH('a) \<Longrightarrow> unat (of_nat n :: 'a::len word) = n"
  by (simp add: unat_of_nat)

lemma unat_ucast_up:
  assumes "LENGTH('a) \<le> LENGTH('b)"
  shows "unat (ucast (x :: 'a::len word) :: 'b::len word) = unat x"
proof -
  have "unat x < 2 ^ LENGTH('a)" by simp
  also have "\<dots> \<le> 2 ^ LENGTH('b)" using assms by simp
  finally show ?thesis by (simp add: unsigned_ucast_eq take_bit_nat_eq_self)
qed

end
