(* ===== verification/Common.thy ===== *)
theory Common
  imports Prelude
begin

text \<open>
  The data of \<open>model/aodv-common.h\<close>: node status, conversion indicator, weight function and
  the two-hop backbone neighbour tuple, with the numeric codes the C++ enumerators have on
  the wire. A code that names no enumerator has no value here: the casts are partial.
\<close>

datatype NodeStatus = RN_NODE | CORE | NEIGH_NODE

datatype core_noncore_Indicator = CONVERT_BREAK | CONVERT_ALLOW | CONVERT_OTHER

datatype WeightFunction = W_NODE_DEGREE | W_NODE_IP | W_NODE_RND | W_NODE_BNDEGREE

fun NodeStatus_code :: "NodeStatus \<Rightarrow> nat" where
  "NodeStatus_code RN_NODE = 1"
| "NodeStatus_code CORE = 2"
| "NodeStatus_code NEIGH_NODE = 3"

fun indicator_code :: "core_noncore_Indicator \<Rightarrow> nat" where
  "indicator_code CONVERT_BREAK = 0"
| "indicator_code CONVERT_ALLOW = 1"
| "indicator_code CONVERT_OTHER = 2"

fun WeightFunction_code :: "WeightFunction \<Rightarrow> nat" where
  "WeightFunction_code W_NODE_DEGREE = 1"
| "WeightFunction_code W_NODE_IP = 2"
| "WeightFunction_code W_NODE_RND = 3"
| "WeightFunction_code W_NODE_BNDEGREE = 4"

definition NodeStatus_of :: "nat \<Rightarrow> NodeStatus option" where
  "NodeStatus_of n =
     (if n = 1 then Some RN_NODE else if n = 2 then Some CORE
      else if n = 3 then Some NEIGH_NODE else None)"

definition indicator_of :: "nat \<Rightarrow> core_noncore_Indicator option" where
  "indicator_of n =
     (if n = 0 then Some CONVERT_BREAK else if n = 1 then Some CONVERT_ALLOW
      else if n = 2 then Some CONVERT_OTHER else None)"

definition WeightFunction_of :: "nat \<Rightarrow> WeightFunction option" where
  "WeightFunction_of n =
     (if n = 1 then Some W_NODE_DEGREE else if n = 2 then Some W_NODE_IP
      else if n = 3 then Some W_NODE_RND else if n = 4 then Some W_NODE_BNDEGREE else None)"

lemma NodeStatus_of_code [simp]: "NodeStatus_of (NodeStatus_code a) = Some a"
  by (cases a) (simp_all add: NodeStatus_of_def)

lemma indicator_of_code [simp]: "indicator_of (indicator_code a) = Some a"
  by (cases a) (simp_all add: indicator_of_def)

lemma WeightFunction_of_code [simp]: "WeightFunction_of (WeightFunction_code a) = Some a"
  by (cases a) (simp_all add: WeightFunction_of_def)

lemma NodeStatus_code_bound: "NodeStatus_code a < 4"
  by (cases a) simp_all

lemma indicator_code_bound: "indicator_code a < 3"
  by (cases a) simp_all

lemma WeightFunction_code_bound: "WeightFunction_code a < 5"
  by (cases a) simp_all

text \<open>C++ compares enumerators by their codes.\<close>

instantiation NodeStatus :: linorder
begin
definition less_eq_NodeStatus :: "NodeStatus \<Rightarrow> NodeStatus \<Rightarrow> bool" where
  "less_eq_NodeStatus a b \<longleftrightarrow> NodeStatus_code a \<le> NodeStatus_code b"
definition less_NodeStatus :: "NodeStatus \<Rightarrow> NodeStatus \<Rightarrow> bool" where
  "less_NodeStatus a b \<longleftrightarrow> NodeStatus_code a < NodeStatus_code b"
instance
proof
  fix x y z :: NodeStatus
  show "x < y \<longleftrightarrow> x \<le> y \<and> \<not> y \<le> x" "x \<le> x" "x \<le> y \<or> y \<le> x"
    by (auto simp: less_eq_NodeStatus_def less_NodeStatus_def)
  show "x \<le> y \<Longrightarrow> y \<le> z \<Longrightarrow> x \<le> z" by (simp add: less_eq_NodeStatus_def)
  show "x \<le> y \<Longrightarrow> y \<le> x \<Longrightarrow> x = y"
    by (cases x; cases y) (simp_all add: less_eq_NodeStatus_def)
qed
end

instantiation core_noncore_Indicator :: linorder
begin
definition less_eq_core_noncore_Indicator ::
  "core_noncore_Indicator \<Rightarrow> core_noncore_Indicator \<Rightarrow> bool" where
  "less_eq_core_noncore_Indicator a b \<longleftrightarrow> indicator_code a \<le> indicator_code b"
definition less_core_noncore_Indicator ::
  "core_noncore_Indicator \<Rightarrow> core_noncore_Indicator \<Rightarrow> bool" where
  "less_core_noncore_Indicator a b \<longleftrightarrow> indicator_code a < indicator_code b"
instance
proof
  fix x y z :: core_noncore_Indicator
  show "x < y \<longleftrightarrow> x \<le> y \<and> \<not> y \<le> x" "x \<le> x" "x \<le> y \<or> y \<le> x"
    by (auto simp: less_eq_core_noncore_Indicator_def less_core_noncore_Indicator_def)
  show "x \<le> y \<Longrightarrow> y \<le> z \<Longrightarrow> x \<le> z" by (simp add: less_eq_core_noncore_Indicator_def)
  show "x \<le> y \<Longrightarrow> y \<le> x \<Longrightarrow> x = y"
    by (cases x; cases y) (simp_all add: less_eq_core_noncore_Indicator_def)
qed
end

record MulticastBnNeighborTuple =
  twoHopBnNeighborIfaceAddr :: ipv4addr
  twoHopBnNeighborWeight :: u32
  twoHopBnNeighborIndicator :: core_noncore_Indicator
  twoHopBnNeighborTimeout :: time

type_synonym MulticastBnNeighborSet = "MulticastBnNeighborTuple list"

definition MulticastBnNeighborTuple_new ::
  "ipv4addr \<Rightarrow> u32 \<Rightarrow> core_noncore_Indicator \<Rightarrow> time \<Rightarrow> MulticastBnNeighborTuple" where
  "MulticastBnNeighborTuple_new addr weight ind time =
     \<lparr>twoHopBnNeighborIfaceAddr = addr, twoHopBnNeighborWeight = weight,
      twoHopBnNeighborIndicator = ind, twoHopBnNeighborTimeout = time\<rparr>"

text \<open>The comparison operators of the tuple: all three read the address only.\<close>

definition MulticastBnNeighborTuple_gt ::
  "MulticastBnNeighborTuple \<Rightarrow> MulticastBnNeighborTuple \<Rightarrow> bool" where
  "MulticastBnNeighborTuple_gt a b \<longleftrightarrow> twoHopBnNeighborIfaceAddr a > twoHopBnNeighborIfaceAddr b"

definition MulticastBnNeighborTuple_lt ::
  "MulticastBnNeighborTuple \<Rightarrow> MulticastBnNeighborTuple \<Rightarrow> bool" where
  "MulticastBnNeighborTuple_lt a b \<longleftrightarrow> twoHopBnNeighborIfaceAddr a < twoHopBnNeighborIfaceAddr b"

definition MulticastBnNeighborTuple_eq ::
  "MulticastBnNeighborTuple \<Rightarrow> MulticastBnNeighborTuple \<Rightarrow> bool" where
  "MulticastBnNeighborTuple_eq a b \<longleftrightarrow> twoHopBnNeighborIfaceAddr a = twoHopBnNeighborIfaceAddr b"

end
