(* ===== verification/Packet.thy ===== *)
theory Packet
  imports Common
begin

text \<open>
  The message headers of \<open>model/aodv-packet.{h,cc}\<close>: message type, hello, RREQ, RREP, RREP-ACK
  and RERR, with their setters, flags, serialisation and deserialisation.

  \<open>ns3::Buffer::Iterator\<close> and \<open>WriteTo\<close>/\<open>ReadFrom\<close> of \<open>ns3/address-utils.h\<close> are library code:
  they are the argument \<open>B\<close> of every (de)serialiser, and \<open>buffer_laws\<close> states what the headers
  rely on. A write appends the bytes it produces; a read takes them from the front of the
  bytes that remain, and is \<open>None\<close> past the end. \<open>Deserialize\<close> returns the header and the size
  the C++ method returns; it is \<open>None\<close> where an \<open>NS_ASSERT\<close> fails, the buffer ends or a byte
  names no enumerator.
\<close>

record buffer_ops =
  WriteU8 :: "u8 \<Rightarrow> u8 list"
  WriteHtonU16 :: "u16 \<Rightarrow> u8 list"
  WriteHtonU32 :: "u32 \<Rightarrow> u8 list"
  WriteTo :: "ipv4addr \<Rightarrow> u8 list"
  ReadU8 :: "u8 list \<Rightarrow> (u8 \<times> u8 list) option"
  ReadNtohU16 :: "u8 list \<Rightarrow> (u16 \<times> u8 list) option"
  ReadNtohU32 :: "u8 list \<Rightarrow> (u32 \<times> u8 list) option"
  ReadFrom :: "u8 list \<Rightarrow> (ipv4addr \<times> u8 list) option"

definition buffer_laws :: "buffer_ops \<Rightarrow> bool" where
  "buffer_laws B \<longleftrightarrow>
     (\<forall>x r. ReadU8 B (WriteU8 B x @ r) = Some (x, r)) \<and> (\<forall>x. length (WriteU8 B x) = 1) \<and>
     (\<forall>x r. ReadNtohU16 B (WriteHtonU16 B x @ r) = Some (x, r)) \<and> (\<forall>x. length (WriteHtonU16 B x) = 2) \<and>
     (\<forall>x r. ReadNtohU32 B (WriteHtonU32 B x @ r) = Some (x, r)) \<and> (\<forall>x. length (WriteHtonU32 B x) = 4) \<and>
     (\<forall>x r. ReadFrom B (WriteTo B x @ r) = Some (x, r)) \<and> (\<forall>x. length (WriteTo B x) = 4)"

lemma buffer_rw:
  assumes "buffer_laws B"
  shows "ReadU8 B (WriteU8 B a @ r) = Some (a, r)" "length (WriteU8 B a) = 1"
    "ReadNtohU16 B (WriteHtonU16 B b @ r) = Some (b, r)" "length (WriteHtonU16 B b) = 2"
    "ReadNtohU32 B (WriteHtonU32 B c @ r) = Some (c, r)" "length (WriteHtonU32 B c) = 4"
    "ReadFrom B (WriteTo B d @ r) = Some (d, r)" "length (WriteTo B d) = 4"
  using assms by (simp_all add: buffer_laws_def)

text \<open>The network byte order buffer: an instance of the laws.\<close>

definition net_write16 :: "u16 \<Rightarrow> u8 list" where
  "net_write16 x = [ucast (drop_bit 8 x), ucast x]"

definition net_write32 :: "u32 \<Rightarrow> u8 list" where
  "net_write32 x = [ucast (drop_bit 24 x), ucast (drop_bit 16 x), ucast (drop_bit 8 x), ucast x]"

fun net_read8 :: "u8 list \<Rightarrow> (u8 \<times> u8 list) option" where
  "net_read8 (a # r) = Some (a, r)"
| "net_read8 _ = None"

fun net_read16 :: "u8 list \<Rightarrow> (u16 \<times> u8 list) option" where
  "net_read16 (a # b # r) = Some (push_bit 8 (ucast a) OR ucast b, r)"
| "net_read16 _ = None"

fun net_read32 :: "u8 list \<Rightarrow> (u32 \<times> u8 list) option" where
  "net_read32 (a # b # c # d # r) =
     Some (push_bit 24 (ucast a) OR push_bit 16 (ucast b) OR push_bit 8 (ucast c) OR ucast d, r)"
| "net_read32 _ = None"

definition net_buffer :: buffer_ops where
  "net_buffer = \<lparr>WriteU8 = (\<lambda>x. [x]), WriteHtonU16 = net_write16, WriteHtonU32 = net_write32,
     WriteTo = net_write32, ReadU8 = net_read8, ReadNtohU16 = net_read16,
     ReadNtohU32 = net_read32, ReadFrom = net_read32\<rparr>"

lemma join16: "push_bit 8 (ucast (ucast (drop_bit 8 x) :: u8)) OR ucast (ucast x :: u8) = (x :: u16)"
  by (rule bit_word_eqI) (auto simp: bit_simps)

lemma join32:
  "push_bit 24 (ucast (ucast (drop_bit 24 x) :: u8)) OR push_bit 16 (ucast (ucast (drop_bit 16 x) :: u8))
   OR push_bit 8 (ucast (ucast (drop_bit 8 x) :: u8)) OR ucast (ucast x :: u8) = (x :: u32)"
proof (rule bit_word_eqI)
  fix n :: nat
  consider "n < 8" | "8 \<le> n" "n < 16" | "16 \<le> n" "n < 24" | "24 \<le> n" by linarith
  then show "bit (push_bit 24 (ucast (ucast (drop_bit 24 x) :: u8))
      OR push_bit 16 (ucast (ucast (drop_bit 16 x) :: u8))
      OR push_bit 8 (ucast (ucast (drop_bit 8 x) :: u8)) OR ucast (ucast x :: u8) :: u32) n = bit x n"
    if "n < LENGTH(32)"
    by cases (use that in \<open>auto simp: bit_simps\<close>)
qed

lemma net_buffer_laws: "buffer_laws net_buffer"
  by (simp add: buffer_laws_def net_buffer_def net_write16_def net_write32_def join16 join32)

text \<open>\<open>i.GetDistanceFrom (start)\<close>: the bytes between two positions of the buffer.\<close>

definition distance_from :: "u8 list \<Rightarrow> u8 list \<Rightarrow> u32" where
  "distance_from start i = of_nat (length start - length i)"

section \<open>Message type\<close>

datatype MessageType = AODVTYPE_RREQ | AODVTYPE_RREP | AODVTYPE_RERR | AODVTYPE_RREP_ACK | TYPE_HELLO

fun MessageType_code :: "MessageType \<Rightarrow> u8" where
  "MessageType_code AODVTYPE_RREQ = 1"
| "MessageType_code AODVTYPE_RREP = 2"
| "MessageType_code AODVTYPE_RERR = 3"
| "MessageType_code AODVTYPE_RREP_ACK = 4"
| "MessageType_code TYPE_HELLO = 5"

definition MessageType_of :: "u8 \<Rightarrow> MessageType option" where
  "MessageType_of t =
     (if t = 1 then Some AODVTYPE_RREQ else if t = 2 then Some AODVTYPE_RREP
      else if t = 3 then Some AODVTYPE_RERR else if t = 4 then Some AODVTYPE_RREP_ACK
      else if t = 5 then Some TYPE_HELLO else None)"

lemma MessageType_of_code [simp]: "MessageType_of (MessageType_code t) = Some t"
  by (cases t) (simp_all add: MessageType_of_def)

record TypeHeader =
  m_type :: MessageType
  m_valid :: bool

definition TypeHeader_new :: "MessageType \<Rightarrow> TypeHeader" where
  "TypeHeader_new t = \<lparr>m_type = t, m_valid = True\<rparr>"

definition TypeHeader_GetSerializedSize :: "TypeHeader \<Rightarrow> u32" where
  "TypeHeader_GetSerializedSize h = 1"

definition TypeHeader_Serialize :: "buffer_ops \<Rightarrow> TypeHeader \<Rightarrow> u8 list" where
  "TypeHeader_Serialize B h = WriteU8 B (MessageType_code (m_type h))"

definition TypeHeader_Deserialize ::
  "buffer_ops \<Rightarrow> TypeHeader \<Rightarrow> u8 list \<Rightarrow> (TypeHeader \<times> u32) option" where
  "TypeHeader_Deserialize B h start = do {
     (type, i) \<leftarrow> ReadU8 B start;
     let h = h\<lparr>m_valid := True\<rparr>;
     let h = (case MessageType_of type of
                Some t \<Rightarrow> h\<lparr>m_type := t\<rparr>
              | None \<Rightarrow> h\<lparr>m_valid := False\<rparr>);
     let dist = distance_from start i;
     if dist = TypeHeader_GetSerializedSize h then Some (h, dist) else None
   }"

section \<open>Hello\<close>

record HelloHeader =
  m_messageLength :: u16
  m_helloSequenceNumber :: u16
  m_nodeStatus :: NodeStatus
  m_bnBcnIndicator :: core_noncore_Indicator
  m_listSize :: u8
  m_nodeIdentifier :: ipv4addr
  m_associatedBnIdentifier :: ipv4addr
  m_helloWeightSize :: u16
  m_weightFunction :: WeightFunction
  m_weightValue :: u32
  m_MulticastBnNeighbors :: MulticastBnNeighborSet

definition AODVMESH_HELLO_HEADER_SIZE :: nat where "AODVMESH_HELLO_HEADER_SIZE = 23"

definition AODVMESH_HELLO_BNNEIGHBOR_ENTRY :: nat where "AODVMESH_HELLO_BNNEIGHBOR_ENTRY = 24"

lemmas hello_sizes = AODVMESH_HELLO_HEADER_SIZE_def AODVMESH_HELLO_BNNEIGHBOR_ENTRY_def

definition HelloHeader_new ::
  "u16 \<Rightarrow> NodeStatus \<Rightarrow> core_noncore_Indicator \<Rightarrow> ipv4addr \<Rightarrow> ipv4addr \<Rightarrow> WeightFunction \<Rightarrow> u32
   \<Rightarrow> MulticastBnNeighborSet \<Rightarrow> HelloHeader" where
  "HelloHeader_new sequenceNumber nodeStatus bnBcnIndicator originatorAddress associatedBnAddress
     weightFunction weightValue tset =
     (let n = (if nodeStatus = RN_NODE then 0 else length tset);
          h = \<lparr>m_messageLength = of_nat (AODVMESH_HELLO_HEADER_SIZE + AODVMESH_HELLO_BNNEIGHBOR_ENTRY * n),
               m_helloSequenceNumber = sequenceNumber,
               m_nodeStatus = nodeStatus, m_bnBcnIndicator = bnBcnIndicator,
               m_listSize = of_nat n,
               m_nodeIdentifier = originatorAddress,
               m_associatedBnIdentifier = associatedBnAddress,
               m_helloWeightSize = 4,
               m_weightFunction = weightFunction, m_weightValue = weightValue,
               m_MulticastBnNeighbors = tset\<rparr>
      in if m_listSize h = 0 then h\<lparr>m_MulticastBnNeighbors := []\<rparr> else h)"

definition HelloHeader_GetSerializedSize :: "HelloHeader \<Rightarrow> u32" where
  "HelloHeader_GetSerializedSize h =
     of_nat AODVMESH_HELLO_HEADER_SIZE
     + of_nat (unat (m_listSize h)) * of_nat AODVMESH_HELLO_BNNEIGHBOR_ENTRY"

fun write_bn_neighbors :: "buffer_ops \<Rightarrow> MulticastBnNeighborSet \<Rightarrow> u8 list" where
  "write_bn_neighbors B [] = []"
| "write_bn_neighbors B (t # ts) =
     WriteHtonU32 B (twoHopBnNeighborIfaceAddr t)
     @ WriteHtonU32 B (twoHopBnNeighborWeight t)
     @ WriteHtonU32 B (of_nat (indicator_code (twoHopBnNeighborIndicator t)))
     @ write_bn_neighbors B ts"

definition HelloHeader_Serialize :: "buffer_ops \<Rightarrow> HelloHeader \<Rightarrow> u8 list" where
  "HelloHeader_Serialize B h =
     WriteU8 B (of_nat (NodeStatus_code (m_nodeStatus h)))
     @ WriteU8 B (of_nat (indicator_code (m_bnBcnIndicator h)))
     @ WriteU8 B (m_listSize h)
     @ WriteHtonU16 B (of_nat (AODVMESH_HELLO_HEADER_SIZE
                               + unat (m_listSize h) * AODVMESH_HELLO_BNNEIGHBOR_ENTRY))
     @ WriteHtonU16 B (m_helloSequenceNumber h)
     @ WriteHtonU32 B (m_nodeIdentifier h)
     @ WriteHtonU32 B (m_associatedBnIdentifier h)
     @ WriteHtonU16 B 4
     @ WriteHtonU16 B (of_nat (WeightFunction_code (m_weightFunction h)))
     @ WriteHtonU32 B (m_weightValue h)
     @ (if m_listSize h > 0 then write_bn_neighbors B (m_MulticastBnNeighbors h) else [])"

text \<open>
  The reader stamps each tuple with \<open>Seconds (Simulator::Now ().ToInteger (Time::S))\<close>, the
  argument \<open>stamp\<close>.
\<close>

fun read_bn_neighbors ::
  "buffer_ops \<Rightarrow> time \<Rightarrow> nat \<Rightarrow> u8 list \<Rightarrow> (MulticastBnNeighborSet \<times> u8 list) option" where
  "read_bn_neighbors B stamp 0 i = Some ([], i)"
| "read_bn_neighbors B stamp (Suc n) i = do {
     (address, i) \<leftarrow> ReadNtohU32 B i;
     (weight, i) \<leftarrow> ReadNtohU32 B i;
     (code, i) \<leftarrow> ReadNtohU32 B i;
     ind \<leftarrow> indicator_of (unat code);
     (ts, i) \<leftarrow> read_bn_neighbors B stamp n i;
     Some (MulticastBnNeighborTuple_new address weight ind stamp # ts, i)
   }"

definition HelloHeader_Deserialize ::
  "buffer_ops \<Rightarrow> time \<Rightarrow> u8 list \<Rightarrow> (HelloHeader \<times> u32) option" where
  "HelloHeader_Deserialize B stamp start = do {
     (st, i) \<leftarrow> ReadU8 B start;
     nodeStatus \<leftarrow> NodeStatus_of (unat st);
     (ic, i) \<leftarrow> ReadU8 B i;
     bnBcnIndicator \<leftarrow> indicator_of (unat ic);
     (listSize, i) \<leftarrow> ReadU8 B i;
     (messageLength, i) \<leftarrow> ReadNtohU16 B i;
     (sequenceNumber, i) \<leftarrow> ReadNtohU16 B i;
     (nodeIdentifier, i) \<leftarrow> ReadNtohU32 B i;
     (associatedBn, i) \<leftarrow> ReadNtohU32 B i;
     (weightSize, i) \<leftarrow> ReadNtohU16 B i;
     (wf, i) \<leftarrow> ReadNtohU16 B i;
     weightFunction \<leftarrow> WeightFunction_of (unat wf);
     (weightValue, i) \<leftarrow> ReadNtohU32 B i;
     let messageSize = (ucast messageLength - of_nat AODVMESH_HELLO_HEADER_SIZE :: u32);
     if messageSize mod of_nat AODVMESH_HELLO_BNNEIGHBOR_ENTRY \<noteq> 0 then None else do {
       let numBnNeighbors = messageSize div of_nat AODVMESH_HELLO_BNNEIGHBOR_ENTRY;
       (ts, i) \<leftarrow> read_bn_neighbors B stamp (unat listSize) i;
       let size = of_nat AODVMESH_HELLO_HEADER_SIZE
                  + of_nat (unat listSize) * of_nat AODVMESH_HELLO_BNNEIGHBOR_ENTRY;
       if ucast listSize \<noteq> numBnNeighbors then None
       else Some (\<lparr>m_messageLength = messageLength, m_helloSequenceNumber = sequenceNumber,
                   m_nodeStatus = nodeStatus, m_bnBcnIndicator = bnBcnIndicator,
                   m_listSize = listSize, m_nodeIdentifier = nodeIdentifier,
                   m_associatedBnIdentifier = associatedBn, m_helloWeightSize = weightSize,
                   m_weightFunction = weightFunction, m_weightValue = weightValue,
                   m_MulticastBnNeighbors = ts\<rparr>, size)
     }
   }"


section \<open>Route request\<close>

record RreqHeader =
  rreq_flags :: u8
  rreq_reserved :: u8
  rreq_hopCount :: u8
  rreq_requestID :: u32
  rreq_dst :: ipv4addr
  rreq_dstSeqNo :: u32
  rreq_origin :: ipv4addr
  rreq_originSeqNo :: u32

definition RreqHeader_new ::
  "u8 \<Rightarrow> u8 \<Rightarrow> u8 \<Rightarrow> u32 \<Rightarrow> ipv4addr \<Rightarrow> u32 \<Rightarrow> ipv4addr \<Rightarrow> u32 \<Rightarrow> RreqHeader" where
  "RreqHeader_new flags reserved hopCount requestID dst dstSeqNo origin originSeqNo =
     \<lparr>rreq_flags = flags, rreq_reserved = reserved, rreq_hopCount = hopCount,
      rreq_requestID = requestID, rreq_dst = dst, rreq_dstSeqNo = dstSeqNo,
      rreq_origin = origin, rreq_originSeqNo = originSeqNo\<rparr>"

definition RreqHeader_GetSerializedSize :: "RreqHeader \<Rightarrow> u32" where
  "RreqHeader_GetSerializedSize h = 23"

definition RreqHeader_Serialize :: "buffer_ops \<Rightarrow> RreqHeader \<Rightarrow> u8 list" where
  "RreqHeader_Serialize B h =
     WriteU8 B (rreq_flags h) @ WriteU8 B (rreq_reserved h) @ WriteU8 B (rreq_hopCount h)
     @ WriteHtonU32 B (rreq_requestID h) @ WriteTo B (rreq_dst h)
     @ WriteHtonU32 B (rreq_dstSeqNo h) @ WriteTo B (rreq_origin h)
     @ WriteHtonU32 B (rreq_originSeqNo h)"

definition RreqHeader_Deserialize :: "buffer_ops \<Rightarrow> u8 list \<Rightarrow> (RreqHeader \<times> u32) option" where
  "RreqHeader_Deserialize B start = do {
     (flags, i) \<leftarrow> ReadU8 B start;
     (reserved, i) \<leftarrow> ReadU8 B i;
     (hopCount, i) \<leftarrow> ReadU8 B i;
     (requestID, i) \<leftarrow> ReadNtohU32 B i;
     (dst, i) \<leftarrow> ReadFrom B i;
     (dstSeqNo, i) \<leftarrow> ReadNtohU32 B i;
     (origin, i) \<leftarrow> ReadFrom B i;
     (originSeqNo, i) \<leftarrow> ReadNtohU32 B i;
     let h = RreqHeader_new flags reserved hopCount requestID dst dstSeqNo origin originSeqNo;
     let dist = distance_from start i;
     if dist = RreqHeader_GetSerializedSize h then Some (h, dist) else None
   }"

text \<open>Writing one bit of a flag byte, \<open>m |= (1 << n)\<close> or \<open>m &= ~(1 << n)\<close>, and testing it.\<close>

definition put_flag :: "nat \<Rightarrow> bool \<Rightarrow> u8 \<Rightarrow> u8" where
  "put_flag n f m = (if f then m OR push_bit n 1 else m AND NOT (push_bit n 1))"

definition get_flag :: "nat \<Rightarrow> u8 \<Rightarrow> bool" where
  "get_flag n m \<longleftrightarrow> m AND push_bit n 1 \<noteq> 0"

definition RreqHeader_SetGratiousRrep :: "bool \<Rightarrow> RreqHeader \<Rightarrow> RreqHeader" where
  "RreqHeader_SetGratiousRrep f h = h\<lparr>rreq_flags := put_flag 5 f (rreq_flags h)\<rparr>"

definition RreqHeader_GetGratiousRrep :: "RreqHeader \<Rightarrow> bool" where
  "RreqHeader_GetGratiousRrep h = get_flag 5 (rreq_flags h)"

definition RreqHeader_SetDestinationOnly :: "bool \<Rightarrow> RreqHeader \<Rightarrow> RreqHeader" where
  "RreqHeader_SetDestinationOnly f h = h\<lparr>rreq_flags := put_flag 4 f (rreq_flags h)\<rparr>"

definition RreqHeader_GetDestinationOnly :: "RreqHeader \<Rightarrow> bool" where
  "RreqHeader_GetDestinationOnly h = get_flag 4 (rreq_flags h)"

definition RreqHeader_SetUnknownSeqno :: "bool \<Rightarrow> RreqHeader \<Rightarrow> RreqHeader" where
  "RreqHeader_SetUnknownSeqno f h = h\<lparr>rreq_flags := put_flag 3 f (rreq_flags h)\<rparr>"

definition RreqHeader_GetUnknownSeqno :: "RreqHeader \<Rightarrow> bool" where
  "RreqHeader_GetUnknownSeqno h = get_flag 3 (rreq_flags h)"

definition RreqHeader_eq :: "RreqHeader \<Rightarrow> RreqHeader \<Rightarrow> bool" where
  "RreqHeader_eq h p \<longleftrightarrow>
     rreq_flags h = rreq_flags p \<and> rreq_reserved h = rreq_reserved p \<and>
     rreq_hopCount h = rreq_hopCount p \<and> rreq_requestID h = rreq_requestID p \<and>
     rreq_dst h = rreq_dst p \<and> rreq_dstSeqNo h = rreq_dstSeqNo p \<and>
     rreq_origin h = rreq_origin p \<and> rreq_originSeqNo h = rreq_originSeqNo p"

section \<open>Route reply\<close>

text \<open>
  \<open>Time::GetMilliSeconds\<close> and \<open>MilliSeconds\<close> convert between the simulator's unit and
  milliseconds; they are the fields of the argument \<open>U\<close>.
\<close>

record time_unit =
  GetMilliSeconds :: "time \<Rightarrow> int"
  MilliSeconds :: "int \<Rightarrow> time"

definition time_unit_laws :: "time_unit \<Rightarrow> bool" where
  "time_unit_laws U \<longleftrightarrow> (\<forall>n. GetMilliSeconds U (MilliSeconds U n) = n)"

definition nanoseconds :: time_unit where
  "nanoseconds = \<lparr>GetMilliSeconds = (\<lambda>t. t div 1000000), MilliSeconds = (\<lambda>n. n * 1000000)\<rparr>"

lemma nanoseconds_laws: "time_unit_laws nanoseconds"
  by (simp add: time_unit_laws_def nanoseconds_def)

record RrepHeader =
  rrep_flags :: u8
  rrep_prefixSize :: u8
  rrep_hopCount :: u8
  rrep_dst :: ipv4addr
  rrep_dstSeqNo :: u32
  rrep_origin :: ipv4addr
  rrep_lifeTime :: u32

definition RrepHeader_new ::
  "time_unit \<Rightarrow> u8 \<Rightarrow> u8 \<Rightarrow> ipv4addr \<Rightarrow> u32 \<Rightarrow> ipv4addr \<Rightarrow> time \<Rightarrow> RrepHeader" where
  "RrepHeader_new U prefixSize hopCount dst dstSeqNo origin lifeTime =
     \<lparr>rrep_flags = 0, rrep_prefixSize = prefixSize, rrep_hopCount = hopCount, rrep_dst = dst,
      rrep_dstSeqNo = dstSeqNo, rrep_origin = origin,
      rrep_lifeTime = word_of_int (GetMilliSeconds U lifeTime)\<rparr>"

definition RrepHeader_GetSerializedSize :: "RrepHeader \<Rightarrow> u32" where
  "RrepHeader_GetSerializedSize h = 19"

definition RrepHeader_Serialize :: "buffer_ops \<Rightarrow> RrepHeader \<Rightarrow> u8 list" where
  "RrepHeader_Serialize B h =
     WriteU8 B (rrep_flags h) @ WriteU8 B (rrep_prefixSize h) @ WriteU8 B (rrep_hopCount h)
     @ WriteTo B (rrep_dst h) @ WriteHtonU32 B (rrep_dstSeqNo h)
     @ WriteTo B (rrep_origin h) @ WriteHtonU32 B (rrep_lifeTime h)"

definition RrepHeader_Deserialize :: "buffer_ops \<Rightarrow> u8 list \<Rightarrow> (RrepHeader \<times> u32) option" where
  "RrepHeader_Deserialize B start = do {
     (flags, i) \<leftarrow> ReadU8 B start;
     (prefixSize, i) \<leftarrow> ReadU8 B i;
     (hopCount, i) \<leftarrow> ReadU8 B i;
     (dst, i) \<leftarrow> ReadFrom B i;
     (dstSeqNo, i) \<leftarrow> ReadNtohU32 B i;
     (origin, i) \<leftarrow> ReadFrom B i;
     (lifeTime, i) \<leftarrow> ReadNtohU32 B i;
     let h = \<lparr>rrep_flags = flags, rrep_prefixSize = prefixSize, rrep_hopCount = hopCount,
              rrep_dst = dst, rrep_dstSeqNo = dstSeqNo, rrep_origin = origin,
              rrep_lifeTime = lifeTime\<rparr>;
     let dist = distance_from start i;
     if dist = RrepHeader_GetSerializedSize h then Some (h, dist) else None
   }"

definition RrepHeader_SetLifeTime :: "time_unit \<Rightarrow> time \<Rightarrow> RrepHeader \<Rightarrow> RrepHeader" where
  "RrepHeader_SetLifeTime U t h = h\<lparr>rrep_lifeTime := word_of_int (GetMilliSeconds U t)\<rparr>"

definition RrepHeader_GetLifeTime :: "time_unit \<Rightarrow> RrepHeader \<Rightarrow> time" where
  "RrepHeader_GetLifeTime U h = MilliSeconds U (uint (rrep_lifeTime h))"

definition RrepHeader_SetAckRequired :: "bool \<Rightarrow> RrepHeader \<Rightarrow> RrepHeader" where
  "RrepHeader_SetAckRequired f h = h\<lparr>rrep_flags := put_flag 6 f (rrep_flags h)\<rparr>"

definition RrepHeader_GetAckRequired :: "RrepHeader \<Rightarrow> bool" where
  "RrepHeader_GetAckRequired h = get_flag 6 (rrep_flags h)"

definition RrepHeader_SetPrefixSize :: "u8 \<Rightarrow> RrepHeader \<Rightarrow> RrepHeader" where
  "RrepHeader_SetPrefixSize sz h = h\<lparr>rrep_prefixSize := sz\<rparr>"

definition RrepHeader_GetPrefixSize :: "RrepHeader \<Rightarrow> u8" where
  "RrepHeader_GetPrefixSize h = rrep_prefixSize h"

definition RrepHeader_eq :: "RrepHeader \<Rightarrow> RrepHeader \<Rightarrow> bool" where
  "RrepHeader_eq h p \<longleftrightarrow>
     rrep_flags h = rrep_flags p \<and> rrep_prefixSize h = rrep_prefixSize p \<and>
     rrep_hopCount h = rrep_hopCount p \<and> rrep_dst h = rrep_dst p \<and>
     rrep_dstSeqNo h = rrep_dstSeqNo p \<and> rrep_origin h = rrep_origin p \<and>
     rrep_lifeTime h = rrep_lifeTime p"

definition RrepHeader_SetHello ::
  "time_unit \<Rightarrow> ipv4addr \<Rightarrow> u32 \<Rightarrow> time \<Rightarrow> RrepHeader \<Rightarrow> RrepHeader" where
  "RrepHeader_SetHello U origin srcSeqNo lifetime h =
     h\<lparr>rrep_flags := 0, rrep_prefixSize := 0, rrep_hopCount := 0, rrep_dst := origin,
       rrep_dstSeqNo := srcSeqNo, rrep_origin := origin,
       rrep_lifeTime := word_of_int (GetMilliSeconds U lifetime)\<rparr>"

section \<open>Route reply acknowledgement\<close>

record RrepAckHeader =
  ack_reserved :: u8

definition RrepAckHeader_new :: RrepAckHeader where
  "RrepAckHeader_new = \<lparr>ack_reserved = 0\<rparr>"

definition RrepAckHeader_GetSerializedSize :: "RrepAckHeader \<Rightarrow> u32" where
  "RrepAckHeader_GetSerializedSize h = 1"

definition RrepAckHeader_Serialize :: "buffer_ops \<Rightarrow> RrepAckHeader \<Rightarrow> u8 list" where
  "RrepAckHeader_Serialize B h = WriteU8 B (ack_reserved h)"

definition RrepAckHeader_Deserialize ::
  "buffer_ops \<Rightarrow> u8 list \<Rightarrow> (RrepAckHeader \<times> u32) option" where
  "RrepAckHeader_Deserialize B start = do {
     (reserved, i) \<leftarrow> ReadU8 B start;
     let h = \<lparr>ack_reserved = reserved\<rparr>;
     let dist = distance_from start i;
     if dist = RrepAckHeader_GetSerializedSize h then Some (h, dist) else None
   }"

definition RrepAckHeader_eq :: "RrepAckHeader \<Rightarrow> RrepAckHeader \<Rightarrow> bool" where
  "RrepAckHeader_eq h p \<longleftrightarrow> ack_reserved h = ack_reserved p"

section \<open>Route error\<close>

record RerrHeader =
  rerr_flag :: u8
  rerr_reserved :: u8
  m_unreachableDstSeqNo :: "(ipv4addr \<times> u32) list"

definition RerrHeader_new :: RerrHeader where
  "RerrHeader_new = \<lparr>rerr_flag = 0, rerr_reserved = 0, m_unreachableDstSeqNo = []\<rparr>"

definition RerrHeader_GetDestCount :: "RerrHeader \<Rightarrow> u8" where
  "RerrHeader_GetDestCount h = of_nat (length (m_unreachableDstSeqNo h))"

definition RerrHeader_GetSerializedSize :: "RerrHeader \<Rightarrow> u32" where
  "RerrHeader_GetSerializedSize h = 3 + 8 * ucast (RerrHeader_GetDestCount h)"

fun write_destinations :: "buffer_ops \<Rightarrow> (ipv4addr \<times> u32) list \<Rightarrow> u8 list" where
  "write_destinations B [] = []"
| "write_destinations B (j # js) =
     WriteTo B (fst j) @ WriteHtonU32 B (snd j) @ write_destinations B js"

definition RerrHeader_Serialize :: "buffer_ops \<Rightarrow> RerrHeader \<Rightarrow> u8 list" where
  "RerrHeader_Serialize B h =
     WriteU8 B (rerr_flag h) @ WriteU8 B (rerr_reserved h) @ WriteU8 B (RerrHeader_GetDestCount h)
     @ write_destinations B (m_unreachableDstSeqNo h)"

fun read_destinations ::
  "buffer_ops \<Rightarrow> nat \<Rightarrow> (ipv4addr \<times> u32) list \<Rightarrow> u8 list
   \<Rightarrow> ((ipv4addr \<times> u32) list \<times> u8 list) option" where
  "read_destinations B 0 m i = Some (m, i)"
| "read_destinations B (Suc k) m i = do {
     (address, i) \<leftarrow> ReadFrom B i;
     (seqNo, i) \<leftarrow> ReadNtohU32 B i;
     read_destinations B k (map_insert address seqNo m) i
   }"

definition RerrHeader_Deserialize :: "buffer_ops \<Rightarrow> u8 list \<Rightarrow> (RerrHeader \<times> u32) option" where
  "RerrHeader_Deserialize B start = do {
     (flag, i) \<leftarrow> ReadU8 B start;
     (reserved, i) \<leftarrow> ReadU8 B i;
     (dest, i) \<leftarrow> ReadU8 B i;
     (m, i) \<leftarrow> read_destinations B (unat dest) [] i;
     let h = \<lparr>rerr_flag = flag, rerr_reserved = reserved, m_unreachableDstSeqNo = m\<rparr>;
     let dist = distance_from start i;
     if dist = RerrHeader_GetSerializedSize h then Some (h, dist) else None
   }"

definition RerrHeader_SetNoDelete :: "bool \<Rightarrow> RerrHeader \<Rightarrow> RerrHeader" where
  "RerrHeader_SetNoDelete f h = h\<lparr>rerr_flag := put_flag 0 f (rerr_flag h)\<rparr>"

definition RerrHeader_GetNoDelete :: "RerrHeader \<Rightarrow> bool" where
  "RerrHeader_GetNoDelete h = get_flag 0 (rerr_flag h)"

text \<open>\<open>None\<close>: the assertion \<open>GetDestCount () < 255\<close> fails.\<close>

definition RerrHeader_AddUnDestination ::
  "ipv4addr \<Rightarrow> u32 \<Rightarrow> RerrHeader \<Rightarrow> (bool \<times> RerrHeader) option" where
  "RerrHeader_AddUnDestination dst seqNo h =
     (if map_of (m_unreachableDstSeqNo h) dst \<noteq> None then Some (True, h)
      else if RerrHeader_GetDestCount h < 255
      then Some (True, h\<lparr>m_unreachableDstSeqNo := map_insert dst seqNo (m_unreachableDstSeqNo h)\<rparr>)
      else None)"

fun RerrHeader_RemoveUnDestination ::
  "RerrHeader \<Rightarrow> ((ipv4addr \<times> u32) \<times> RerrHeader) option" where
  "RerrHeader_RemoveUnDestination h =
     (case m_unreachableDstSeqNo h of
        [] \<Rightarrow> None
      | un # m \<Rightarrow> Some (un, h\<lparr>m_unreachableDstSeqNo := m\<rparr>))"

definition RerrHeader_Clear :: "RerrHeader \<Rightarrow> RerrHeader" where
  "RerrHeader_Clear h = h\<lparr>m_unreachableDstSeqNo := [], rerr_flag := 0, rerr_reserved := 0\<rparr>"

definition RerrHeader_eq :: "RerrHeader \<Rightarrow> RerrHeader \<Rightarrow> bool" where
  "RerrHeader_eq h p \<longleftrightarrow>
     rerr_flag h = rerr_flag p \<and> rerr_reserved h = rerr_reserved p \<and>
     RerrHeader_GetDestCount h = RerrHeader_GetDestCount p \<and>
     (let n = unat (RerrHeader_GetDestCount h)
      in take n (m_unreachableDstSeqNo h) = take n (m_unreachableDstSeqNo p))"

end
