(* ===== verification/Packet_Codec.thy ===== *)
theory Packet_Codec
  imports Packet
begin

text \<open>
  The contract of an \<open>ns3::Header\<close> and its proof for the six headers. \<open>Packet::AddHeader\<close>
  reserves \<open>GetSerializedSize\<close> bytes in front of the packet and lets \<open>Serialize\<close> write into
  them; \<open>Packet::RemoveHeader\<close> calls \<open>Deserialize\<close> and drops the number of bytes it returns.
  So a header is sound when what it writes fits the reserved bytes and reading it back, with
  any bytes \<open>pad\<close> in the part it left unwritten, returns the header and the reserved size.
  \<open>norm x h\<close> is the header as read back in context \<open>x\<close> (the reader's time stamp, or the
  header object that is overwritten).
\<close>

locale header_codec =
  fixes Ser :: "buffer_ops \<Rightarrow> 'h \<Rightarrow> u8 list"
    and De :: "buffer_ops \<Rightarrow> 'x \<Rightarrow> u8 list \<Rightarrow> ('h \<times> u32) option"
    and Siz :: "'h \<Rightarrow> u32"
    and norm :: "'x \<Rightarrow> 'h \<Rightarrow> 'h"
    and wf :: "'h \<Rightarrow> bool"
  assumes ser_fits: "buffer_laws B \<Longrightarrow> wf h \<Longrightarrow> length (Ser B h) \<le> unat (Siz h)"
    and de_ser: "buffer_laws B \<Longrightarrow> wf h \<Longrightarrow> De B x (Ser B h @ rest) = Some (norm x h, Siz h)"
begin

lemma remove_added:
  assumes "buffer_laws B" "wf h" "length pad = unat (Siz h) - length (Ser B h)"
  shows "De B x (Ser B h @ pad @ rest) = Some (norm x h, Siz h)
    \<and> drop (unat (Siz h)) (Ser B h @ pad @ rest) = rest"
  using assms ser_fits [of B h] de_ser [of B h x "pad @ rest"] by simp

lemma ser_prefix_free:
  assumes "buffer_laws B" "wf h" "wf k" "Ser B h @ r = Ser B k @ s"
  shows "norm x h = norm x k \<and> Siz h = Siz k"
  using assms de_ser [of B h x r] de_ser [of B k x s] by simp

end

text \<open>A control packet is two headers: the message type in front of the message.\<close>

locale typed_packet =
  ty: header_codec Ser1 De1 Siz1 norm1 wf1 + msg: header_codec Ser2 De2 Siz2 norm2 wf2
  for Ser1 :: "buffer_ops \<Rightarrow> 'h1 \<Rightarrow> u8 list"
    and De1 :: "buffer_ops \<Rightarrow> 'x1 \<Rightarrow> u8 list \<Rightarrow> ('h1 \<times> u32) option"
    and Siz1 :: "'h1 \<Rightarrow> u32" and norm1 :: "'x1 \<Rightarrow> 'h1 \<Rightarrow> 'h1" and wf1 :: "'h1 \<Rightarrow> bool"
    and Ser2 :: "buffer_ops \<Rightarrow> 'h2 \<Rightarrow> u8 list"
    and De2 :: "buffer_ops \<Rightarrow> 'x2 \<Rightarrow> u8 list \<Rightarrow> ('h2 \<times> u32) option"
    and Siz2 :: "'h2 \<Rightarrow> u32" and norm2 :: "'x2 \<Rightarrow> 'h2 \<Rightarrow> 'h2" and wf2 :: "'h2 \<Rightarrow> bool"
begin

lemma remove_both:
  assumes "buffer_laws B" "wf1 t" "wf2 h"
    and "length pad1 = unat (Siz1 t) - length (Ser1 B t)"
    and "length pad2 = unat (Siz2 h) - length (Ser2 B h)"
  shows "De1 B x (Ser1 B t @ pad1 @ Ser2 B h @ pad2) = Some (norm1 x t, Siz1 t)"
    and "De2 B y (drop (unat (Siz1 t)) (Ser1 B t @ pad1 @ Ser2 B h @ pad2)) = Some (norm2 y h, Siz2 h)"
  using assms ty.remove_added [of B t pad1 x "Ser2 B h @ pad2"] msg.de_ser [of B h y pad2]
  by simp_all

end

section \<open>The headers\<close>

lemma TypeHeader_de_ser:
  "buffer_laws B \<Longrightarrow>
   TypeHeader_Deserialize B old (TypeHeader_Serialize B h @ r)
   = Some (h\<lparr>m_valid := True\<rparr>, TypeHeader_GetSerializedSize h)"
  by (simp add: TypeHeader_Deserialize_def TypeHeader_Serialize_def TypeHeader_GetSerializedSize_def
      distance_from_def buffer_rw)

lemma RreqHeader_de_ser:
  "buffer_laws B \<Longrightarrow>
   RreqHeader_Deserialize B (RreqHeader_Serialize B h @ r) = Some (h, RreqHeader_GetSerializedSize h)"
  by (simp add: RreqHeader_Deserialize_def RreqHeader_Serialize_def RreqHeader_GetSerializedSize_def
      RreqHeader_new_def distance_from_def buffer_rw)

lemma RrepHeader_de_ser:
  "buffer_laws B \<Longrightarrow>
   RrepHeader_Deserialize B (RrepHeader_Serialize B h @ r) = Some (h, RrepHeader_GetSerializedSize h)"
  by (simp add: RrepHeader_Deserialize_def RrepHeader_Serialize_def RrepHeader_GetSerializedSize_def
      distance_from_def buffer_rw)

lemma RrepAckHeader_de_ser:
  "buffer_laws B \<Longrightarrow>
   RrepAckHeader_Deserialize B (RrepAckHeader_Serialize B h @ r)
   = Some (h, RrepAckHeader_GetSerializedSize h)"
  by (simp add: RrepAckHeader_Deserialize_def RrepAckHeader_Serialize_def
      RrepAckHeader_GetSerializedSize_def distance_from_def buffer_rw)

text \<open>The fixed-size headers fill the reserved bytes exactly.\<close>

lemma fixed_ser_length:
  assumes "buffer_laws B"
  shows "length (TypeHeader_Serialize B t) = unat (TypeHeader_GetSerializedSize t)"
    and "length (RreqHeader_Serialize B q) = unat (RreqHeader_GetSerializedSize q)"
    and "length (RrepHeader_Serialize B p) = unat (RrepHeader_GetSerializedSize p)"
    and "length (RrepAckHeader_Serialize B a) = unat (RrepAckHeader_GetSerializedSize a)"
  using assms
  by (simp_all add: TypeHeader_Serialize_def TypeHeader_GetSerializedSize_def RreqHeader_Serialize_def
      RreqHeader_GetSerializedSize_def RrepHeader_Serialize_def RrepHeader_GetSerializedSize_def
      RrepAckHeader_Serialize_def RrepAckHeader_GetSerializedSize_def buffer_rw)

subsection \<open>Route error\<close>

definition RerrHeader_wf :: "RerrHeader \<Rightarrow> bool" where
  "RerrHeader_wf h \<longleftrightarrow> map_ok (m_unreachableDstSeqNo h) \<and> length (m_unreachableDstSeqNo h) < 256"

lemma length_write_destinations:
  "buffer_laws B \<Longrightarrow> length (write_destinations B m) = 8 * length m"
  by (induction m) (auto simp: buffer_rw)

lemma map_insert_append:
  "map_ok (m @ [(k, v)]) \<Longrightarrow> map_insert k v m = m @ [(k, v)]"
  by (induction m) (auto simp: map_ok_Cons)

lemma map_ok_append1: "map_ok (m @ ps) \<Longrightarrow> map_ok m"
  by (simp add: map_ok_def sorted_wrt_append)

lemma read_write_destinations:
  "buffer_laws B \<Longrightarrow> map_ok (m @ js) \<Longrightarrow>
   read_destinations B (length js) m (write_destinations B js @ r) = Some (m @ js, r)"
proof (induction js arbitrary: m)
  case (Cons j js)
  from Cons.prems(2) have ok: "map_ok ((m @ [(fst j, snd j)]) @ js)" by simp
  then have "map_insert (fst j) (snd j) m = m @ [(fst j, snd j)]"
    by (intro map_insert_append) (rule map_ok_append1)
  with Cons.IH [OF Cons.prems(1) ok] Cons.prems(1) show ?case by (simp add: buffer_rw)
qed simp

lemma RerrHeader_size:
  assumes "length (m_unreachableDstSeqNo h) < 256"
  shows "unat (RerrHeader_GetSerializedSize h) = 3 + 8 * length (m_unreachableDstSeqNo h)"
proof -
  let ?n = "length (m_unreachableDstSeqNo h)"
  have "RerrHeader_GetSerializedSize h = of_nat (3 + 8 * ?n)"
    using assms
    by (simp add: RerrHeader_GetSerializedSize_def RerrHeader_GetDestCount_def word_unat_eq_iff
        unat_ucast_up unat_small unat_word_ariths)
  then show ?thesis using assms by (simp add: unat_small del: of_nat_add of_nat_mult)
qed

lemma RerrHeader_ser_length:
  "buffer_laws B \<Longrightarrow> length (RerrHeader_Serialize B h) = 3 + 8 * length (m_unreachableDstSeqNo h)"
  by (simp add: RerrHeader_Serialize_def buffer_rw length_write_destinations)

lemma RerrHeader_de_ser:
  assumes "buffer_laws B" "RerrHeader_wf h"
  shows "RerrHeader_Deserialize B (RerrHeader_Serialize B h @ r) = Some (h, RerrHeader_GetSerializedSize h)"
proof -
  let ?m = "m_unreachableDstSeqNo h"
  have len: "length ?m < 256" and ok: "map_ok ([] @ ?m)"
    using assms(2) by (simp_all add: RerrHeader_wf_def)
  have cnt: "unat (RerrHeader_GetDestCount h) = length ?m"
    using len by (simp add: RerrHeader_GetDestCount_def unat_of_nat)
  have rd: "read_destinations B (length ?m) [] (write_destinations B ?m @ r) = Some (?m, r)"
    using read_write_destinations [OF assms(1) ok] by simp
  have dist: "distance_from (RerrHeader_Serialize B h @ r) r = RerrHeader_GetSerializedSize h"
    using len
    by (simp add: distance_from_def RerrHeader_ser_length [OF assms(1)] word_unat_eq_iff
        RerrHeader_size unat_small del: of_nat_add of_nat_mult)
  have hd: "\<lparr>rerr_flag = rerr_flag h, rerr_reserved = rerr_reserved h, m_unreachableDstSeqNo = ?m\<rparr> = h"
    by simp
  show ?thesis
    using assms(1) cnt rd dist
    by (simp add: RerrHeader_Deserialize_def RerrHeader_Serialize_def buffer_rw hd Let_def)
qed

subsection \<open>Hello\<close>

definition restamp :: "time \<Rightarrow> HelloHeader \<Rightarrow> HelloHeader" where
  "restamp stamp h =
     h\<lparr>m_MulticastBnNeighbors := map (twoHopBnNeighborTimeout_update (\<lambda>_. stamp)) (m_MulticastBnNeighbors h)\<rparr>"

definition HelloHeader_wf :: "HelloHeader \<Rightarrow> bool" where
  "HelloHeader_wf h \<longleftrightarrow>
     unat (m_listSize h) = length (m_MulticastBnNeighbors h) \<and>
     m_messageLength h = of_nat (23 + 24 * length (m_MulticastBnNeighbors h)) \<and>
     m_helloWeightSize h = 4"

lemma length_write_bn: "buffer_laws B \<Longrightarrow> length (write_bn_neighbors B ts) = 12 * length ts"
  by (induction ts) (auto simp: buffer_rw)

lemma unat_codes:
  "unat (of_nat (NodeStatus_code s) :: u8) = NodeStatus_code s"
  "unat (of_nat (indicator_code i) :: u8) = indicator_code i"
  "unat (of_nat (indicator_code i) :: u32) = indicator_code i"
  "unat (of_nat (WeightFunction_code w) :: u16) = WeightFunction_code w"
  using NodeStatus_code_bound [of s] indicator_code_bound [of i] WeightFunction_code_bound [of w]
  by (simp_all add: unat_small)

lemma read_write_bn:
  "buffer_laws B \<Longrightarrow>
   read_bn_neighbors B stamp (length ts) (write_bn_neighbors B ts @ r)
   = Some (map (twoHopBnNeighborTimeout_update (\<lambda>_. stamp)) ts, r)"
  by (induction ts) (simp_all add: buffer_rw unat_codes MulticastBnNeighborTuple_new_def)

lemma HelloHeader_new_fields:
  "m_listSize (HelloHeader_new sn st ind orig bn wfun wt tset)
     = of_nat (if st = RN_NODE then 0 else length tset)"
  "m_MulticastBnNeighbors (HelloHeader_new sn st ind orig bn wfun wt tset)
     = (if (of_nat (if st = RN_NODE then 0 else length tset) :: u8) = 0 then [] else tset)"
  by (simp_all add: HelloHeader_new_def Let_def)

lemma HelloHeader_new_wf:
  assumes "st = RN_NODE \<or> length tset < 256"
  shows "HelloHeader_wf (HelloHeader_new sn st ind orig bn wfun wt tset)"
proof -
  have "(of_nat (length tset) :: u8) = 0 \<longleftrightarrow> tset = []" if "length tset < 256"
    using unat_small [of "length tset", where 'a = 8] that by (auto simp: word_unat_eq_iff)
  then show ?thesis
    using assms by (auto simp: HelloHeader_new_def HelloHeader_wf_def Let_def hello_sizes unat_small)
qed

lemma hello_length_fields:
  assumes "n < 256"
  shows "(ucast (of_nat (23 + 24 * n) :: u16) - 23 :: u32) = of_nat (24 * n)"
    and "(of_nat (24 * n) :: u32) mod 24 = 0"
    and "(of_nat (24 * n) :: u32) div 24 = of_nat n"
proof -
  have "(ucast (of_nat (23 + 24 * n) :: u16) :: u32) = of_nat (23 + 24 * n)"
    using assms by (simp add: word_unat_eq_iff unat_ucast_up unat_small del: of_nat_add of_nat_mult)
  then show "(ucast (of_nat (23 + 24 * n) :: u16) - 23 :: u32) = of_nat (24 * n)" by simp
  show "(of_nat (24 * n) :: u32) mod 24 = 0" "(of_nat (24 * n) :: u32) div 24 = of_nat n"
    using assms by (simp_all add: word_unat_eq_iff unat_mod unat_div unat_small del: of_nat_mult)
qed


lemma unat_u8: "unat (x :: u8) < 256"
  using unsigned_less [where 'a = nat and w = x] by simp

lemma HelloHeader_size:
  "unat (HelloHeader_GetSerializedSize h) = 23 + 24 * unat (m_listSize h)"
proof -
  have "unat (m_listSize h) < 256" by (rule unat_u8)
  then show ?thesis
    by (simp add: HelloHeader_GetSerializedSize_def hello_sizes unat_word_ariths unat_ucast_up)
qed

lemma HelloHeader_ser_length:
  assumes "buffer_laws B" "HelloHeader_wf h"
  shows "length (HelloHeader_Serialize B h) = 23 + 12 * unat (m_listSize h)"
proof -
  have "m_listSize h > 0 \<longleftrightarrow> m_MulticastBnNeighbors h \<noteq> []"
    using assms(2) by (auto simp: HelloHeader_wf_def word_gt_0 word_unat_eq_iff)
  then show ?thesis
    using assms by (auto simp: HelloHeader_Serialize_def HelloHeader_wf_def buffer_rw length_write_bn)
qed

lemma HelloHeader_de_ser:
  assumes B: "buffer_laws B" and wf: "HelloHeader_wf h"
  shows "HelloHeader_Deserialize B stamp (HelloHeader_Serialize B h @ r)
    = Some (restamp stamp h, HelloHeader_GetSerializedSize h)"
proof -
  let ?ts = "m_MulticastBnNeighbors h"
  have n: "unat (m_listSize h) = length ?ts" and small: "length ?ts < 256"
    using wf unat_u8 [of "m_listSize h"] by (simp_all add: HelloHeader_wf_def)
  have ls: "m_listSize h = of_nat (length ?ts)"
    using n by (metis of_nat_unat ucast_id)
  have body: "(if m_listSize h > 0 then write_bn_neighbors B ?ts else []) = write_bn_neighbors B ?ts"
    using n by (cases ?ts) (auto simp: word_gt_0 word_unat_eq_iff)
  have up: "(ucast (of_nat (length ?ts) :: u8) :: u32) = of_nat (length ?ts)"
    using small by (simp add: word_unat_eq_iff unat_ucast_up unat_small)
  note fields = hello_length_fields [OF small]
  show ?thesis
    unfolding HelloHeader_Deserialize_def HelloHeader_Serialize_def body
    using B wf small fields n ls up
    by (simp add: buffer_rw unat_codes read_write_bn restamp_def hello_sizes Let_def
        HelloHeader_GetSerializedSize_def HelloHeader_wf_def unat_small mult.commute)
qed


section \<open>The contract holds for every header\<close>

interpretation type_codec: header_codec TypeHeader_Serialize TypeHeader_Deserialize
  TypeHeader_GetSerializedSize "\<lambda>old h. h\<lparr>m_valid := True\<rparr>" "\<lambda>h. True"
  by unfold_locales
    (simp_all add: TypeHeader_de_ser fixed_ser_length)

interpretation hello_codec: header_codec HelloHeader_Serialize HelloHeader_Deserialize
  HelloHeader_GetSerializedSize restamp HelloHeader_wf
  by unfold_locales (simp_all add: HelloHeader_de_ser HelloHeader_ser_length HelloHeader_size)

interpretation rreq_codec: header_codec RreqHeader_Serialize "\<lambda>B (x::unit). RreqHeader_Deserialize B"
  RreqHeader_GetSerializedSize "\<lambda>x h. h" "\<lambda>h. True"
  by unfold_locales
    (simp_all add: RreqHeader_de_ser fixed_ser_length)

interpretation rrep_codec: header_codec RrepHeader_Serialize "\<lambda>B (x::unit). RrepHeader_Deserialize B"
  RrepHeader_GetSerializedSize "\<lambda>x h. h" "\<lambda>h. True"
  by unfold_locales
    (simp_all add: RrepHeader_de_ser fixed_ser_length)

interpretation ack_codec: header_codec RrepAckHeader_Serialize
  "\<lambda>B (x::unit). RrepAckHeader_Deserialize B" RrepAckHeader_GetSerializedSize "\<lambda>x h. h" "\<lambda>h. True"
  by unfold_locales
    (simp_all add: RrepAckHeader_de_ser fixed_ser_length)

interpretation rerr_codec: header_codec RerrHeader_Serialize "\<lambda>B (x::unit). RerrHeader_Deserialize B"
  RerrHeader_GetSerializedSize "\<lambda>x h. h" RerrHeader_wf
  by unfold_locales
    (simp_all add: RerrHeader_de_ser RerrHeader_ser_length RerrHeader_size RerrHeader_wf_def)

interpretation hello_packet: typed_packet TypeHeader_Serialize TypeHeader_Deserialize
  TypeHeader_GetSerializedSize "\<lambda>old h. h\<lparr>m_valid := True\<rparr>" "\<lambda>h. True"
  HelloHeader_Serialize HelloHeader_Deserialize HelloHeader_GetSerializedSize restamp HelloHeader_wf
  by unfold_locales

interpretation rreq_packet: typed_packet TypeHeader_Serialize TypeHeader_Deserialize
  TypeHeader_GetSerializedSize "\<lambda>old h. h\<lparr>m_valid := True\<rparr>" "\<lambda>h. True"
  RreqHeader_Serialize "\<lambda>B (x::unit). RreqHeader_Deserialize B" RreqHeader_GetSerializedSize
  "\<lambda>x h. h" "\<lambda>h. True"
  by unfold_locales

interpretation rrep_packet: typed_packet TypeHeader_Serialize TypeHeader_Deserialize
  TypeHeader_GetSerializedSize "\<lambda>old h. h\<lparr>m_valid := True\<rparr>" "\<lambda>h. True"
  RrepHeader_Serialize "\<lambda>B (x::unit). RrepHeader_Deserialize B" RrepHeader_GetSerializedSize
  "\<lambda>x h. h" "\<lambda>h. True"
  by unfold_locales

interpretation rerr_packet: typed_packet TypeHeader_Serialize TypeHeader_Deserialize
  TypeHeader_GetSerializedSize "\<lambda>old h. h\<lparr>m_valid := True\<rparr>" "\<lambda>h. True"
  RerrHeader_Serialize "\<lambda>B (x::unit). RerrHeader_Deserialize B" RerrHeader_GetSerializedSize
  "\<lambda>x h. h" RerrHeader_wf
  by unfold_locales

section \<open>Flags and destinations\<close>

lemma get_flag_bit: "get_flag n m \<longleftrightarrow> bit m n"
  by (simp add: get_flag_def bit_iff_and_push_bit_not_eq_0)

lemma get_put_flag: "n < 8 \<Longrightarrow> k < 8 \<Longrightarrow> get_flag k (put_flag n f m) \<longleftrightarrow> (if k = n then f else get_flag k m)"
  by (auto simp: get_flag_bit put_flag_def bit_simps)

lemma RerrHeader_wf_new: "RerrHeader_wf RerrHeader_new"
  by (simp add: RerrHeader_wf_def RerrHeader_new_def)

lemma RerrHeader_wf_Add:
  assumes "RerrHeader_wf h" "RerrHeader_AddUnDestination dst sn h = Some (b, h')"
  shows "RerrHeader_wf h'"
proof -
  have "unat (RerrHeader_GetDestCount h) = length (m_unreachableDstSeqNo h)"
    using assms(1) by (simp add: RerrHeader_wf_def RerrHeader_GetDestCount_def unat_small)
  then have "RerrHeader_GetDestCount h < 255 \<Longrightarrow> length (m_unreachableDstSeqNo h) < 255"
    by (simp add: word_less_nat_alt)
  then show ?thesis
    using assms
    by (auto simp: RerrHeader_AddUnDestination_def RerrHeader_wf_def map_ok_insert length_map_insert
        split: if_splits)
qed

lemma RerrHeader_wf_Remove:
  "RerrHeader_wf h \<Longrightarrow> RerrHeader_RemoveUnDestination h = Some (un, h') \<Longrightarrow> RerrHeader_wf h'"
  by (cases un) (auto simp: RerrHeader_wf_def map_ok_Cons split: list.splits)


section \<open>Properties\<close>

text \<open>C34: A hello built by the constructor from at most 255 backbone neighbours (or any number on a
  regular node) survives the trip through a packet: \<open>Deserialize\<close> applied to the reserved bytes
  (whatever their unwritten part holds) gives back the same header with the tuples stamped by
  the reader, and returns the reserved size, so that what follows the header is left exactly.\<close>

theorem hello_packet_roundtrip:
  assumes "buffer_laws B" and "st = RN_NODE \<or> length tset < 256"
    and "h = HelloHeader_new sn st ind orig bn wfun wt tset"
    and "length pad = unat (HelloHeader_GetSerializedSize h) - length (HelloHeader_Serialize B h)"
  shows "HelloHeader_Deserialize B stamp (HelloHeader_Serialize B h @ pad @ rest)
      = Some (restamp stamp h, HelloHeader_GetSerializedSize h)
    \<and> drop (unat (HelloHeader_GetSerializedSize h)) (HelloHeader_Serialize B h @ pad @ rest) = rest"
  using assms HelloHeader_new_wf [of st tset] by (intro hello_codec.remove_added) simp_all

theorem hello_packet_roundtrip_witness:
  "\<exists>h. m_MulticastBnNeighbors h \<noteq> [] \<and>
    HelloHeader_Deserialize net_buffer 9 (HelloHeader_Serialize net_buffer h @ replicate 12 0 @ [7])
    = Some (restamp 9 h, HelloHeader_GetSerializedSize h)"
proof -
  define ts where "ts = [MulticastBnNeighborTuple_new 1 4 CONVERT_ALLOW 3]"
  define h where "h = HelloHeader_new 101 CORE CONVERT_OTHER 4 2 W_NODE_DEGREE 5 ts"
  have wf: "HelloHeader_wf h" and n: "m_listSize h = 1" and ts: "m_MulticastBnNeighbors h = ts"
    unfolding h_def by (rule HelloHeader_new_wf, simp_all add: ts_def HelloHeader_new_fields)
  have "length (replicate 12 (0::u8))
      = unat (HelloHeader_GetSerializedSize h) - length (HelloHeader_Serialize net_buffer h)"
    using wf n by (simp add: HelloHeader_size HelloHeader_ser_length net_buffer_laws)
  then show ?thesis
    using hello_packet_roundtrip [OF net_buffer_laws _ h_def, of "replicate 12 0" 9 "[7]"] ts
    by (intro exI [of _ h]) (simp add: ts_def)
qed

text \<open>The wire size of a hello: \<open>Serialize\<close> writes 23 bytes and 12 for each neighbour, but the header
  announces and reserves 23 and 24 for each, so every neighbour costs 12 unused bytes on air.\<close>

theorem hello_reserves_double:
  assumes "buffer_laws B" and "length tset < 256" and "st \<noteq> RN_NODE"
    and "h = HelloHeader_new sn st ind orig bn wfun wt tset"
  shows "length (HelloHeader_Serialize B h) = 23 + 12 * length tset
    \<and> unat (HelloHeader_GetSerializedSize h) = 23 + 24 * length tset
    \<and> unat (m_messageLength h) = 23 + 24 * length tset"
proof -
  have wf: "HelloHeader_wf h"
    using assms(2,4) by (simp add: HelloHeader_new_wf)
  have n: "unat (m_listSize h) = length tset"
    using assms by (simp add: HelloHeader_new_fields unat_small)
  then have "length (m_MulticastBnNeighbors h) = length tset"
    using wf by (simp add: HelloHeader_wf_def)
  then have "unat (m_messageLength h) = 23 + 24 * length tset"
    using wf assms(2) by (simp add: HelloHeader_wf_def unat_small del: of_nat_add of_nat_mult)
  then show ?thesis
    using wf n assms(1) by (simp add: HelloHeader_ser_length HelloHeader_size)
qed

theorem hello_reserves_double_witness:
  "\<exists>h. length (HelloHeader_Serialize net_buffer h) = 35 \<and> unat (HelloHeader_GetSerializedSize h) = 47"
  using hello_reserves_double [OF net_buffer_laws, of "[MulticastBnNeighborTuple_new 1 4 CONVERT_ALLOW 3]" CORE]
  by (intro exI [of _ "HelloHeader_new 0 CORE CONVERT_OTHER 4 2 W_NODE_DEGREE 5
    [MulticastBnNeighborTuple_new 1 4 CONVERT_ALLOW 3]"]) simp

text \<open>The list size is one byte: with 256 or more backbone neighbours the announced count is the
  number of neighbours modulo 256 (none at all for a multiple of 256), while the list that
  \<open>Serialize\<close> walks keeps every neighbour; between 257 and 511 it writes beyond the reserved bytes.\<close>

theorem hello_list_size_wraps:
  assumes "buffer_laws B" and "256 < length tset" and "length tset < 512" and "st \<noteq> RN_NODE"
    and "h = HelloHeader_new sn st ind orig bn wfun wt tset"
  shows "unat (m_listSize h) = length tset - 256 \<and> m_MulticastBnNeighbors h = tset
    \<and> unat (HelloHeader_GetSerializedSize h) < length (HelloHeader_Serialize B h)"
proof -
  have "unat (of_nat (length tset) :: u8) = length tset mod 256"
    by (simp add: unat_of_nat)
  also have "\<dots> = length tset - 256"
    using assms(2,3) by (simp add: mod_if)
  finally have n: "unat (of_nat (length tset) :: u8) = length tset - 256" .
  then have nz: "(of_nat (length tset) :: u8) \<noteq> 0"
    using assms(2) by (auto simp: word_unat_eq_iff)
  have ls: "unat (m_listSize h) = length tset - 256" and ts: "m_MulticastBnNeighbors h = tset"
    using assms(4,5) n nz by (simp_all add: HelloHeader_new_fields)
  have "0 < m_listSize h" using ls assms(2) by (simp add: word_less_nat_alt)
  then have "length (HelloHeader_Serialize B h) = 23 + 12 * length tset"
    using assms(1) ts by (simp add: HelloHeader_Serialize_def buffer_rw length_write_bn)
  with ls ts assms(2,3) show ?thesis
    by (simp add: HelloHeader_size)
qed

theorem hello_list_size_wraps_witness:
  "\<exists>h. unat (HelloHeader_GetSerializedSize h) < length (HelloHeader_Serialize net_buffer h)"
proof -
  define ts where "ts = replicate 300 (MulticastBnNeighborTuple_new 1 4 CONVERT_ALLOW 3)"
  have n: "length ts = 300" by (simp only: ts_def length_replicate)
  show ?thesis
    using hello_list_size_wraps [OF net_buffer_laws _ _ _ refl, of ts CORE 0 CONVERT_OTHER 4 2 W_NODE_DEGREE 5] n
    by (intro exI [of _ "HelloHeader_new 0 CORE CONVERT_OTHER 4 2 W_NODE_DEGREE 5 ts"]) simp
qed

text \<open>C35: A control packet (message type, then the message) is taken apart into exactly the two headers that
  were added, for RREQ, RREP and RERR: the type tells the message kind, and the message is
  recovered field by field.\<close>

theorem control_packet_roundtrip:
  assumes B: "buffer_laws B" and "RerrHeader_wf e"
  shows "TypeHeader_Deserialize B old (TypeHeader_Serialize B (TypeHeader_new t) @ m)
      = Some (TypeHeader_new t, 1)
    \<and> RreqHeader_Deserialize B (drop 1 (TypeHeader_Serialize B (TypeHeader_new t) @ RreqHeader_Serialize B q))
      = Some (q, 23)
    \<and> RrepHeader_Deserialize B (drop 1 (TypeHeader_Serialize B (TypeHeader_new t) @ RrepHeader_Serialize B p))
      = Some (p, 19)
    \<and> RerrHeader_Deserialize B (drop 1 (TypeHeader_Serialize B (TypeHeader_new t) @ RerrHeader_Serialize B e))
      = Some (e, 3 + 8 * of_nat (length (m_unreachableDstSeqNo e)))"
proof -
  note len = fixed_ser_length [OF B]
  have size: "RerrHeader_GetSerializedSize e = 3 + 8 * of_nat (length (m_unreachableDstSeqNo e))"
    using assms(2)
    by (simp add: RerrHeader_GetSerializedSize_def RerrHeader_GetDestCount_def RerrHeader_wf_def
        word_unat_eq_iff unat_ucast_up unat_small unat_word_ariths)
  show ?thesis
    using type_codec.de_ser [OF B TrueI, of old "TypeHeader_new t" m]
      rreq_packet.remove_both(2) [OF B TrueI TrueI, of "[]" "TypeHeader_new t" "[]" q]
      rrep_packet.remove_both(2) [OF B TrueI TrueI, of "[]" "TypeHeader_new t" "[]" p]
      rerr_packet.remove_both(2) [OF B TrueI assms(2), of "[]" "TypeHeader_new t" "[]"] assms(2)
    by (simp add: len TypeHeader_new_def TypeHeader_GetSerializedSize_def
        RreqHeader_GetSerializedSize_def RrepHeader_GetSerializedSize_def size [symmetric]
        RerrHeader_ser_length [OF B] RerrHeader_size RerrHeader_wf_def)
qed

theorem control_packet_roundtrip_witness:
  "\<exists>e. length (m_unreachableDstSeqNo e) = 2 \<and>
     RerrHeader_Deserialize net_buffer
       (drop 1 (TypeHeader_Serialize net_buffer (TypeHeader_new AODVTYPE_RERR) @ RerrHeader_Serialize net_buffer e))
     = Some (e, 19)"
  using control_packet_roundtrip [OF net_buffer_laws,
      of "\<lparr>rerr_flag = 1, rerr_reserved = 0, m_unreachableDstSeqNo = [(5, 1), (9, 4)]\<rparr>"
        undefined AODVTYPE_RERR "[]" undefined undefined]
  by (intro exI [of _ "\<lparr>rerr_flag = 1, rerr_reserved = 0, m_unreachableDstSeqNo = [(5, 1), (9, 4)]\<rparr>"])
    (simp add: RerrHeader_wf_def map_ok_Cons)

text \<open>The RERR headers a run can build: a new header, filled and emptied.\<close>

inductive rerr_built :: "RerrHeader \<Rightarrow> bool" where
  "rerr_built RerrHeader_new"
| "rerr_built h \<Longrightarrow> RerrHeader_AddUnDestination dst sn h = Some (b, h') \<Longrightarrow> rerr_built h'"
| "rerr_built h \<Longrightarrow> RerrHeader_RemoveUnDestination h = Some (un, h') \<Longrightarrow> rerr_built h'"
| "rerr_built h \<Longrightarrow> rerr_built (RerrHeader_Clear h)"
| "rerr_built h \<Longrightarrow> rerr_built (RerrHeader_SetNoDelete f h)"

lemma rerr_built_wf: "rerr_built h \<Longrightarrow> RerrHeader_wf h"
proof (induction rule: rerr_built.induct)
  case 1
  show ?case by (rule RerrHeader_wf_new)
next
  case (2 h dst sn b h')
  then show ?case by (blast intro: RerrHeader_wf_Add)
next
  case (3 h un h')
  then show ?case by (blast intro: RerrHeader_wf_Remove)
qed (simp_all add: RerrHeader_wf_def RerrHeader_Clear_def RerrHeader_SetNoDelete_def)

text \<open>C36: Whatever sequence of \<open>AddUnDestination\<close>, \<open>RemoveUnDestination\<close>, \<open>Clear\<close> and \<open>SetNoDelete\<close> built
  it, a RERR has at most 255 destinations in ascending order, its announced size is the size it
  writes, and reading it back gives the same header.\<close>

theorem rerr_any_history_roundtrip:
  assumes "buffer_laws B" and "rerr_built h"
  shows "length (m_unreachableDstSeqNo h) \<le> 255 \<and> map_ok (m_unreachableDstSeqNo h)
    \<and> length (RerrHeader_Serialize B h) = unat (RerrHeader_GetSerializedSize h)
    \<and> RerrHeader_Deserialize B (RerrHeader_Serialize B h @ r) = Some (h, RerrHeader_GetSerializedSize h)"
  using assms rerr_built_wf [OF assms(2)]
  by (auto simp: RerrHeader_de_ser RerrHeader_ser_length RerrHeader_size RerrHeader_wf_def)

theorem rerr_any_history_roundtrip_witness:
  "\<exists>h. map_of (m_unreachableDstSeqNo h) 7 = Some 12 \<and>
     RerrHeader_Deserialize net_buffer (RerrHeader_Serialize net_buffer h @ [1])
     = Some (h, RerrHeader_GetSerializedSize h)"
proof -
  define h where "h = RerrHeader_new\<lparr>m_unreachableDstSeqNo := [(7, 12)]\<rparr>"
  have "rerr_built h"
    by (rule rerr_built.intros(2) [OF rerr_built.intros(1), of 7 12 True])
      (simp add: h_def RerrHeader_AddUnDestination_def RerrHeader_new_def RerrHeader_GetDestCount_def)
  then show ?thesis
    using rerr_any_history_roundtrip [OF net_buffer_laws, of h "[1]"]
    by (intro exI [of _ h]) (simp add: h_def)
qed

text \<open>\<open>AddUnDestination\<close> answers true whenever it returns and leaves the destination in the header
  with the sequence number it had first; the 256th destination is stopped by the assertion, not
  by a false answer, so its callers' tests for a full header are never taken.\<close>

theorem rerr_add_answers_true:
  assumes "RerrHeader_wf h"
  shows "(RerrHeader_AddUnDestination dst sn h = None \<longleftrightarrow>
       dst \<notin> fst ` set (m_unreachableDstSeqNo h) \<and> length (m_unreachableDstSeqNo h) = 255)
    \<and> (\<forall>b h'. RerrHeader_AddUnDestination dst sn h = Some (b, h') \<longrightarrow>
        b \<and> map_of (m_unreachableDstSeqNo h') dst
             = Some (case map_of (m_unreachableDstSeqNo h) dst of None \<Rightarrow> sn | Some s \<Rightarrow> s)
        \<and> (\<forall>d. d \<noteq> dst \<longrightarrow> map_of (m_unreachableDstSeqNo h') d = map_of (m_unreachableDstSeqNo h) d))"
proof -
  have ok: "map_ok (m_unreachableDstSeqNo h)" using assms by (simp add: RerrHeader_wf_def)
  have "unat (RerrHeader_GetDestCount h) = length (m_unreachableDstSeqNo h)"
    using assms by (simp add: RerrHeader_wf_def RerrHeader_GetDestCount_def unat_small)
  then have "RerrHeader_GetDestCount h < 255 \<longleftrightarrow> length (m_unreachableDstSeqNo h) \<noteq> 255"
    using assms by (auto simp: word_less_nat_alt RerrHeader_wf_def)
  then show ?thesis
    using omap.find_ins_same [OF ok, of dst sn] omap.find_ins_other [OF ok]
    by (auto simp: RerrHeader_AddUnDestination_def map_of_eq_None_iff split: if_splits option.splits)
qed

theorem rerr_add_answers_true_witness:
  "\<exists>h'. RerrHeader_AddUnDestination 7 12 RerrHeader_new = Some (True, h')
      \<and> map_of (m_unreachableDstSeqNo h') 7 = Some 12"
  using rerr_add_answers_true [OF RerrHeader_wf_new, of 7 12]
  by (auto simp: RerrHeader_new_def RerrHeader_AddUnDestination_def RerrHeader_GetDestCount_def)

text \<open>The header accessors: each RREQ flag reads as it was last set whatever is done to the other
  flags, and an RREP gives back the lifetime it was given rounded to milliseconds, modulo the 32
  bits of the field.\<close>

theorem header_accessors:
  assumes "time_unit_laws U"
  shows "RreqHeader_GetGratiousRrep (RreqHeader_SetGratiousRrep f h) = f
    \<and> RreqHeader_GetGratiousRrep (RreqHeader_SetDestinationOnly f h) = RreqHeader_GetGratiousRrep h
    \<and> RreqHeader_GetGratiousRrep (RreqHeader_SetUnknownSeqno f h) = RreqHeader_GetGratiousRrep h
    \<and> RreqHeader_GetDestinationOnly (RreqHeader_SetDestinationOnly f h) = f
    \<and> RreqHeader_GetDestinationOnly (RreqHeader_SetGratiousRrep f h) = RreqHeader_GetDestinationOnly h
    \<and> RreqHeader_GetDestinationOnly (RreqHeader_SetUnknownSeqno f h) = RreqHeader_GetDestinationOnly h
    \<and> RreqHeader_GetUnknownSeqno (RreqHeader_SetUnknownSeqno f h) = f
    \<and> RreqHeader_GetUnknownSeqno (RreqHeader_SetGratiousRrep f h) = RreqHeader_GetUnknownSeqno h
    \<and> RreqHeader_GetUnknownSeqno (RreqHeader_SetDestinationOnly f h) = RreqHeader_GetUnknownSeqno h
    \<and> RrepHeader_GetAckRequired (RrepHeader_SetAckRequired f p) = f
    \<and> GetMilliSeconds U (RrepHeader_GetLifeTime U (RrepHeader_SetLifeTime U t p))
      = GetMilliSeconds U t mod 2 ^ 32"
  using assms
  by (simp add: RreqHeader_GetGratiousRrep_def RreqHeader_SetGratiousRrep_def
      RreqHeader_GetDestinationOnly_def RreqHeader_SetDestinationOnly_def RreqHeader_GetUnknownSeqno_def
      RreqHeader_SetUnknownSeqno_def RrepHeader_GetAckRequired_def RrepHeader_SetAckRequired_def
      RrepHeader_GetLifeTime_def RrepHeader_SetLifeTime_def time_unit_laws_def get_put_flag
      uint_word_of_int)

theorem header_accessors_witness:
  "GetMilliSeconds nanoseconds (RrepHeader_GetLifeTime nanoseconds
     (RrepHeader_SetLifeTime nanoseconds 5000999999 (RrepHeader_new nanoseconds 0 1 2 3 4 0))) = 5000"
  using header_accessors [OF nanoseconds_laws, of True undefined
      "RrepHeader_new nanoseconds 0 1 2 3 4 0" 5000999999]
  by (simp add: nanoseconds_def)

end
