(* ===== verification/Network.thy ===== *)
theory Network
  imports Common
begin

text \<open>
  What the protocol sees of the ns-3 network stack: packets, the IPv4 header, routes and
  interface addresses, and the addresses and times the code names. These are data the library
  hands over; the code only reads the fields below. Callbacks, devices and sockets are opaque
  numbers, 0 being the null pointer or the null callback.
\<close>

type_synonym callback = nat
type_synonym device = nat
type_synonym socket = nat

text \<open>A packet, with its \<open>DeferredRouteOutputTag\<close> (the interface index \<open>oif\<close>) when it carries one.\<close>

record packet =
  GetUid :: "64 word"
  deferred_tag :: "32 word option"

record Ipv4Header =
  GetSource :: ipv4addr
  GetDestination :: ipv4addr
  GetTtl :: u8

record Ipv4InterfaceAddress =
  GetLocal :: ipv4addr
  GetMask :: u32
  GetBroadcast :: ipv4addr

record Ipv4Route =
  route_destination :: ipv4addr
  route_gateway :: ipv4addr
  route_source :: ipv4addr
  route_device :: device

text \<open>
  Values of the library the code names and the model leaves open: the address of
  \<open>Ipv4Address ()\<close>, the default interface address, \<open>Simulator::GetMaximumSimulationTime ()\<close>,
  seconds, milliseconds and microseconds in the simulator's unit, the product of a time by a
  number of hundredths (\<open>0.01 * t\<close>, rounded as the simulator does), \<open>Time::ToInteger (Time::S)\<close>, the
  test \<open>IsMulticast\<close> and the constructor of an interface address from an address and a mask.
\<close>

record library =
  Ipv4Address_default :: ipv4addr
  Ipv4InterfaceAddress_default :: Ipv4InterfaceAddress
  MaximumSimulationTime :: time
  Seconds :: "int \<Rightarrow> time"
  Milli :: "int \<Rightarrow> time"
  Micro :: "int \<Rightarrow> time"
  Hundredths :: "int \<Rightarrow> time \<Rightarrow> time"
  InSeconds :: "time \<Rightarrow> int"
  IsMulticast :: "ipv4addr \<Rightarrow> bool"
  Ipv4InterfaceAddress_of :: "ipv4addr \<Rightarrow> u32 \<Rightarrow> Ipv4InterfaceAddress"

definition Ipv4Address_any :: ipv4addr where "Ipv4Address_any = 0"
definition Ipv4Address_broadcast :: ipv4addr where "Ipv4Address_broadcast = 0xffffffff"
definition Ipv4Address_loopback :: ipv4addr where "Ipv4Address_loopback = 0x7f000001"

text \<open>An instance for concrete runs: nanoseconds, 102.102.102.102 for the default address.\<close>

definition ns3_library :: library where
  "ns3_library = \<lparr>Ipv4Address_default = 0x66666666,
     Ipv4InterfaceAddress_default = \<lparr>GetLocal = 0, GetMask = 0, GetBroadcast = 0xffffffff\<rparr>,
     MaximumSimulationTime = 2 ^ 63 - 1,
     Seconds = (\<lambda>n. n * 1000000000), Milli = (\<lambda>n. n * 1000000),
     Micro = (\<lambda>n. n * 1000), Hundredths = (\<lambda>k t. k * t div 100),
     InSeconds = (\<lambda>t. t div 1000000000),
     IsMulticast = (\<lambda>a. 0xe0000000 \<le> a \<and> a \<le> 0xefffffff),
     Ipv4InterfaceAddress_of = (\<lambda>a m. \<lparr>GetLocal = a, GetMask = m, GetBroadcast = a OR NOT m\<rparr>)\<rparr>"

end
