(* ===== verification/IdCache.thy ===== *)
theory IdCache
  imports Network
begin

text \<open>
  \<open>model/aodv-id-cache.{h,cc}\<close> and \<open>model/aodv-dpd.{h,cc}\<close>: the cache of (address, id) pairs seen
  within a lifetime, used for RREQ identifiers, hello numbers and duplicate data packets.
\<close>

record UniqueId =
  m_context :: ipv4addr
  m_id :: u32
  m_expire :: time

record IdCache =
  m_idCache :: "UniqueId list"
  m_lifetime :: time

definition IdCache_new :: "time \<Rightarrow> IdCache" where
  "IdCache_new lifetime = \<lparr>m_idCache = [], m_lifetime = lifetime\<rparr>"

definition UniqueId_IsExpired :: "time \<Rightarrow> UniqueId \<Rightarrow> bool" where
  "UniqueId_IsExpired now u \<longleftrightarrow> m_expire u < now"

definition IdCache_Purge :: "time \<Rightarrow> IdCache \<Rightarrow> IdCache" where
  "IdCache_Purge now c = c\<lparr>m_idCache := filter (\<lambda>u. \<not> UniqueId_IsExpired now u) (m_idCache c)\<rparr>"

definition IdCache_IsDuplicate :: "time \<Rightarrow> ipv4addr \<Rightarrow> u32 \<Rightarrow> IdCache \<Rightarrow> bool \<times> IdCache" where
  "IdCache_IsDuplicate now addr ident c =
     (let c = IdCache_Purge now c
      in if \<exists>i\<in>set (m_idCache c). m_context i = addr \<and> m_id i = ident then (True, c)
         else (False, c\<lparr>m_idCache := m_idCache c
                 @ [\<lparr>m_context = addr, m_id = ident, m_expire = m_lifetime c + now\<rparr>]\<rparr>))"

definition IdCache_GetSize :: "time \<Rightarrow> IdCache \<Rightarrow> u32 \<times> IdCache" where
  "IdCache_GetSize now c =
     (let c = IdCache_Purge now c in (of_nat (length (m_idCache c)), c))"

definition IdCache_SetLifetime :: "time \<Rightarrow> IdCache \<Rightarrow> IdCache" where
  "IdCache_SetLifetime lifetime c = c\<lparr>m_lifetime := lifetime\<rparr>"

definition IdCache_GetLifeTime :: "IdCache \<Rightarrow> time" where
  "IdCache_GetLifeTime c = m_lifetime c"

text \<open>\<open>DuplicatePacketDetection\<close>: source address and packet uid, the 64-bit uid cut to 32 bits.\<close>

type_synonym DuplicatePacketDetection = IdCache

definition Dpd_IsDuplicate ::
  "time \<Rightarrow> packet \<Rightarrow> Ipv4Header \<Rightarrow> DuplicatePacketDetection \<Rightarrow> bool \<times> DuplicatePacketDetection" where
  "Dpd_IsDuplicate now p header c = IdCache_IsDuplicate now (GetSource header) (ucast (GetUid p)) c"

definition Dpd_SetLifetime :: "time \<Rightarrow> DuplicatePacketDetection \<Rightarrow> DuplicatePacketDetection" where
  "Dpd_SetLifetime lifetime c = IdCache_SetLifetime lifetime c"

definition Dpd_GetLifetime :: "DuplicatePacketDetection \<Rightarrow> time" where
  "Dpd_GetLifetime c = IdCache_GetLifeTime c"

section \<open>Lemmas\<close>

interpretation id_exp: expiring UniqueId_IsExpired
  by unfold_locales (simp add: UniqueId_IsExpired_def)

text \<open>The abstract cache: when a pair expires, if it is known. Pairs are known once.\<close>

definition uid_key :: "UniqueId \<Rightarrow> ipv4addr \<times> u32" where
  "uid_key u = (m_context u, m_id u)"

definition IdCache_wf :: "IdCache \<Rightarrow> bool" where
  "IdCache_wf c \<longleftrightarrow> distinct (map uid_key (m_idCache c))"

definition known :: "IdCache \<Rightarrow> ipv4addr \<times> u32 \<Rightarrow> time option" where
  "known c = map_of (map (\<lambda>u. (uid_key u, m_expire u)) (m_idCache c))"

definition live_until :: "time \<Rightarrow> time option \<Rightarrow> time option" where
  "live_until now e = (case e of None \<Rightarrow> None | Some t \<Rightarrow> if t < now then None else Some t)"

lemma live_until_simps [simp]:
  "live_until now None = None" "live_until now (Some t) = (if t < now then None else Some t)"
  by (simp_all add: live_until_def)

lemma live_until_later: "t \<le> t' \<Longrightarrow> live_until t' (live_until t e) = live_until t' e"
  by (cases e) auto

lemma keys_of: "(\<exists>i\<in>set us. m_context i = a \<and> m_id i = d) \<longleftrightarrow> (a, d) \<in> uid_key ` set us"
  by (auto simp: uid_key_def image_iff)

lemma known_None: "known c k = None \<longleftrightarrow> k \<notin> uid_key ` set (m_idCache c)"
  by (auto simp: known_def map_of_eq_None_iff image_image)

lemma known_Purge:
  assumes "IdCache_wf c"
  shows "known (IdCache_Purge now c) k = live_until now (known c k)"
proof -
  have "map_of (map (\<lambda>u. (uid_key u, m_expire u)) (filter (\<lambda>u. \<not> UniqueId_IsExpired now u) us)) k
      = live_until now (map_of (map (\<lambda>u. (uid_key u, m_expire u)) us) k)"
    if "distinct (map uid_key us)" for us
    using that
  proof (induction us)
    case (Cons u us)
    have "map_of (map (\<lambda>u. (uid_key u, m_expire u)) us) (uid_key u) = None"
      using Cons.prems by (auto simp: map_of_eq_None_iff image_image)
    with Cons show ?case by (auto simp: UniqueId_IsExpired_def)
  qed simp
  then show ?thesis using assms by (simp add: known_def IdCache_Purge_def IdCache_wf_def)
qed

lemma IdCache_wf_Purge: "IdCache_wf c \<Longrightarrow> IdCache_wf (IdCache_Purge now c)"
  by (simp add: IdCache_wf_def IdCache_Purge_def distinct_map_filter)

lemma lifetime_Purge [frame_simps]: "m_lifetime (IdCache_Purge now c) = m_lifetime c"
  by (simp add: IdCache_Purge_def)

lemma known_append:
  "known (c\<lparr>m_idCache := m_idCache c @ [u]\<rparr>) k =
   (case known c k of None \<Rightarrow> if k = uid_key u then Some (m_expire u) else None | Some e \<Rightarrow> Some e)"
  by (auto simp: known_def map_add_def split: option.splits)

lemma IsDuplicate_abs:
  assumes "IdCache_wf c"
  shows "fst (IdCache_IsDuplicate now a d c) \<longleftrightarrow> live_until now (known c (a, d)) \<noteq> None" (is ?answer)
    and "known (snd (IdCache_IsDuplicate now a d c)) k =
      (if k = (a, d) \<and> live_until now (known c (a, d)) = None then Some (m_lifetime c + now)
       else live_until now (known c k))" (is ?state)
    and "IdCache_wf (snd (IdCache_IsDuplicate now a d c))" (is ?wf)
    and "m_lifetime (snd (IdCache_IsDuplicate now a d c)) = m_lifetime c" (is ?frame)
proof -
  let ?c = "IdCache_Purge now c"
  have hit: "(\<exists>i\<in>set (m_idCache ?c). m_context i = a \<and> m_id i = d)
      \<longleftrightarrow> live_until now (known c (a, d)) \<noteq> None"
    using known_None [of ?c "(a, d)"] by (simp add: keys_of known_Purge [OF assms])
  note wf = IdCache_wf_Purge [OF assms, of now]
  note def = IdCache_IsDuplicate_def Let_def
  show ?answer ?frame using hit by (simp_all add: def lifetime_Purge)
  have new: "known ?c (a, d) = None" if "live_until now (known c (a, d)) = None"
    using that by (simp add: known_Purge [OF assms])
  then have "(a, d) \<notin> uid_key ` set (m_idCache ?c)" if "live_until now (known c (a, d)) = None"
    using that known_None by blast
  then show ?wf
    using wf hit by (auto simp: def IdCache_wf_def uid_key_def)
  show ?state
  proof (cases "live_until now (known c (a, d)) = None")
    case True
    then have c': "snd (IdCache_IsDuplicate now a d c) = ?c\<lparr>m_idCache := m_idCache ?c
        @ [\<lparr>m_context = a, m_id = d, m_expire = m_lifetime c + now\<rparr>]\<rparr>"
      using hit by (auto simp: def lifetime_Purge)
    show ?thesis
      using True new known_Purge [OF assms, of now k] unfolding c'
      by (auto simp: known_append uid_key_def split: option.splits)
  next
    case False
    then show ?thesis using hit known_Purge [OF assms, of now k] by (simp add: def)
  qed
qed

section \<open>Properties\<close>

text \<open>A history of the cache: calls of \<open>IsDuplicate\<close> and other operations at rising times.\<close>

datatype cache_op = Ask ipv4addr u32 | Size | Lifetime time

fun cache_step :: "time \<times> cache_op \<Rightarrow> IdCache \<Rightarrow> IdCache" where
  "cache_step (t, Ask a d) c = snd (IdCache_IsDuplicate t a d c)"
| "cache_step (t, Size) c = snd (IdCache_GetSize t c)"
| "cache_step (t, Lifetime l) c = IdCache_SetLifetime l c"

definition cache_run :: "(time \<times> cache_op) list \<Rightarrow> IdCache \<Rightarrow> IdCache" where
  "cache_run ops c = fold cache_step ops c"

lemma cache_step_wf: "IdCache_wf c \<Longrightarrow> IdCache_wf (cache_step op c)"
  using IsDuplicate_abs(3) [of c] IdCache_wf_Purge [of c]
  by (cases "(op, c)" rule: cache_step.cases)
    (auto simp: IdCache_GetSize_def IdCache_SetLifetime_def IdCache_wf_def Let_def)

lemma cache_run_wf: "IdCache_wf c \<Longrightarrow> IdCache_wf (cache_run ops c)"
  unfolding cache_run_def by (induction ops arbitrary: c) (auto simp: cache_step_wf)

lemma known_step:
  assumes "IdCache_wf c" "t \<le> t'"
  shows "live_until t' (known (cache_step (t, op) c) k) =
    (if (\<exists>a d. op = Ask a d \<and> k = (a, d)) \<and> live_until t (known c k) = None
     then live_until t' (Some (m_lifetime c + t)) else live_until t' (known c k))"
  using assms
  by (cases op)
    (auto simp: IsDuplicate_abs live_until_later IdCache_GetSize_def Let_def known_Purge
      IdCache_SetLifetime_def known_def [of "_\<lparr>m_lifetime := _\<rparr>"] known_def [symmetric])

lemma known_run:
  assumes "IdCache_wf c" "\<forall>op\<in>set ops. fst op \<le> t" "live_until t (known c k) = Some e"
    and "sorted (map fst ops)"
  shows "live_until t (known (cache_run ops c) k) = Some e"
  using assms
proof (induction ops arbitrary: c)
  case (Cons op ops)
  obtain s x where op: "op = (s, x)" by (cases op)
  have "live_until t (known (cache_step op c) k) = Some e"
  proof -
    have "live_until s (known c k) \<noteq> None"
      using Cons.prems(2,3) op by (cases "known c k") (auto split: if_splits)
    then show ?thesis
      using known_step [of c s t x k] Cons.prems op by auto
  qed
  with Cons show ?case by (simp add: cache_run_def cache_step_wf)
qed (simp add: cache_run_def)

text \<open>The point of the cache. After \<open>IsDuplicate (addr, ident)\<close> answered that the pair is new at time
  \<open>t\<close>, and after any further operations at times from \<open>t\<close> on (other pairs, size queries, changes
  of the lifetime), asking for the pair again at a time up to \<open>t\<close> plus the lifetime in force at
  \<open>t\<close> answers duplicate; with no operation in between, it answers new from then on.\<close>

theorem duplicate_within_lifetime:
  assumes "IdCache_wf c" and "\<not> fst (IdCache_IsDuplicate t addr ident c)"
    and "sorted (map fst ops)" and "\<forall>op\<in>set ops. t \<le> fst op \<and> fst op \<le> t'" and "t \<le> t'"
  shows "(t' \<le> t + m_lifetime c \<longrightarrow>
      fst (IdCache_IsDuplicate t' addr ident (cache_run ops (snd (IdCache_IsDuplicate t addr ident c)))))
    \<and> (t + m_lifetime c < t' \<longrightarrow>
      \<not> fst (IdCache_IsDuplicate t' addr ident (snd (IdCache_IsDuplicate t addr ident c))))"
proof -
  let ?c = "snd (IdCache_IsDuplicate t addr ident c)"
  have known: "known ?c (addr, ident) = Some (m_lifetime c + t)" and wf: "IdCache_wf ?c"
    using assms(1,2) by (simp_all add: IsDuplicate_abs)
  have "live_until t' (known (cache_run ops ?c) (addr, ident)) = Some (m_lifetime c + t)"
    if "t' \<le> t + m_lifetime c"
    by (rule known_run) (use wf known assms that in auto)
  then show ?thesis
    using wf known by (simp add: IsDuplicate_abs cache_run_wf)
qed

theorem duplicate_within_lifetime_witness:
  "fst (IdCache_IsDuplicate 9 5 3 (cache_run [(2, Ask 6 3), (4, Lifetime 1), (8, Size)]
     (snd (IdCache_IsDuplicate 1 5 3 (IdCache_new 10)))))"
  using duplicate_within_lifetime [of "IdCache_new 10" 1 5 3 "[(2, Ask 6 3), (4, Lifetime 1), (8, Size)]" 9]
  by (simp add: IdCache_wf_def IdCache_new_def IdCache_IsDuplicate_def IdCache_Purge_def)

text \<open>C33: The cache refines a map from pairs to expiry times: \<open>IsDuplicate\<close> answers whether the pair's
  record is still live, drops every dead record, keeps every live one unchanged (a hit does not
  renew it), and adds the pair with a full lifetime exactly when it was not live; no pair is ever
  recorded twice.\<close>

theorem id_cache_refines_map:
  assumes "IdCache_wf c"
  shows "IdCache_wf (snd (IdCache_IsDuplicate now addr ident c))
    \<and> fst (IdCache_IsDuplicate now addr ident c) = (live_until now (known c (addr, ident)) \<noteq> None)
    \<and> known (snd (IdCache_IsDuplicate now addr ident c)) =
        (let live = (\<lambda>k. live_until now (known c k))
         in if live (addr, ident) = None then live((addr, ident) \<mapsto> m_lifetime c + now) else live)"
  using assms by (auto simp: IsDuplicate_abs fun_eq_iff Let_def)

theorem id_cache_refines_map_witness:
  "fst (IdCache_IsDuplicate 7 5 3 \<lparr>m_idCache = [\<lparr>m_context = 5, m_id = 3, m_expire = 7\<rparr>], m_lifetime = 4\<rparr>)"
  using id_cache_refines_map
    [of "\<lparr>m_idCache = [\<lparr>m_context = 5, m_id = 3, m_expire = 7\<rparr>], m_lifetime = 4\<rparr>" 7 5 3]
  by (simp add: IdCache_wf_def known_def uid_key_def)

definition IdCacheTest_cache :: IdCache where
  "IdCacheTest_cache = cache_run
     [(0, Ask 0x01020304 3), (0, Ask 0x01020304 4), (0, Ask 0x04030201 3), (0, Ask 0x01020304 3),
      (0, Lifetime 15), (0, Ask 0x01010101 4), (0, Ask 0x01010101 4), (0, Ask 0x02020202 5),
      (0, Ask 0x03030303 6)] (IdCache_new 10)"

text \<open>The scenario of the unit test \<open>IdCacheTest\<close>: the answers for the seven queries at time 0 with
  lifetime 10 raised to 15, and the sizes 6, 6, 3, 0 at 0, 5, 11 and 30 seconds.\<close>

theorem id_cache_unit_test:
  "map (\<lambda>t. fst (IdCache_GetSize t IdCacheTest_cache)) [0, 5, 11, 30] = [6, 6, 3, 0]"
  by (simp add: IdCacheTest_cache_def cache_run_def IdCache_IsDuplicate_def IdCache_Purge_def
      IdCache_SetLifetime_def IdCache_new_def UniqueId_IsExpired_def IdCache_GetSize_def Let_def)

end
