(* ===== verification/RQueue.thy ===== *)
theory RQueue
  imports Network
begin

text \<open>
  \<open>model/aodv-rqueue.{h,cc}\<close>: the buffer of packets that wait for a route. \<open>Drop\<close> calls the
  entry's error callback with its packet and header: the operations return, beside their result,
  the entries whose callback they called, in order. \<open>Enqueue\<close> is \<open>None\<close> where the code reads the
  front of an empty vector.
\<close>

record QueueEntry =
  qe_packet :: packet
  qe_header :: Ipv4Header
  qe_ucb :: callback
  qe_ecb :: callback
  qe_expire :: time

record RequestQueue =
  m_queue :: "QueueEntry list"
  m_maxLen :: u32
  m_queueTimeout :: time

definition QueueEntry_new ::
  "time \<Rightarrow> packet \<Rightarrow> Ipv4Header \<Rightarrow> callback \<Rightarrow> callback \<Rightarrow> time \<Rightarrow> QueueEntry" where
  "QueueEntry_new now pa h ucb ecb exp =
     \<lparr>qe_packet = pa, qe_header = h, qe_ucb = ucb, qe_ecb = ecb, qe_expire = exp + now\<rparr>"

definition QueueEntry_SetExpireTime :: "time \<Rightarrow> time \<Rightarrow> QueueEntry \<Rightarrow> QueueEntry" where
  "QueueEntry_SetExpireTime now exp e = e\<lparr>qe_expire := exp + now\<rparr>"

definition QueueEntry_GetExpireTime :: "time \<Rightarrow> QueueEntry \<Rightarrow> time" where
  "QueueEntry_GetExpireTime now e = qe_expire e - now"

definition RequestQueue_new :: "u32 \<Rightarrow> time \<Rightarrow> RequestQueue" where
  "RequestQueue_new maxLen routeToQueueTimeout =
     \<lparr>m_queue = [], m_maxLen = maxLen, m_queueTimeout = routeToQueueTimeout\<rparr>"

definition QueueEntry_IsExpired :: "time \<Rightarrow> QueueEntry \<Rightarrow> bool" where
  "QueueEntry_IsExpired now e \<longleftrightarrow> QueueEntry_GetExpireTime now e < 0"

definition RequestQueue_IsEqual :: "QueueEntry \<Rightarrow> ipv4addr \<Rightarrow> bool" where
  "RequestQueue_IsEqual en dst \<longleftrightarrow> GetDestination (qe_header en) = dst"

definition RequestQueue_Purge :: "time \<Rightarrow> RequestQueue \<Rightarrow> RequestQueue \<times> QueueEntry list" where
  "RequestQueue_Purge now q =
     (q\<lparr>m_queue := filter (\<lambda>e. \<not> QueueEntry_IsExpired now e) (m_queue q)\<rparr>,
      filter (QueueEntry_IsExpired now) (m_queue q))"

definition RequestQueue_GetSize :: "time \<Rightarrow> RequestQueue \<Rightarrow> u32 \<times> RequestQueue \<times> QueueEntry list" where
  "RequestQueue_GetSize now q =
     (let (q, dropped) = RequestQueue_Purge now q in (of_nat (length (m_queue q)), q, dropped))"

definition RequestQueue_Enqueue ::
  "time \<Rightarrow> QueueEntry \<Rightarrow> RequestQueue \<Rightarrow> (bool \<times> RequestQueue \<times> QueueEntry list) option" where
  "RequestQueue_Enqueue now entry q =
     (let (q, dropped) = RequestQueue_Purge now q
      in if \<exists>i\<in>set (m_queue q). GetUid (qe_packet i) = GetUid (qe_packet entry)
              \<and> GetDestination (qe_header i) = GetDestination (qe_header entry)
         then Some (False, q, dropped)
         else let entry = QueueEntry_SetExpireTime now (m_queueTimeout q) entry
              in if length (m_queue q) = unat (m_maxLen q)
                 then (case m_queue q of
                         [] \<Rightarrow> None
                       | front # rest \<Rightarrow> Some (True, q\<lparr>m_queue := rest @ [entry]\<rparr>, dropped @ [front]))
                 else Some (True, q\<lparr>m_queue := m_queue q @ [entry]\<rparr>, dropped))"

definition RequestQueue_DropPacketWithDst ::
  "time \<Rightarrow> ipv4addr \<Rightarrow> RequestQueue \<Rightarrow> RequestQueue \<times> QueueEntry list" where
  "RequestQueue_DropPacketWithDst now dst q =
     (let (q, dropped) = RequestQueue_Purge now q
      in (q\<lparr>m_queue := filter (\<lambda>i. \<not> RequestQueue_IsEqual i dst) (m_queue q)\<rparr>,
          dropped @ filter (\<lambda>i. RequestQueue_IsEqual i dst) (m_queue q)))"

fun erase_first :: "('a \<Rightarrow> bool) \<Rightarrow> 'a list \<Rightarrow> 'a list" where
  "erase_first P [] = []"
| "erase_first P (x # xs) = (if P x then xs else x # erase_first P xs)"

definition RequestQueue_Dequeue ::
  "time \<Rightarrow> ipv4addr \<Rightarrow> RequestQueue \<Rightarrow> QueueEntry option \<times> RequestQueue \<times> QueueEntry list" where
  "RequestQueue_Dequeue now dst q =
     (let (q, dropped) = RequestQueue_Purge now q;
          hit = (\<lambda>i. GetDestination (qe_header i) = dst)
      in case List.find hit (m_queue q) of
           Some e \<Rightarrow> (Some e, q\<lparr>m_queue := erase_first hit (m_queue q)\<rparr>, dropped)
         | None \<Rightarrow> (None, q, dropped))"

definition RequestQueue_Find :: "ipv4addr \<Rightarrow> RequestQueue \<Rightarrow> bool" where
  "RequestQueue_Find dst q \<longleftrightarrow> (\<exists>i\<in>set (m_queue q). GetDestination (qe_header i) = dst)"

definition RequestQueue_SetMaxQueueLen :: "u32 \<Rightarrow> RequestQueue \<Rightarrow> RequestQueue" where
  "RequestQueue_SetMaxQueueLen len q = q\<lparr>m_maxLen := len\<rparr>"

definition RequestQueue_SetQueueTimeout :: "time \<Rightarrow> RequestQueue \<Rightarrow> RequestQueue" where
  "RequestQueue_SetQueueTimeout t q = q\<lparr>m_queueTimeout := t\<rparr>"

section \<open>Invariant and lemmas\<close>

interpretation queue_exp: expiring QueueEntry_IsExpired
  by unfold_locales (simp add: QueueEntry_IsExpired_def QueueEntry_GetExpireTime_def)

definition qe_key :: "QueueEntry \<Rightarrow> 64 word \<times> ipv4addr" where
  "qe_key e = (GetUid (qe_packet e), GetDestination (qe_header e))"

definition RequestQueue_wf :: "RequestQueue \<Rightarrow> bool" where
  "RequestQueue_wf q \<longleftrightarrow> 0 < m_maxLen q \<and> length (m_queue q) \<le> unat (m_maxLen q)
     \<and> distinct (map qe_key (m_queue q))"

lemma erase_first_split:
  "List.find P xs = Some x \<Longrightarrow>
   \<exists>ys zs. xs = ys @ x # zs \<and> erase_first P xs = ys @ zs \<and> (\<forall>y\<in>set ys. \<not> P y) \<and> P x"
proof (induction xs)
  case (Cons a xs)
  show ?case
  proof (cases "P a")
    case True
    with Cons.prems show ?thesis by (intro exI [of _ "[]"] exI [of _ xs]) simp
  next
    case False
    with Cons obtain ys zs where "xs = ys @ x # zs" "erase_first P xs = ys @ zs"
      "\<forall>y\<in>set ys. \<not> P y" "P x" by auto
    with False show ?thesis by (intro exI [of _ "a # ys"] exI [of _ zs]) simp
  qed
qed simp

lemma qe_key_expire [simp]: "qe_key (QueueEntry_SetExpireTime now t e) = qe_key e"
  by (simp add: qe_key_def QueueEntry_SetExpireTime_def)

lemma same_key: "(\<exists>i\<in>set es. GetUid (qe_packet i) = GetUid (qe_packet e)
      \<and> GetDestination (qe_header i) = GetDestination (qe_header e)) \<longleftrightarrow> qe_key e \<in> qe_key ` set es"
  by (auto simp: qe_key_def image_iff) metis+

lemma RequestQueue_wf_Purge: "RequestQueue_wf q \<Longrightarrow> RequestQueue_wf (fst (RequestQueue_Purge now q))"
  by (auto simp: RequestQueue_wf_def RequestQueue_Purge_def distinct_map_filter
      intro: le_trans [OF length_filter_le])

lemma RequestQueue_Purge_frame [frame_simps]:
  "m_maxLen (fst (RequestQueue_Purge now q)) = m_maxLen q"
  "m_queueTimeout (fst (RequestQueue_Purge now q)) = m_queueTimeout q"
  by (simp_all add: RequestQueue_Purge_def)

lemma Purge_mset:
  "mset (m_queue (fst (RequestQueue_Purge now q))) + mset (snd (RequestQueue_Purge now q)) = mset (m_queue q)"
  by (simp add: RequestQueue_Purge_def)

text \<open>The three outcomes of \<open>Enqueue\<close> on a well-formed queue.\<close>

lemma Enqueue_cases:
  assumes wf: "RequestQueue_wf q"
  obtains (dup) q1 d where "RequestQueue_Purge now q = (q1, d)" "qe_key e \<in> qe_key ` set (m_queue q1)"
      "RequestQueue_Enqueue now e q = Some (False, q1, d)"
  | (room) q1 d where "RequestQueue_Purge now q = (q1, d)" "qe_key e \<notin> qe_key ` set (m_queue q1)"
      "length (m_queue q1) < unat (m_maxLen q)"
      "RequestQueue_Enqueue now e q = Some (True,
         q1\<lparr>m_queue := m_queue q1 @ [QueueEntry_SetExpireTime now (m_queueTimeout q) e]\<rparr>, d)"
  | (full) q1 d x xs where "RequestQueue_Purge now q = (q1, d)" "qe_key e \<notin> qe_key ` set (m_queue q1)"
      "m_queue q1 = x # xs" "length (m_queue q1) = unat (m_maxLen q)"
      "RequestQueue_Enqueue now e q = Some (True,
         q1\<lparr>m_queue := xs @ [QueueEntry_SetExpireTime now (m_queueTimeout q) e]\<rparr>, d @ [x])"
proof -
  obtain q1 d where p: "RequestQueue_Purge now q = (q1, d)" by fastforce
  have q1: "RequestQueue_wf q1" "m_maxLen q1 = m_maxLen q" "m_queueTimeout q1 = m_queueTimeout q"
    using RequestQueue_wf_Purge [OF wf, of now] RequestQueue_Purge_frame [of now q] p by simp_all
  have pos: "0 < unat (m_maxLen q)" and le: "length (m_queue q1) \<le> unat (m_maxLen q)"
    using wf q1 by (auto simp: RequestQueue_wf_def word_less_nat_alt)
  note def = RequestQueue_Enqueue_def p same_key Let_def q1(2,3)
  consider "qe_key e \<in> qe_key ` set (m_queue q1)"
    | "qe_key e \<notin> qe_key ` set (m_queue q1)" "length (m_queue q1) < unat (m_maxLen q)"
    | "qe_key e \<notin> qe_key ` set (m_queue q1)" "length (m_queue q1) = unat (m_maxLen q)"
    using le by linarith
  then show thesis
  proof cases
    case 1
    then show thesis by (intro dup [OF p]) (simp_all add: def)
  next
    case 2
    then show thesis by (intro room [OF p]) (simp_all add: def)
  next
    case 3
    then obtain x xs where "m_queue q1 = x # xs" using pos by (cases "m_queue q1") auto
    with 3 show thesis by (intro full [OF p]) (simp_all add: def)
  qed
qed

lemma Enqueue_wf:
  assumes "RequestQueue_wf q"
  shows "\<exists>b q' d. RequestQueue_Enqueue now e q = Some (b, q', d) \<and> RequestQueue_wf q'"
  using assms
proof (cases rule: Enqueue_cases [where now = now and e = e])
  case (dup q1 d)
  then show ?thesis using RequestQueue_wf_Purge [OF assms, of now] by (intro exI [of _ False]) simp
next
  case (room q1 d)
  then show ?thesis
    using RequestQueue_wf_Purge [OF assms, of now] RequestQueue_Purge_frame [of now q]
    by (intro exI [of _ True]) (simp add: RequestQueue_wf_def)
next
  case (full q1 d x xs)
  then show ?thesis
    using RequestQueue_wf_Purge [OF assms, of now] RequestQueue_Purge_frame [of now q]
    by (intro exI [of _ True]) (simp add: RequestQueue_wf_def)
qed

lemma erase_first_distinct: "distinct (map f xs) \<Longrightarrow> distinct (map f (erase_first P xs))"
proof -
  have "set (map f (erase_first P xs)) \<subseteq> set (map f xs)" for xs
    by (induction xs) auto
  then show "distinct (map f xs) \<Longrightarrow> distinct (map f (erase_first P xs))"
    by (induction xs) auto
qed

lemma erase_first_length: "length (erase_first P xs) \<le> length xs"
  by (induction xs) auto

lemma Dequeue_wf:
  "RequestQueue_wf q \<Longrightarrow> RequestQueue_wf (fst (snd (RequestQueue_Dequeue now dst q)))"
  using RequestQueue_wf_Purge [of q now]
  by (auto simp: RequestQueue_Dequeue_def RequestQueue_wf_def erase_first_distinct Let_def
      split: prod.splits option.splits intro: le_trans [OF erase_first_length])

lemma DropPacketWithDst_wf:
  "RequestQueue_wf q \<Longrightarrow> RequestQueue_wf (fst (RequestQueue_DropPacketWithDst now dst q))"
  using RequestQueue_wf_Purge [of q now]
  by (auto simp: RequestQueue_DropPacketWithDst_def RequestQueue_wf_def distinct_map_filter Let_def
      split: prod.splits intro: le_trans [OF length_filter_le])

lemma GetSize_wf: "RequestQueue_wf q \<Longrightarrow> RequestQueue_wf (fst (snd (RequestQueue_GetSize now q)))"
  using RequestQueue_wf_Purge [of q now]
  by (cases "RequestQueue_Purge now q") (simp add: RequestQueue_GetSize_def)

section \<open>Histories of the queue\<close>

datatype queue_op = Enq QueueEntry | Deq ipv4addr | DropDst ipv4addr | QueueSize

text \<open>What an operation did to the entries: accepted, dropped with an error callback, handed out.\<close>

record queue_io =
  io_accepted :: "QueueEntry list"
  io_dropped :: "QueueEntry list"
  io_handed :: "QueueEntry list"

fun queue_step :: "time \<times> queue_op \<Rightarrow> RequestQueue \<Rightarrow> (RequestQueue \<times> queue_io) option" where
  "queue_step (now, Enq e) q =
     (case RequestQueue_Enqueue now e q of
        None \<Rightarrow> None
      | Some (b, q', d) \<Rightarrow> Some (q', \<lparr>io_accepted =
            (if b then [QueueEntry_SetExpireTime now (m_queueTimeout q) e] else []),
          io_dropped = d, io_handed = []\<rparr>))"
| "queue_step (now, Deq dst) q =
     (case RequestQueue_Dequeue now dst q of (r, q', d) \<Rightarrow>
        Some (q', \<lparr>io_accepted = [], io_dropped = d, io_handed = (case r of None \<Rightarrow> [] | Some e \<Rightarrow> [e])\<rparr>))"
| "queue_step (now, DropDst dst) q =
     (case RequestQueue_DropPacketWithDst now dst q of (q', d) \<Rightarrow>
        Some (q', \<lparr>io_accepted = [], io_dropped = d, io_handed = []\<rparr>))"
| "queue_step (now, QueueSize) q =
     (case RequestQueue_GetSize now q of (n, q', d) \<Rightarrow>
        Some (q', \<lparr>io_accepted = [], io_dropped = d, io_handed = []\<rparr>))"

fun queue_run :: "(time \<times> queue_op) list \<Rightarrow> RequestQueue \<Rightarrow> (RequestQueue \<times> queue_io) option" where
  "queue_run [] q = Some (q, \<lparr>io_accepted = [], io_dropped = [], io_handed = []\<rparr>)"
| "queue_run (op # ops) q = do {
     (q, io) \<leftarrow> queue_step op q;
     (q, io') \<leftarrow> queue_run ops q;
     Some (q, \<lparr>io_accepted = io_accepted io @ io_accepted io', io_dropped = io_dropped io @ io_dropped io',
               io_handed = io_handed io @ io_handed io'\<rparr>)
   }"

definition balanced :: "RequestQueue \<Rightarrow> RequestQueue \<Rightarrow> queue_io \<Rightarrow> bool" where
  "balanced q q' io \<longleftrightarrow>
     mset (m_queue q) + mset (io_accepted io) = mset (m_queue q') + mset (io_dropped io) + mset (io_handed io)"

lemma mset_split:
  "mset xs + A = filter_mset (\<lambda>x. \<not> P x) (mset xs) + (A + filter_mset P (mset xs))"
  by (metis add.commute add.left_commute multiset_partition)

lemma balance_trans:
  fixes a b c :: "'x multiset"
  assumes "a + c1 = b + d1 + h1" "b + c2 = e + d2 + h2"
  shows "a + (c1 + c2) = e + (d1 + d2) + (h1 + h2)"
proof -
  have "a + (c1 + c2) = (b + c2) + d1 + h1" using assms(1) by (metis add.assoc add.commute)
  then show ?thesis by (simp add: assms(2) ac_simps)
qed

lemma Enqueue_balanced:
  assumes "RequestQueue_wf q" "queue_step (now, Enq e) q = Some (q', io)"
  shows "balanced q q' io"
  using assms(1)
proof (cases rule: Enqueue_cases [where now = now and e = e])
  case (dup q1 d)
  with assms(2) Purge_mset [of now q] show ?thesis by (auto simp: balanced_def)
next
  case (room q1 d)
  with assms(2) Purge_mset [of now q] show ?thesis by (auto simp: balanced_def)
next
  case (full q1 d x xs)
  with assms(2) Purge_mset [of now q] show ?thesis by (auto simp: balanced_def)
qed

lemma Dequeue_balanced:
  assumes "queue_step (now, Deq dst) q = Some (q', io)"
  shows "balanced q q' io"
proof -
  obtain q1 d where p: "RequestQueue_Purge now q = (q1, d)" by fastforce
  let ?hit = "\<lambda>i. GetDestination (qe_header i) = dst"
  show ?thesis
  proof (cases "List.find ?hit (m_queue q1)")
    case None
    with assms p Purge_mset [of now q] show ?thesis
      by (auto simp: RequestQueue_Dequeue_def balanced_def)
  next
    case (Some e)
    with erase_first_split [OF Some] assms p Purge_mset [of now q] show ?thesis
      by (auto simp: RequestQueue_Dequeue_def balanced_def)
  qed
qed

lemma DropDst_balanced:
  assumes "queue_step (now, DropDst dst) q = Some (q', io)"
  shows "balanced q q' io"
proof -
  obtain q1 d where p: "RequestQueue_Purge now q = (q1, d)" by fastforce
  then have "mset (m_queue q) = mset (m_queue q1) + mset d" using Purge_mset [of now q] by simp
  also have "\<dots> = filter_mset (\<lambda>i. \<not> RequestQueue_IsEqual i dst) (mset (m_queue q1))
      + (mset d + filter_mset (\<lambda>i. RequestQueue_IsEqual i dst) (mset (m_queue q1)))"
    by (rule mset_split)
  finally show ?thesis
    using assms p by (auto simp: balanced_def RequestQueue_DropPacketWithDst_def)
qed

lemma queue_step_ok:
  assumes "RequestQueue_wf q"
  shows "\<exists>q' io. queue_step op q = Some (q', io) \<and> RequestQueue_wf q' \<and> balanced q q' io"
proof (cases "(op, q)" rule: queue_step.cases)
  case (1 now e q)
  with Enqueue_wf [OF assms, of now e] Enqueue_balanced [OF assms, of now e] show ?thesis by auto
next
  case (2 now dst q)
  with Dequeue_wf [OF assms, of now dst] Dequeue_balanced [of now dst q] show ?thesis
    by (auto split: prod.splits)
next
  case (3 now dst q)
  with DropPacketWithDst_wf [OF assms, of now dst] DropDst_balanced [of now dst q] show ?thesis
    by (auto split: prod.splits)
next
  case (4 now q)
  with GetSize_wf [OF assms, of now] Purge_mset [of now q] show ?thesis
    by (auto simp: balanced_def RequestQueue_GetSize_def split: prod.splits)
qed

lemma queue_run_ok:
  "RequestQueue_wf q \<Longrightarrow> \<exists>q' io. queue_run ops q = Some (q', io) \<and> RequestQueue_wf q' \<and> balanced q q' io"
proof (induction ops arbitrary: q)
  case Nil
  then show ?case by (simp add: balanced_def)
next
  case (Cons op ops)
  obtain q1 io1 where 1: "queue_step op q = Some (q1, io1)" "RequestQueue_wf q1" "balanced q q1 io1"
    using queue_step_ok [OF Cons.prems] by blast
  obtain q2 io2 where 2: "queue_run ops q1 = Some (q2, io2)" "RequestQueue_wf q2" "balanced q1 q2 io2"
    using Cons.IH [OF 1(2)] by blast
  have "balanced q q2 \<lparr>io_accepted = io_accepted io1 @ io_accepted io2, io_dropped = io_dropped io1 @ io_dropped io2,
      io_handed = io_handed io1 @ io_handed io2\<rparr>"
    using balance_trans 1(3) 2(3) by (simp add: balanced_def) blast
  with 1 2 show ?case by simp
qed

lemma Enqueue_maxLen:
  "RequestQueue_Enqueue now e q = Some (b, q', d) \<Longrightarrow> m_maxLen q' = m_maxLen q"
  unfolding RequestQueue_Enqueue_def RequestQueue_Purge_def same_key Let_def
  by (auto split: if_splits list.splits)

lemma queue_step_maxLen: "queue_step op q = Some (q', io) \<Longrightarrow> m_maxLen q' = m_maxLen q"
  by (cases "(op, q)" rule: queue_step.cases)
    (auto dest: Enqueue_maxLen simp: RequestQueue_Dequeue_def RequestQueue_DropPacketWithDst_def
      RequestQueue_GetSize_def RequestQueue_Purge_def Let_def split: option.splits)

lemma queue_run_maxLen: "queue_run ops q = Some (q', io) \<Longrightarrow> m_maxLen q' = m_maxLen q"
proof (induction ops arbitrary: q q' io)
  case (Cons op ops)
  then obtain q1 io1 io2 where "queue_step op q = Some (q1, io1)" "queue_run ops q1 = Some (q', io2)"
    by (auto split: Option.bind_splits)
  with Cons.IH show ?case by (metis queue_step_maxLen)
qed simp

section \<open>Properties\<close>

text \<open>C30: The request queue over any history. From an empty queue of positive capacity, every sequence of
  \<open>Enqueue\<close>, \<open>Dequeue\<close>, \<open>DropPacketWithDst\<close> and \<open>GetSize\<close> at any times runs without undefined
  behaviour; the queue never exceeds its capacity and never holds a packet twice for one
  destination; and no packet is lost or duplicated: the accepted entries are exactly those still
  queued, those whose error callback was called and those handed out.\<close>

theorem request_queue_conserves_packets:
  assumes "0 < maxLen"
  shows "\<exists>q io. queue_run ops (RequestQueue_new maxLen timeout) = Some (q, io)
    \<and> length (m_queue q) \<le> unat maxLen \<and> distinct (map qe_key (m_queue q))
    \<and> mset (io_accepted io) = mset (m_queue q) + mset (io_dropped io) + mset (io_handed io)"
proof -
  have "RequestQueue_wf (RequestQueue_new maxLen timeout)"
    using assms by (simp add: RequestQueue_wf_def RequestQueue_new_def)
  from queue_run_ok [OF this, of ops] obtain q io
    where run: "queue_run ops (RequestQueue_new maxLen timeout) = Some (q, io)"
      and q: "RequestQueue_wf q" "balanced (RequestQueue_new maxLen timeout) q io" by blast
  from queue_run_maxLen [OF run] have "m_maxLen q = maxLen" by (simp add: RequestQueue_new_def)
  with run q show ?thesis by (simp add: RequestQueue_wf_def balanced_def RequestQueue_new_def)
qed

definition test_entry :: "64 word \<Rightarrow> ipv4addr \<Rightarrow> QueueEntry" where
  "test_entry uid dst = QueueEntry_new 0 \<lparr>GetUid = uid, deferred_tag = None\<rparr>
     \<lparr>GetSource = 1, GetDestination = dst, GetTtl = 64\<rparr> 1 1 0"

theorem request_queue_conserves_packets_witness:
  "\<exists>q io. queue_run [(0, Enq (test_entry 1 5)), (1, Enq (test_entry 2 5)), (2, Enq (test_entry 3 6)), (3, Deq 5)]
      (RequestQueue_new 2 30) = Some (q, io) \<and> length (m_queue q) \<le> 2"
  using request_queue_conserves_packets [of 2
      "[(0, Enq (test_entry 1 5)), (1, Enq (test_entry 2 5)), (2, Enq (test_entry 3 6)), (3, Deq 5)]" 30]
  by auto

text \<open>\<open>Dequeue\<close> is first in, first out for each destination: it hands out the earliest live entry for
  the destination, or none when there is none; it removes that entry only, keeping the others in
  order, and calls the error callback of exactly the expired entries.\<close>

theorem dequeue_earliest:
  "case RequestQueue_Dequeue now dst q of (r, q', d) \<Rightarrow>
     d = filter (QueueEntry_IsExpired now) (m_queue q) \<and>
     (case r of
        None \<Rightarrow> \<not> RequestQueue_Find dst q'
          \<and> m_queue q' = filter (\<lambda>e. \<not> QueueEntry_IsExpired now e) (m_queue q)
      | Some e \<Rightarrow> \<exists>before after. GetDestination (qe_header e) = dst
          \<and> filter (\<lambda>e. \<not> QueueEntry_IsExpired now e) (m_queue q) = before @ e # after
          \<and> (\<forall>x\<in>set before. GetDestination (qe_header x) \<noteq> dst) \<and> m_queue q' = before @ after)"
proof -
  let ?live = "filter (\<lambda>e. \<not> QueueEntry_IsExpired now e) (m_queue q)"
  let ?hit = "\<lambda>i. GetDestination (qe_header i) = dst"
  show ?thesis
  proof (cases "List.find ?hit ?live")
    case None
    then have "\<forall>x\<in>set ?live. \<not> ?hit x" by (auto simp: find_None_iff)
    with None show ?thesis
      by (auto simp: RequestQueue_Dequeue_def RequestQueue_Purge_def RequestQueue_Find_def)
  next
    case (Some e)
    with erase_first_split [OF Some] show ?thesis
      by (auto simp: RequestQueue_Dequeue_def RequestQueue_Purge_def)
  qed
qed

theorem dequeue_earliest_witness:
  "fst (RequestQueue_Dequeue 4 5 \<lparr>m_queue = [test_entry 1 6, test_entry 2 5, test_entry 3 5], m_maxLen = 8, m_queueTimeout = 30\<rparr>)
     = None
   \<and> filter (QueueEntry_IsExpired 4) [test_entry 1 6, test_entry 2 5, test_entry 3 5]
     = snd (snd (RequestQueue_Dequeue 4 5 \<lparr>m_queue = [test_entry 1 6, test_entry 2 5, test_entry 3 5], m_maxLen = 8, m_queueTimeout = 30\<rparr>))"
  using dequeue_earliest [where now = 4 and dst = 5 and q = "\<lparr>m_queue = [test_entry 1 6, test_entry 2 5, test_entry 3 5], m_maxLen = 8, m_queueTimeout = 30\<rparr>"]
  by (auto simp: RequestQueue_Dequeue_def RequestQueue_Purge_def test_entry_def QueueEntry_new_def
      QueueEntry_IsExpired_def QueueEntry_GetExpireTime_def)

text \<open>C38: Every outcome of \<open>Enqueue\<close> on a sound queue: a live entry with the same packet and destination
  refuses the new one and changes nothing else; otherwise the entry goes to the back with the
  queue's timeout counted from now, and when the queue is full the oldest live entry is dropped to
  make room, its error callback called after those of the expired entries.\<close>

theorem enqueue_outcomes:
  assumes "RequestQueue_wf q"
    and "live = filter (\<lambda>x. \<not> QueueEntry_IsExpired now x) (m_queue q)"
    and "expired = filter (QueueEntry_IsExpired now) (m_queue q)"
    and "e' = e\<lparr>qe_expire := m_queueTimeout q + now\<rparr>"
  shows "RequestQueue_Enqueue now e q = Some
    (if qe_key e \<in> qe_key ` set live then (False, q\<lparr>m_queue := live\<rparr>, expired)
     else if length live < unat (m_maxLen q) then (True, q\<lparr>m_queue := live @ [e']\<rparr>, expired)
     else (True, q\<lparr>m_queue := tl live @ [e']\<rparr>, expired @ [hd live]))"
  using assms(1)
proof (cases rule: Enqueue_cases [where now = now and e = e])
  case (dup q1 d)
  have q1: "q1 = q\<lparr>m_queue := live\<rparr>" "d = expired"
    using dup(1) by (auto simp: RequestQueue_Purge_def assms)
  from dup(2,3) show ?thesis by (simp add: q1)
next
  case (room q1 d)
  have q1: "q1 = q\<lparr>m_queue := live\<rparr>" "d = expired"
    using room(1) by (auto simp: RequestQueue_Purge_def assms)
  from room(2,3,4) show ?thesis by (simp add: q1 assms(4) QueueEntry_SetExpireTime_def)
next
  case (full q1 d x xs)
  have q1: "q1 = q\<lparr>m_queue := live\<rparr>" "d = expired"
    using full(1) by (auto simp: RequestQueue_Purge_def assms)
  from full(2,3,4,5) show ?thesis by (simp add: q1 assms(4) QueueEntry_SetExpireTime_def)
qed

theorem enqueue_outcomes_witness:
  "RequestQueue_Enqueue 0 (test_entry 3 6) \<lparr>m_queue = [test_entry 1 5, test_entry 2 5], m_maxLen = 2, m_queueTimeout = 30\<rparr>
   = Some (True, \<lparr>m_queue = [test_entry 2 5, (test_entry 3 6)\<lparr>qe_expire := 30\<rparr>], m_maxLen = 2, m_queueTimeout = 30\<rparr>,
       [test_entry 1 5])"
  using enqueue_outcomes [of "\<lparr>m_queue = [test_entry 1 5, test_entry 2 5], m_maxLen = 2, m_queueTimeout = 30\<rparr>"
      _ 0 _ _ "test_entry 3 6", OF _ refl refl refl]
  by (simp add: RequestQueue_wf_def qe_key_def test_entry_def QueueEntry_new_def
      QueueEntry_IsExpired_def QueueEntry_GetExpireTime_def)

text \<open>The capacity test is an equality. A queue that \<open>SetMaxQueueLen\<close> cut below its current number of
  live entries takes every further new packet without dropping any, so it grows beyond every
  bound; and an empty queue of capacity 0 makes \<open>Enqueue\<close> read the front of an empty vector.\<close>

theorem shrunk_queue_grows:
  assumes "live = filter (\<lambda>x. \<not> QueueEntry_IsExpired now x) (m_queue q)"
    and "qe_key e \<notin> qe_key ` set live"
  shows "(unat len < length live \<longrightarrow>
      (\<exists>q'. RequestQueue_Enqueue now e (RequestQueue_SetMaxQueueLen len q)
          = Some (True, q', filter (QueueEntry_IsExpired now) (m_queue q))
        \<and> length (m_queue q') = length live + 1 \<and> m_maxLen q' = len))
    \<and> (live = [] \<and> len = 0 \<longrightarrow> RequestQueue_Enqueue now e (RequestQueue_SetMaxQueueLen len q) = None)"
  using assms
  by (auto simp: RequestQueue_Enqueue_def RequestQueue_SetMaxQueueLen_def RequestQueue_Purge_def same_key)

theorem shrunk_queue_grows_witness:
  "\<exists>q'. RequestQueue_Enqueue 0 (test_entry 3 6) (RequestQueue_SetMaxQueueLen 1
     \<lparr>m_queue = [test_entry 1 5, test_entry 2 5], m_maxLen = 2, m_queueTimeout = 30\<rparr>)
   = Some (True, q', []) \<and> length (m_queue q') = 3 \<and> m_maxLen q' = 1"
  using shrunk_queue_grows [of "[test_entry 1 5, test_entry 2 5]" 0
      "\<lparr>m_queue = [test_entry 1 5, test_entry 2 5], m_maxLen = 2, m_queueTimeout = 30\<rparr>" "test_entry 3 6" 1]
  by (simp add: qe_key_def test_entry_def QueueEntry_new_def
      QueueEntry_IsExpired_def QueueEntry_GetExpireTime_def eval_nat_numeral)

end
