(* ===== verification/RTable.thy ===== *)
theory RTable
  imports Network
begin

text \<open>
  \<open>model/aodv-rtable.{h,cc}\<close>: routing table entries and the routing table, a map from destination
  address to entry. Times of a record are absolute, as the members of the class are; \<open>GetLifeTime\<close>
  and \<open>SetLifeTime\<close> are relative to \<open>now\<close>. An entry's route is a shared object in C++ and a value
  here: the protocol writes a change to a looked-up entry back with \<open>Update\<close>. The member
  \<open>m_ackTimer\<close>, which nothing schedules, and the unread \<open>m_routeRequestTimout\<close> are left out.

  \<open>LookupRoute\<close> fills its second argument: it returns the purged table and the entry it found.
\<close>

datatype RouteFlags = VALID | INVALID | IN_SEARCH

record RoutingTableEntry =
  rt_validSeqNo :: bool
  rt_seqNo :: u32
  rt_hops :: u16
  rt_lifeTime :: time
  rt_route :: Ipv4Route
  rt_iface :: Ipv4InterfaceAddress
  rt_flag :: RouteFlags
  rt_precursorList :: "ipv4addr list"
  rt_reqCount :: u8
  rt_blackListState :: bool
  rt_blackListTimeout :: time

definition RoutingTableEntry_new ::
  "time \<Rightarrow> device \<Rightarrow> ipv4addr \<Rightarrow> bool \<Rightarrow> u32 \<Rightarrow> Ipv4InterfaceAddress \<Rightarrow> u16 \<Rightarrow> ipv4addr \<Rightarrow> time
   \<Rightarrow> RoutingTableEntry" where
  "RoutingTableEntry_new now dev dst vSeqNo seqNo iface hops nextHop lifetime =
     \<lparr>rt_validSeqNo = vSeqNo, rt_seqNo = seqNo, rt_hops = hops, rt_lifeTime = lifetime + now,
      rt_route = \<lparr>route_destination = dst, route_gateway = nextHop, route_source = GetLocal iface,
                  route_device = dev\<rparr>,
      rt_iface = iface, rt_flag = VALID, rt_precursorList = [], rt_reqCount = 0,
      rt_blackListState = False, rt_blackListTimeout = now\<rparr>"

text \<open>The entry of the default arguments; the default lifetime is \<open>Simulator::Now ()\<close>.\<close>

definition RoutingTableEntry_default :: "library \<Rightarrow> time \<Rightarrow> RoutingTableEntry" where
  "RoutingTableEntry_default L now =
     RoutingTableEntry_new now 0 (Ipv4Address_default L) False 0 (Ipv4InterfaceAddress_default L) 0
       (Ipv4Address_default L) now"

definition GetDestinationOf :: "RoutingTableEntry \<Rightarrow> ipv4addr" where
  "GetDestinationOf rt = route_destination (rt_route rt)"

definition GetNextHop :: "RoutingTableEntry \<Rightarrow> ipv4addr" where
  "GetNextHop rt = route_gateway (rt_route rt)"

definition SetNextHop :: "ipv4addr \<Rightarrow> RoutingTableEntry \<Rightarrow> RoutingTableEntry" where
  "SetNextHop a rt = rt\<lparr>rt_route := (rt_route rt)\<lparr>route_gateway := a\<rparr>\<rparr>"

definition GetOutputDevice :: "RoutingTableEntry \<Rightarrow> device" where
  "GetOutputDevice rt = route_device (rt_route rt)"

definition SetOutputDevice :: "device \<Rightarrow> RoutingTableEntry \<Rightarrow> RoutingTableEntry" where
  "SetOutputDevice d rt = rt\<lparr>rt_route := (rt_route rt)\<lparr>route_device := d\<rparr>\<rparr>"

definition SetLifeTime :: "time \<Rightarrow> time \<Rightarrow> RoutingTableEntry \<Rightarrow> RoutingTableEntry" where
  "SetLifeTime now lt rt = rt\<lparr>rt_lifeTime := lt + now\<rparr>"

definition GetLifeTime :: "time \<Rightarrow> RoutingTableEntry \<Rightarrow> time" where
  "GetLifeTime now rt = rt_lifeTime rt - now"

definition IncrementRreqCnt :: "RoutingTableEntry \<Rightarrow> RoutingTableEntry" where
  "IncrementRreqCnt rt = rt\<lparr>rt_reqCount := rt_reqCount rt + 1\<rparr>"

definition LookupPrecursor :: "ipv4addr \<Rightarrow> RoutingTableEntry \<Rightarrow> bool" where
  "LookupPrecursor a rt \<longleftrightarrow> a \<in> set (rt_precursorList rt)"

definition InsertPrecursor :: "ipv4addr \<Rightarrow> RoutingTableEntry \<Rightarrow> bool \<times> RoutingTableEntry" where
  "InsertPrecursor a rt =
     (if \<not> LookupPrecursor a rt then (True, rt\<lparr>rt_precursorList := rt_precursorList rt @ [a]\<rparr>)
      else (False, rt))"

definition DeletePrecursor :: "ipv4addr \<Rightarrow> RoutingTableEntry \<Rightarrow> bool \<times> RoutingTableEntry" where
  "DeletePrecursor a rt =
     (let l = filter (\<lambda>x. x \<noteq> a) (rt_precursorList rt)
      in if length l = length (rt_precursorList rt) then (False, rt)
         else (True, rt\<lparr>rt_precursorList := l\<rparr>))"

definition DeleteAllPrecursors :: "RoutingTableEntry \<Rightarrow> RoutingTableEntry" where
  "DeleteAllPrecursors rt = rt\<lparr>rt_precursorList := []\<rparr>"

definition IsPrecursorListEmpty :: "RoutingTableEntry \<Rightarrow> bool" where
  "IsPrecursorListEmpty rt \<longleftrightarrow> rt_precursorList rt = []"

definition GetPrecursors :: "RoutingTableEntry \<Rightarrow> ipv4addr list \<Rightarrow> ipv4addr list" where
  "GetPrecursors rt prec =
     (if IsPrecursorListEmpty rt then prec
      else fold (\<lambda>i prec. if \<exists>j\<in>set prec. j = i then prec else prec @ [i]) (rt_precursorList rt) prec)"

definition Invalidate :: "time \<Rightarrow> time \<Rightarrow> RoutingTableEntry \<Rightarrow> RoutingTableEntry" where
  "Invalidate now badLinkLifetime rt =
     (if rt_flag rt = INVALID then rt
      else rt\<lparr>rt_flag := INVALID, rt_reqCount := 0, rt_lifeTime := badLinkLifetime + now\<rparr>)"

section \<open>The table\<close>

record RoutingTable =
  m_ipv4AddressEntry :: "(ipv4addr \<times> RoutingTableEntry) list"
  m_badLinkLifetime :: time

definition RoutingTable_new :: "time \<Rightarrow> RoutingTable" where
  "RoutingTable_new t = \<lparr>m_ipv4AddressEntry = [], m_badLinkLifetime = t\<rparr>"

text \<open>What one step of the loop of \<open>Purge\<close> leaves of an entry.\<close>

definition age_entry :: "time \<Rightarrow> time \<Rightarrow> RoutingTableEntry \<Rightarrow> RoutingTableEntry option" where
  "age_entry bad now rt =
     (if GetLifeTime now rt < 0 then
        (case rt_flag rt of
           INVALID \<Rightarrow> None
         | VALID \<Rightarrow> Some (Invalidate now bad rt)
         | IN_SEARCH \<Rightarrow> Some rt)
      else Some rt)"

definition purge_entries ::
  "time \<Rightarrow> time \<Rightarrow> (ipv4addr \<times> RoutingTableEntry) list \<Rightarrow> (ipv4addr \<times> RoutingTableEntry) list" where
  "purge_entries bad now m =
     List.map_filter (\<lambda>i. map_option (Pair (fst i)) (age_entry bad now (snd i))) m"

definition RoutingTable_Purge :: "time \<Rightarrow> RoutingTable \<Rightarrow> RoutingTable" where
  "RoutingTable_Purge now t =
     (if m_ipv4AddressEntry t = [] then t
      else t\<lparr>m_ipv4AddressEntry := purge_entries (m_badLinkLifetime t) now (m_ipv4AddressEntry t)\<rparr>)"

definition LookupRoute ::
  "time \<Rightarrow> ipv4addr \<Rightarrow> RoutingTable \<Rightarrow> RoutingTable \<times> RoutingTableEntry option" where
  "LookupRoute now a t =
     (let t = RoutingTable_Purge now t in (t, map_of (m_ipv4AddressEntry t) a))"

definition LookupValidRoute ::
  "time \<Rightarrow> ipv4addr \<Rightarrow> RoutingTable \<Rightarrow> RoutingTable \<times> RoutingTableEntry option" where
  "LookupValidRoute now a t =
     (case LookupRoute now a t of
        (t, None) \<Rightarrow> (t, None)
      | (t, Some rt) \<Rightarrow> (t, if rt_flag rt = VALID then Some rt else None))"

definition DeleteRoute :: "time \<Rightarrow> ipv4addr \<Rightarrow> RoutingTable \<Rightarrow> bool \<times> RoutingTable" where
  "DeleteRoute now dst t =
     (let t = RoutingTable_Purge now t
      in if map_of (m_ipv4AddressEntry t) dst \<noteq> None
         then (True, t\<lparr>m_ipv4AddressEntry := map_erase dst (m_ipv4AddressEntry t)\<rparr>)
         else (False, t))"

text \<open>\<open>if (rt.GetFlag () != IN_SEARCH) rt.SetRreqCnt (0)\<close>, in \<open>AddRoute\<close> and \<open>Update\<close>.\<close>

definition reset_rreq :: "RoutingTableEntry \<Rightarrow> RoutingTableEntry" where
  "reset_rreq rt = (if rt_flag rt \<noteq> IN_SEARCH then rt\<lparr>rt_reqCount := 0\<rparr> else rt)"

definition AddRoute :: "time \<Rightarrow> RoutingTableEntry \<Rightarrow> RoutingTable \<Rightarrow> bool \<times> RoutingTable" where
  "AddRoute now rt t =
     (let t = RoutingTable_Purge now t;
          rt = reset_rreq rt
      in (map_of (m_ipv4AddressEntry t) (GetDestinationOf rt) = None,
          t\<lparr>m_ipv4AddressEntry := map_insert (GetDestinationOf rt) rt (m_ipv4AddressEntry t)\<rparr>))"

definition RoutingTable_Update :: "RoutingTableEntry \<Rightarrow> RoutingTable \<Rightarrow> bool \<times> RoutingTable" where
  "RoutingTable_Update rt t =
     (if map_of (m_ipv4AddressEntry t) (GetDestinationOf rt) = None then (False, t)
      else (True, t\<lparr>m_ipv4AddressEntry :=
              map_assign (GetDestinationOf rt) (reset_rreq rt) (m_ipv4AddressEntry t)\<rparr>))"

definition SetEntryState :: "ipv4addr \<Rightarrow> RouteFlags \<Rightarrow> RoutingTable \<Rightarrow> bool \<times> RoutingTable" where
  "SetEntryState a state t =
     (case map_of (m_ipv4AddressEntry t) a of
        None \<Rightarrow> (False, t)
      | Some rt \<Rightarrow> (True, t\<lparr>m_ipv4AddressEntry :=
            map_assign a (rt\<lparr>rt_flag := state, rt_reqCount := 0\<rparr>) (m_ipv4AddressEntry t)\<rparr>))"

definition GetListOfDestinationWithNextHop ::
  "time \<Rightarrow> ipv4addr \<Rightarrow> RoutingTable \<Rightarrow> RoutingTable \<times> (ipv4addr \<times> u32) list" where
  "GetListOfDestinationWithNextHop now nextHop t =
     (let t = RoutingTable_Purge now t
      in (t, fold (\<lambda>i u. if GetNextHop (snd i) = nextHop then map_insert (fst i) (rt_seqNo (snd i)) u else u)
               (m_ipv4AddressEntry t) []))"

definition InvalidateRoutesWithDst ::
  "time \<Rightarrow> (ipv4addr \<times> u32) list \<Rightarrow> RoutingTable \<Rightarrow> RoutingTable" where
  "InvalidateRoutesWithDst now unreachable t =
     (let t = RoutingTable_Purge now t
      in t\<lparr>m_ipv4AddressEntry :=
           map (\<lambda>i. (fst i,
                  fold (\<lambda>j rt. if fst i = fst j \<and> rt_flag rt = VALID
                               then Invalidate now (m_badLinkLifetime t) rt else rt)
                       unreachable (snd i)))
               (m_ipv4AddressEntry t)\<rparr>)"

definition DeleteAllRoutesFromInterface :: "Ipv4InterfaceAddress \<Rightarrow> RoutingTable \<Rightarrow> RoutingTable" where
  "DeleteAllRoutesFromInterface iface t =
     (if m_ipv4AddressEntry t = [] then t
      else t\<lparr>m_ipv4AddressEntry := filter (\<lambda>i. rt_iface (snd i) \<noteq> iface) (m_ipv4AddressEntry t)\<rparr>)"

definition RoutingTable_Clear :: "RoutingTable \<Rightarrow> RoutingTable" where
  "RoutingTable_Clear t = t\<lparr>m_ipv4AddressEntry := []\<rparr>"

definition MarkLinkAsUnidirectional :: "ipv4addr \<Rightarrow> time \<Rightarrow> RoutingTable \<Rightarrow> bool \<times> RoutingTable" where
  "MarkLinkAsUnidirectional neighbor blacklistTimeout t =
     (case map_of (m_ipv4AddressEntry t) neighbor of
        None \<Rightarrow> (False, t)
      | Some rt \<Rightarrow> (True, t\<lparr>m_ipv4AddressEntry := map_assign neighbor
            (rt\<lparr>rt_blackListState := True, rt_blackListTimeout := blacklistTimeout, rt_reqCount := 0\<rparr>)
            (m_ipv4AddressEntry t)\<rparr>))"

section \<open>The table as a map\<close>

text \<open>
  The interface the message handlers use: \<open>raw\<close> is the map a table stands for, \<open>purge\<close> what is left
  of it at a time, and a new entry is added only where there is none while \<open>upd\<close> replaces one.
\<close>

locale route_store =
  fixes ok :: "'t \<Rightarrow> bool"
    and raw :: "'t \<Rightarrow> ipv4addr \<Rightarrow> 'e option"
    and purge :: "time \<Rightarrow> 't \<Rightarrow> 't"
    and add :: "time \<Rightarrow> 'e \<Rightarrow> 't \<Rightarrow> bool \<times> 't"
    and upd :: "'e \<Rightarrow> 't \<Rightarrow> bool \<times> 't"
    and key :: "'e \<Rightarrow> ipv4addr"
    and norm :: "'e \<Rightarrow> 'e"
  assumes ok_purge: "ok t \<Longrightarrow> ok (purge n t)"
    and purge_twice: "ok t \<Longrightarrow> raw (purge n (purge n t)) = raw (purge n t)"
    and ok_add: "ok t \<Longrightarrow> ok (snd (add n e t))"
    and ok_upd: "ok t \<Longrightarrow> ok (snd (upd e t))"
    and raw_add: "ok t \<Longrightarrow> raw (snd (add n e t)) =
        (case raw (purge n t) (key e) of
           None \<Rightarrow> (raw (purge n t))(key e \<mapsto> norm e) | Some _ \<Rightarrow> raw (purge n t))"
    and raw_upd: "ok t \<Longrightarrow> raw (snd (upd e t)) =
        (case raw t (key e) of None \<Rightarrow> raw t | Some _ \<Rightarrow> (raw t)(key e \<mapsto> norm e))"
begin

text \<open>Looking an entry up, then updating it where it is there and adding it where it is not.\<close>

lemma put:
  assumes "ok t"
  shows "raw (if raw (purge n t) (key e) = None then snd (add n e (purge n t)) else snd (upd e (purge n t)))
    = (raw (purge n t))(key e \<mapsto> norm e)"
  using assms by (auto simp: raw_add raw_upd ok_purge purge_twice split: option.splits)

lemma ok_put:
  "ok t \<Longrightarrow>
   ok (if raw (purge n t) (key e) = None then snd (add n e (purge n t)) else snd (upd e (purge n t)))"
  by (simp add: ok_add ok_upd ok_purge)

lemma add_keeps: "ok t \<Longrightarrow> raw (purge n t) k = Some x \<Longrightarrow> raw (snd (add n e t)) k = Some x"
  by (auto simp: raw_add split: option.splits)

lemma upd_keeps_dom: "ok t \<Longrightarrow> dom (raw (snd (upd e t))) = dom (raw t)"
  by (auto simp: raw_upd split: option.splits if_splits)

end

definition table_map :: "RoutingTable \<Rightarrow> ipv4addr \<Rightarrow> RoutingTableEntry option" where
  "table_map t = map_of (m_ipv4AddressEntry t)"

definition RoutingTable_wf :: "RoutingTable \<Rightarrow> bool" where
  "RoutingTable_wf t \<longleftrightarrow> map_ok (m_ipv4AddressEntry t) \<and> 0 \<le> m_badLinkLifetime t
     \<and> (\<forall>(k, rt)\<in>set (m_ipv4AddressEntry t). GetDestinationOf rt = k)"

lemma purge_entries_Cons:
  "purge_entries bad now ((k, rt) # m) =
     (case age_entry bad now rt of None \<Rightarrow> purge_entries bad now m
      | Some rt' \<Rightarrow> (k, rt') # purge_entries bad now m)"
  by (simp add: purge_entries_def List.map_filter_simps split: option.splits)

lemma purge_entries_Nil [simp]: "purge_entries bad now [] = []"
  by (simp add: purge_entries_def List.map_filter_simps)

lemma mem_purge_entries:
  "(k, b) \<in> set (purge_entries bad now m) \<longleftrightarrow> (\<exists>rt. (k, rt) \<in> set m \<and> age_entry bad now rt = Some b)"
  by (force simp: purge_entries_def List.map_filter_def)

lemma map_ok_purge_entries: "map_ok m \<Longrightarrow> map_ok (purge_entries bad now m)"
proof (induction m)
  case (Cons p m)
  obtain k rt where "p = (k, rt)" by fastforce
  with Cons show ?case
    by (fastforce simp: purge_entries_Cons map_ok_Cons mem_purge_entries split: option.splits)
qed simp

lemma map_of_purge_entries:
  "map_ok m \<Longrightarrow> map_of (purge_entries bad now m) a = Option.bind (map_of m a) (age_entry bad now)"
proof (induction m)
  case (Cons p m)
  obtain k rt where p: "p = (k, rt)" by fastforce
  have "map_of (purge_entries bad now m) k = None"
    using Cons.prems p by (fastforce simp: map_of_eq_None_iff map_ok_Cons mem_purge_entries)
  with Cons p show ?case by (auto simp: purge_entries_Cons map_ok_Cons split: option.splits)
qed simp

lemma RoutingTable_Purge_simp:
  "RoutingTable_Purge now t = t\<lparr>m_ipv4AddressEntry := purge_entries (m_badLinkLifetime t) now (m_ipv4AddressEntry t)\<rparr>"
  by (simp add: RoutingTable_Purge_def)

lemma RTable_Purge_frame [frame_simps]: "m_badLinkLifetime (RoutingTable_Purge now t) = m_badLinkLifetime t"
  by (simp add: RoutingTable_Purge_simp)

lemma table_map_Purge:
  "RoutingTable_wf t \<Longrightarrow>
   table_map (RoutingTable_Purge now t) a = Option.bind (table_map t a) (age_entry (m_badLinkLifetime t) now)"
  by (simp add: table_map_def RoutingTable_Purge_simp map_of_purge_entries RoutingTable_wf_def)

lemma GetDestinationOf_simps [simp]:
  "GetDestinationOf (reset_rreq rt) = GetDestinationOf rt"
  "GetDestinationOf (Invalidate now bad rt) = GetDestinationOf rt"
  "GetDestinationOf (SetNextHop a rt) = GetDestinationOf rt"
  "GetDestinationOf (SetOutputDevice d rt) = GetDestinationOf rt"
  "GetDestinationOf (SetLifeTime now lt rt) = GetDestinationOf rt"
  by (simp_all add: GetDestinationOf_def reset_rreq_def Invalidate_def SetNextHop_def
      SetOutputDevice_def SetLifeTime_def)

lemma age_entry_dest: "age_entry bad now rt = Some rt' \<Longrightarrow> GetDestinationOf rt' = GetDestinationOf rt"
  by (auto simp: age_entry_def split: if_splits RouteFlags.splits)

lemma RoutingTable_wf_Purge: "RoutingTable_wf t \<Longrightarrow> RoutingTable_wf (RoutingTable_Purge now t)"
  by (fastforce simp: RoutingTable_wf_def RoutingTable_Purge_simp map_ok_purge_entries
      mem_purge_entries age_entry_dest)

interpretation rt_aging: aging "\<lambda>bad. 0 \<le> bad" age_entry
  by unfold_locales
    (auto simp: age_entry_def Invalidate_def GetLifeTime_def split: if_splits RouteFlags.splits)

lemma age_dead: "age_entry bad now rt = None \<longleftrightarrow> rt_flag rt = INVALID \<and> rt_lifeTime rt < now"
  by (auto simp: age_entry_def GetLifeTime_def split: RouteFlags.splits)

lemma set_map_insert: "set (map_insert k v m) \<subseteq> insert (k, v) (set m)"
  by (induction k v m rule: map_insert.induct) auto

lemma set_map_assign: "set (map_assign k v m) \<subseteq> insert (k, v) (set m)"
  by (induction k v m rule: map_assign.induct) auto

lemma RoutingTable_wf_AddRoute: "RoutingTable_wf t \<Longrightarrow> RoutingTable_wf (snd (AddRoute now rt t))"
  using RoutingTable_wf_Purge [of t now]
    set_map_insert [of "GetDestinationOf rt" "reset_rreq rt" "m_ipv4AddressEntry (RoutingTable_Purge now t)"]
  by (auto simp: AddRoute_def RoutingTable_wf_def map_ok_insert Let_def)

lemma RoutingTable_wf_assign:
  "RoutingTable_wf t \<Longrightarrow> GetDestinationOf rt = k \<Longrightarrow>
   RoutingTable_wf (t\<lparr>m_ipv4AddressEntry := map_assign k rt (m_ipv4AddressEntry t)\<rparr>)"
  using set_map_assign [of k rt "m_ipv4AddressEntry t"]
  by (auto simp: RoutingTable_wf_def map_ok_assign)

lemma RoutingTable_wf_Update: "RoutingTable_wf t \<Longrightarrow> RoutingTable_wf (snd (RoutingTable_Update rt t))"
  by (simp add: RoutingTable_Update_def RoutingTable_wf_assign)

lemma RoutingTable_wf_SetEntryState: "RoutingTable_wf t \<Longrightarrow> RoutingTable_wf (snd (SetEntryState a st t))"
proof (cases "map_of (m_ipv4AddressEntry t) a")
  case (Some rt)
  moreover assume "RoutingTable_wf t"
  moreover from this have "GetDestinationOf (rt\<lparr>rt_flag := st, rt_reqCount := 0\<rparr>) = a"
    using map_of_SomeD [OF Some] by (auto simp: RoutingTable_wf_def GetDestinationOf_def)
  ultimately show ?thesis by (simp add: SetEntryState_def RoutingTable_wf_assign)
qed (simp add: SetEntryState_def)

lemma RoutingTable_wf_DeleteRoute: "RoutingTable_wf t \<Longrightarrow> RoutingTable_wf (snd (DeleteRoute now a t))"
  using RoutingTable_wf_Purge [of t now]
  by (auto simp: DeleteRoute_def RoutingTable_wf_def map_ok_filter map_erase_def Let_def)

interpretation rt: route_store RoutingTable_wf table_map RoutingTable_Purge AddRoute RoutingTable_Update
  GetDestinationOf reset_rreq
proof
  fix t :: RoutingTable and n e
  assume ok: "RoutingTable_wf t"
  then have m: "map_ok (m_ipv4AddressEntry t)" and bad: "0 \<le> m_badLinkLifetime t"
    by (simp_all add: RoutingTable_wf_def)
  note wf = RoutingTable_wf_Purge [OF ok, of n]
  then have pm: "map_ok (m_ipv4AddressEntry (RoutingTable_Purge n t))" by (simp add: RoutingTable_wf_def)
  show "RoutingTable_wf (RoutingTable_Purge n t)" by (rule wf)
  show "table_map (RoutingTable_Purge n (RoutingTable_Purge n t)) = table_map (RoutingTable_Purge n t)"
  proof
    fix a
    show "table_map (RoutingTable_Purge n (RoutingTable_Purge n t)) a = table_map (RoutingTable_Purge n t) a"
      using rt_aging.age_stable [OF bad, of n]
      by (auto simp: table_map_Purge [OF wf] table_map_Purge [OF ok] RTable_Purge_frame
          split: Option.bind_splits)
  qed
  show "RoutingTable_wf (snd (AddRoute n e t))" by (rule RoutingTable_wf_AddRoute [OF ok])
  show "RoutingTable_wf (snd (RoutingTable_Update e t))" by (rule RoutingTable_wf_Update [OF ok])
  show "table_map (snd (AddRoute n e t)) = (case table_map (RoutingTable_Purge n t) (GetDestinationOf e) of
        None \<Rightarrow> (table_map (RoutingTable_Purge n t))(GetDestinationOf e \<mapsto> reset_rreq e)
      | Some x \<Rightarrow> table_map (RoutingTable_Purge n t))"
    using omap.find_ins [OF pm, of "GetDestinationOf e" "reset_rreq e"]
    by (simp add: AddRoute_def table_map_def Let_def split: option.splits)
  show "table_map (snd (RoutingTable_Update e t)) = (case table_map t (GetDestinationOf e) of
        None \<Rightarrow> table_map t | Some x \<Rightarrow> (table_map t)(GetDestinationOf e \<mapsto> reset_rreq e))"
    using omap.find_asg [OF m] by (auto simp: RoutingTable_Update_def table_map_def split: option.splits)
qed

section \<open>Lemmas for the message handlers\<close>

lemmas rtable_defs = LookupRoute_def LookupValidRoute_def AddRoute_def RoutingTable_Update_def
  DeleteRoute_def SetEntryState_def Let_def

lemma LookupRoute_simps [simp]:
  "fst (LookupRoute now a t) = RoutingTable_Purge now t"
  "snd (LookupRoute now a t) = table_map (RoutingTable_Purge now t) a"
  by (simp_all add: LookupRoute_def table_map_def Let_def)

lemma LookupRoute_pair:
  "LookupRoute now a t = (RoutingTable_Purge now t, table_map (RoutingTable_Purge now t) a)"
  by (simp add: prod_eq_iff)

lemma LookupValidRoute_pair:
  "LookupValidRoute now a t = (RoutingTable_Purge now t,
     case table_map (RoutingTable_Purge now t) a of None \<Rightarrow> None
     | Some rt \<Rightarrow> if rt_flag rt = VALID then Some rt else None)"
  by (simp add: LookupValidRoute_def LookupRoute_pair split: option.splits)

lemma age_valid:
  "0 \<le> bad \<Longrightarrow> age_entry bad now rt = Some rt' \<Longrightarrow> rt_flag rt' = VALID \<Longrightarrow>
   rt' = rt \<and> now \<le> rt_lifeTime rt"
  by (auto simp: age_entry_def Invalidate_def GetLifeTime_def split: if_splits RouteFlags.splits)

lemma age_fields:
  assumes "age_entry bad now rt = Some rt'"
  shows "rt_seqNo rt' = rt_seqNo rt" "rt_validSeqNo rt' = rt_validSeqNo rt" "rt_hops rt' = rt_hops rt"
    "rt_route rt' = rt_route rt" "rt_iface rt' = rt_iface rt"
    "rt_precursorList rt' = rt_precursorList rt" "rt_blackListState rt' = rt_blackListState rt"
    "rt_blackListTimeout rt' = rt_blackListTimeout rt"
  using assms by (auto simp: age_entry_def Invalidate_def split: if_splits RouteFlags.splits)

lemma fold_invalidate:
  "fold (\<lambda>j rt. if k = fst j \<and> rt_flag rt = VALID then Invalidate now bad rt else rt) us rt
   = (if k \<in> fst ` set us \<and> rt_flag rt = VALID then Invalidate now bad rt else rt)"
proof (induction us arbitrary: rt)
  case (Cons u us)
  then show ?case by (auto simp: Invalidate_def)
qed simp

lemma table_map_Invalidate:
  assumes "RoutingTable_wf t"
  shows "table_map (InvalidateRoutesWithDst now us t) a =
    map_option (\<lambda>rt. if a \<in> fst ` set us \<and> rt_flag rt = VALID
                     then Invalidate now (m_badLinkLifetime t) rt else rt)
      (table_map (RoutingTable_Purge now t) a)"
proof -
  have *: "map_of (map (\<lambda>i. (fst i, f (fst i) (snd i))) m) a = map_option (f a) (map_of m a)" for f m
    by (induction m) auto
  show ?thesis
    using * [of "\<lambda>k rt. if k \<in> fst ` set us \<and> rt_flag rt = VALID
        then Invalidate now (m_badLinkLifetime t) rt else rt"]
    by (simp add: InvalidateRoutesWithDst_def table_map_def fold_invalidate RTable_Purge_frame Let_def
        cong: if_cong)
qed

lemma map_of_filter_map:
  "distinct (map fst m) \<Longrightarrow> map_of (map (\<lambda>i. (fst i, f (snd i))) (filter (\<lambda>i. P (snd i)) m)) a
   = Option.bind (map_of m a) (\<lambda>x. if P x then Some (f x) else None)"
proof (induction m)
  case (Cons i m)
  have "map_of (map (\<lambda>i. (fst i, f (snd i))) (filter (\<lambda>i. P (snd i)) m)) (fst i) = None"
    using Cons.prems by (fastforce simp: map_of_eq_None_iff image_iff)
  with Cons show ?case by (cases i) auto
qed simp

lemma map_insert_last: "\<forall>p\<in>set m. fst p < k \<Longrightarrow> map_insert k v m = m @ [(k, v)]"
  by (induction m) auto

lemma fold_hops:
  assumes "map_ok (u @ m)"
  shows "fold (\<lambda>i u. if P (snd i) then map_insert (fst i) (f (snd i)) u else u) m (map (\<lambda>i. (fst i, f (snd i))) (filter (\<lambda>i. P (snd i)) u))
    = map (\<lambda>i. (fst i, f (snd i))) (filter (\<lambda>i. P (snd i)) (u @ m))"
  using assms
proof (induction m arbitrary: u)
  case (Cons i m)
  let ?v = "map (\<lambda>i. (fst i, f (snd i))) (filter (\<lambda>i. P (snd i)) u)"
  have "\<forall>p\<in>set ?v. fst p < fst i" using Cons.prems by (auto simp: map_ok_def sorted_wrt_append)
  then have "map_insert (fst i) (f (snd i)) ?v = ?v @ [(fst i, f (snd i))]"
    by (rule map_insert_last)
  with Cons.IH [of "u @ [i]"] Cons.prems show ?case by (cases "P (snd i)") auto
qed simp

section \<open>Properties\<close>

definition test_iface :: Ipv4InterfaceAddress where
  "test_iface = \<lparr>GetLocal = 0x0a000001, GetMask = 0xff000000, GetBroadcast = 0x0affffff\<rparr>"

definition test_table :: RoutingTable where
  "test_table = snd (AddRoute 0 (RoutingTableEntry_new 0 1 5 True 7 test_iface 2 4 10)
     (snd (AddRoute 0 (RoutingTableEntry_new 0 1 4 True 3 test_iface 1 4 20) (RoutingTable_new 15))))"

lemma test_table_wf: "RoutingTable_wf test_table"
proof -
  have "RoutingTable_wf (RoutingTable_new 15)" by (simp add: RoutingTable_wf_def RoutingTable_new_def)
  then show ?thesis by (simp add: test_table_def RoutingTable_wf_AddRoute)
qed

lemma test_table_map: "table_map test_table =
  [4 \<mapsto> RoutingTableEntry_new 0 1 4 True 3 test_iface 1 4 20,
   5 \<mapsto> RoutingTableEntry_new 0 1 5 True 7 test_iface 2 4 10]"
  by (simp add: test_table_def AddRoute_def RoutingTable_new_def RoutingTable_Purge_simp table_map_def
      RoutingTableEntry_new_def reset_rreq_def GetDestinationOf_def purge_entries_Cons age_entry_def
      GetLifeTime_def Let_def fun_eq_iff)

text \<open>C31: The life of a route. Purging touches each destination alone: an unexpired entry and one in search
  are kept as they are, an expired valid one becomes invalid for the bad link lifetime counted from
  now with its sequence number, next hop and precursors kept, and an expired invalid one is
  deleted; purging again at the same time changes nothing, and a purge later than the
  bad link lifetime deletes what the first one invalidated.\<close>

theorem purge_lifecycle:
  assumes "RoutingTable_wf t"
  shows "RoutingTable_wf (RoutingTable_Purge now t)
    \<and> table_map (RoutingTable_Purge now t) a =
      (case table_map t a of None \<Rightarrow> None
       | Some rt \<Rightarrow>
           if now \<le> rt_lifeTime rt \<or> rt_flag rt = IN_SEARCH then Some rt
           else if rt_flag rt = INVALID then None
           else Some (rt\<lparr>rt_flag := INVALID, rt_reqCount := 0, rt_lifeTime := m_badLinkLifetime t + now\<rparr>))
    \<and> table_map (RoutingTable_Purge now (RoutingTable_Purge now t)) a = table_map (RoutingTable_Purge now t) a
    \<and> (\<forall>rt. table_map t a = Some rt \<longrightarrow> rt_flag rt = VALID \<longrightarrow> rt_lifeTime rt < now \<longrightarrow>
        now + m_badLinkLifetime t < later \<longrightarrow>
        table_map (RoutingTable_Purge later (RoutingTable_Purge now t)) a = None)"
proof -
  note wf = RoutingTable_wf_Purge [OF assms, of now]
  have "table_map (RoutingTable_Purge later (RoutingTable_Purge now t)) a
      = Option.bind (Option.bind (table_map t a) (age_entry (m_badLinkLifetime t) now))
          (age_entry (m_badLinkLifetime t) later)" for later
    by (simp add: table_map_Purge [OF wf] table_map_Purge [OF assms] RTable_Purge_frame)
  then show ?thesis
    using wf rt.purge_twice [OF assms, of now]
    by (auto simp: table_map_Purge [OF assms] age_entry_def Invalidate_def GetLifeTime_def
        split: option.splits RouteFlags.splits)
qed

theorem purge_lifecycle_witness:
  "map_option rt_flag (table_map (RoutingTable_Purge 11 test_table) 5) = Some INVALID
   \<and> table_map (RoutingTable_Purge 27 (RoutingTable_Purge 11 test_table)) 5 = None"
  using purge_lifecycle [OF test_table_wf, where now = 11 and later = 27 and a = 5]
  by (simp add: test_table_map RoutingTableEntry_new_def)
    (simp add: test_table_def AddRoute_def RoutingTable_new_def RoutingTable_Purge_simp Let_def)

text \<open>\<open>LookupValidRoute\<close> never hands out a stale route: it succeeds exactly when the table holds a valid
  entry for the destination that has not expired, and returns that entry unchanged; the entry is
  for the destination asked for, and the table left behind is the purged one.\<close>

theorem lookup_valid_route_fresh:
  assumes "RoutingTable_wf t"
  shows "(snd (LookupValidRoute now a t) = Some rt \<longleftrightarrow>
      table_map t a = Some rt \<and> rt_flag rt = VALID \<and> now \<le> rt_lifeTime rt)
    \<and> (snd (LookupValidRoute now a t) = Some rt \<longrightarrow> GetDestinationOf rt = a)
    \<and> fst (LookupValidRoute now a t) = RoutingTable_Purge now t"
proof -
  have "GetDestinationOf rt = a" if "table_map t a = Some rt"
    using map_of_SomeD [OF that [unfolded table_map_def]] assms by (auto simp: RoutingTable_wf_def)
  moreover have "0 \<le> m_badLinkLifetime t" using assms by (simp add: RoutingTable_wf_def)
  ultimately show ?thesis
    by (auto simp: LookupValidRoute_pair table_map_Purge [OF assms] age_entry_def Invalidate_def
        GetLifeTime_def split: option.splits Option.bind_splits if_splits RouteFlags.splits)
qed

theorem lookup_valid_route_fresh_witness:
  "snd (LookupValidRoute 10 5 test_table) = Some (RoutingTableEntry_new 0 1 5 True 7 test_iface 2 4 10)
   \<and> snd (LookupValidRoute 11 5 test_table) = None"
proof -
  have "snd (LookupValidRoute 11 5 test_table) \<noteq> Some e" for e
    using lookup_valid_route_fresh [OF test_table_wf, of 11 5 e]
    by (auto simp: test_table_map RoutingTableEntry_new_def)
  then have "snd (LookupValidRoute 11 5 test_table) = None" by (cases "snd (LookupValidRoute 11 5 test_table)") auto
  then show ?thesis
    using lookup_valid_route_fresh [OF test_table_wf, of 10 5 "RoutingTableEntry_new 0 1 5 True 7 test_iface 2 4 10"]
    by (simp add: test_table_map) (simp add: RoutingTableEntry_new_def)
qed

text \<open>C32: The table operations refine map operations on the purged table: \<open>AddRoute\<close> inserts only where there
  is no entry and says so, \<open>Update\<close> and \<open>SetEntryState\<close> write only where there is one and say so
  (neither purges), \<open>DeleteRoute\<close> removes one destination and says whether it was there. An entry that
  \<open>AddRoute\<close> or \<open>Update\<close> stores keeps its request count only while it is in search, \<open>SetEntryState\<close> always
  clears it. All of them keep the table sorted by destination.\<close>

theorem table_operations_refine_map:
  assumes "RoutingTable_wf t" and "p = table_map (RoutingTable_Purge now t)"
    and "d = GetDestinationOf e" and "e' = (if rt_flag e = IN_SEARCH then e else e\<lparr>rt_reqCount := 0\<rparr>)"
  shows "(fst (AddRoute now e t) \<longleftrightarrow> p d = None)
    \<and> table_map (snd (AddRoute now e t)) = (if p d = None then p(d \<mapsto> e') else p)
    \<and> RoutingTable_wf (snd (AddRoute now e t))
    \<and> (fst (RoutingTable_Update e t) \<longleftrightarrow> table_map t d \<noteq> None)
    \<and> table_map (snd (RoutingTable_Update e t)) = (if table_map t d = None then table_map t else (table_map t)(d \<mapsto> e'))
    \<and> RoutingTable_wf (snd (RoutingTable_Update e t))
    \<and> table_map (snd (SetEntryState a st t)) =
        (table_map t)(a := map_option (\<lambda>rt. rt\<lparr>rt_flag := st, rt_reqCount := 0\<rparr>) (table_map t a))
    \<and> (fst (DeleteRoute now a t) \<longleftrightarrow> p a \<noteq> None) \<and> table_map (snd (DeleteRoute now a t)) = p(a := None)
    \<and> (fst (SetEntryState a st t) \<longleftrightarrow> table_map t a \<noteq> None)
    \<and> RoutingTable_wf (snd (SetEntryState a st t)) \<and> RoutingTable_wf (snd (DeleteRoute now a t))"
proof -
  have m: "map_ok (m_ipv4AddressEntry t)" "map_ok (m_ipv4AddressEntry (RoutingTable_Purge now t))"
    using assms(1) RoutingTable_wf_Purge [OF assms(1), of now] by (simp_all add: RoutingTable_wf_def)
  have e': "reset_rreq e = e'" by (simp add: assms(4) reset_rreq_def)
  have add: "fst (AddRoute now e t) \<longleftrightarrow> p d = None"
    by (simp add: AddRoute_def assms(2,3) table_map_def Let_def)
  have upd: "fst (RoutingTable_Update e t) \<longleftrightarrow> table_map t d \<noteq> None"
    by (simp add: RoutingTable_Update_def assms(3) table_map_def)
  have st: "table_map (snd (SetEntryState a st t)) =
        (table_map t)(a := map_option (\<lambda>rt. rt\<lparr>rt_flag := st, rt_reqCount := 0\<rparr>) (table_map t a))"
    using omap.find_asg [OF m(1)]
    by (auto simp: SetEntryState_def table_map_def fun_eq_iff split: option.splits)
  have del: "fst (DeleteRoute now a t) \<longleftrightarrow> p a \<noteq> None" "table_map (snd (DeleteRoute now a t)) = p(a := None)"
    using omap.find_era [OF m(2)]
    by (auto simp: DeleteRoute_def assms(2) table_map_def Let_def fun_eq_iff)
  have st': "fst (SetEntryState a st t) \<longleftrightarrow> table_map t a \<noteq> None" "RoutingTable_wf (snd (SetEntryState a st t))"
    "RoutingTable_wf (snd (DeleteRoute now a t))"
    using RoutingTable_wf_SetEntryState [OF assms(1)] RoutingTable_wf_DeleteRoute [OF assms(1)]
    by (simp_all add: SetEntryState_def table_map_def split: option.split)
  have map_add: "table_map (snd (AddRoute now e t)) = (if p d = None then p(d \<mapsto> e') else p)"
    unfolding rt.raw_add [OF assms(1)] assms(2,3) e' by (simp split: option.splits)
  have map_upd: "table_map (snd (RoutingTable_Update e t))
      = (if table_map t d = None then table_map t else (table_map t)(d \<mapsto> e'))"
    unfolding rt.raw_upd [OF assms(1)] assms(3) e' by (simp split: option.splits)
  show ?thesis
    by (intro conjI add map_add upd map_upd st st' del rt.ok_add rt.ok_upd assms(1))
qed

theorem table_operations_refine_map_witness:
  "\<not> fst (AddRoute 10 (RoutingTableEntry_new 10 2 5 True 9 test_iface 1 6 10) test_table)"
  using table_operations_refine_map [OF test_table_wf refl refl refl,
      of 10 "RoutingTableEntry_new 10 2 5 True 9 test_iface 1 6 10" 0 VALID, THEN conjunct1]
  by (simp add: test_table_map table_map_Purge [OF test_table_wf] RoutingTableEntry_new_def GetDestinationOf_def
      age_entry_def GetLifeTime_def)

text \<open>A broken link invalidates exactly the right routes: \<open>GetListOfDestinationWithNextHop\<close> lists every
  destination of the purged table routed through the neighbour, with its sequence number, whatever
  its flag and precursors; passing that list to \<open>InvalidateRoutesWithDst\<close> leaves no valid route
  through the neighbour, gives each the bad link lifetime, leaves every other route as it was and
  increments no sequence number.\<close>

theorem broken_link_invalidation:
  assumes "RoutingTable_wf t" and "us = snd (GetListOfDestinationWithNextHop now hop t)"
    and "t1 = fst (GetListOfDestinationWithNextHop now hop t)"
    and "t2 = InvalidateRoutesWithDst now us t1"
  shows "map_of us a = Option.bind (table_map t1 a) (\<lambda>rt. if GetNextHop rt = hop then Some (rt_seqNo rt) else None)
    \<and> table_map t2 a = map_option (\<lambda>rt. if GetNextHop rt = hop \<and> rt_flag rt = VALID
        then rt\<lparr>rt_flag := INVALID, rt_reqCount := 0, rt_lifeTime := m_badLinkLifetime t + now\<rparr> else rt) (table_map t1 a)
    \<and> (\<forall>rt. table_map t2 a = Some rt \<longrightarrow> GetNextHop rt = hop \<longrightarrow> rt_flag rt \<noteq> VALID)"
proof -
  have t1: "t1 = RoutingTable_Purge now t"
    by (simp add: assms(3) GetListOfDestinationWithNextHop_def Let_def)
  have wf: "RoutingTable_wf t1" unfolding t1 by (rule RoutingTable_wf_Purge [OF assms(1)])
  let ?m = "m_ipv4AddressEntry t1"
  have ok: "map_ok ?m" using wf by (simp add: RoutingTable_wf_def)
  have us: "us = map (\<lambda>i. (fst i, rt_seqNo (snd i))) (filter (\<lambda>i. GetNextHop (snd i) = hop) ?m)"
    using fold_hops [of "[]" ?m "\<lambda>rt. GetNextHop rt = hop" rt_seqNo] ok t1
    by (simp add: assms(2) GetListOfDestinationWithNextHop_def Let_def)
  have list: "map_of us a = Option.bind (table_map t1 a) (\<lambda>rt. if GetNextHop rt = hop then Some (rt_seqNo rt) else None)"
    for a
    unfolding us table_map_def by (rule map_of_filter_map) (rule map_ok_distinct [OF ok])
  have dom: "a \<in> fst ` set us \<longleftrightarrow> (\<exists>rt. table_map t1 a = Some rt \<and> GetNextHop rt = hop)" for a
    using list [of a] by (cases "map_of us a") (auto simp: map_of_eq_None_iff split: Option.bind_splits if_splits
      dest: map_of_SomeD intro: rev_image_eqI)
  have inv: "table_map t2 a = map_option (\<lambda>rt. if GetNextHop rt = hop \<and> rt_flag rt = VALID
        then rt\<lparr>rt_flag := INVALID, rt_reqCount := 0, rt_lifeTime := m_badLinkLifetime t + now\<rparr> else rt) (table_map t1 a)"
    using table_map_Invalidate [OF wf, of now us a] rt.purge_twice [OF assms(1), of now] dom [of a]
    by (cases "table_map t1 a") (auto simp: assms(4) t1 RTable_Purge_frame Invalidate_def)
  have none: "rt_flag r \<noteq> VALID" if "table_map t2 a = Some r" "GetNextHop r = hop" for r
    using that inv by (cases "table_map t1 a") (auto simp: GetNextHop_def split: if_splits)
  from list inv none show ?thesis by blast
qed

theorem broken_link_invalidation_witness:
  "map_of (snd (GetListOfDestinationWithNextHop 5 4 test_table)) 5 = Some 7
   \<and> map_option rt_flag (table_map (InvalidateRoutesWithDst 5 (snd (GetListOfDestinationWithNextHop 5 4 test_table))
        (fst (GetListOfDestinationWithNextHop 5 4 test_table))) 5) = Some INVALID"
  using broken_link_invalidation [OF test_table_wf refl refl refl, of 5 4 5]
  by (simp add: GetListOfDestinationWithNextHop_def Let_def table_map_Purge [OF test_table_wf] test_table_map
      age_entry_def RoutingTableEntry_new_def GetLifeTime_def GetNextHop_def)

text \<open>The precursor list of an entry is a set: inserting refuses a known address.\<close>

lemma set_fold_precursors:
  "set (fold (\<lambda>i prec. if i \<in> set prec then prec else prec @ [i]) l prec) = set prec \<union> set l"
  by (induction l arbitrary: prec) auto

lemma distinct_fold_precursors:
  "distinct prec \<Longrightarrow> distinct (fold (\<lambda>i prec. if i \<in> set prec then prec else prec @ [i]) l prec)"
  by (induction l arbitrary: prec) auto

lemma fold_precursors_append:
  "\<exists>new. fold (\<lambda>i prec. if i \<in> set prec then prec else prec @ [i]) l prec = prec @ new"
proof (induction l arbitrary: prec)
  case (Cons i l)
  from Cons.IH [of "prec @ [i]"] Cons.IH [of prec] show ?case by auto
qed simp

text \<open>Precursors are collected as sets: \<open>InsertPrecursor\<close> and \<open>DeletePrecursor\<close> answer whether they
  changed the list, which stays free of duplicates, and \<open>GetPrecursors\<close> appends to the caller's
  vector exactly the entry's precursors that were missing, so that a vector filled from several
  entries names every receiver of a route error once.\<close>

theorem precursors_as_sets:
  assumes "distinct (rt_precursorList e)" and "distinct prec"
  shows "(fst (InsertPrecursor a e) \<longleftrightarrow> a \<notin> set (rt_precursorList e))
    \<and> set (rt_precursorList (snd (InsertPrecursor a e))) = insert a (set (rt_precursorList e))
    \<and> distinct (rt_precursorList (snd (InsertPrecursor a e)))
    \<and> (fst (DeletePrecursor a e) \<longleftrightarrow> a \<in> set (rt_precursorList e))
    \<and> set (rt_precursorList (snd (DeletePrecursor a e))) = set (rt_precursorList e) - {a}
    \<and> distinct (rt_precursorList (snd (DeletePrecursor a e)))
    \<and> (\<exists>new. GetPrecursors e prec = prec @ new \<and> set new = set (rt_precursorList e) - set prec
          \<and> distinct (prec @ new))"
proof -
  have len: "length (filter (\<lambda>x. x \<noteq> a) l) = length l \<longleftrightarrow> a \<notin> set l" for l
  proof (cases "a \<in> set l")
    case True
    then show ?thesis using length_filter_less [of a l "\<lambda>x. x \<noteq> a"] by simp
  next
    case False
    then have "filter (\<lambda>x. x \<noteq> a) l = l" by (auto simp: filter_id_conv)
    with False show ?thesis by simp
  qed
  obtain new where "GetPrecursors e prec = prec @ new"
    using fold_precursors_append [of "rt_precursorList e" prec]
    by (cases "IsPrecursorListEmpty e") (auto simp: GetPrecursors_def)
  moreover have "set (GetPrecursors e prec) = set prec \<union> set (rt_precursorList e)"
    "distinct (GetPrecursors e prec)"
    using assms(2)
    by (simp_all add: GetPrecursors_def IsPrecursorListEmpty_def set_fold_precursors
        distinct_fold_precursors)
  ultimately have "\<exists>new. GetPrecursors e prec = prec @ new \<and> set new = set (rt_precursorList e) - set prec
      \<and> distinct (prec @ new)"
    by (intro exI [of _ new]) auto
  then show ?thesis
    using assms(1)
    by (auto simp: InsertPrecursor_def LookupPrecursor_def DeletePrecursor_def len Let_def filter_id_conv)
qed

theorem precursors_as_sets_witness:
  "\<exists>new. GetPrecursors (snd (InsertPrecursor 3 ((RoutingTableEntry_new 0 1 5 True 7 test_iface 2 4 10)
      \<lparr>rt_precursorList := [8, 9]\<rparr>))) [9] = [9] @ new \<and> set new = {8, 3}"
  using precursors_as_sets [of "(RoutingTableEntry_new 0 1 5 True 7 test_iface 2 4 10)\<lparr>rt_precursorList := [8, 9, 3]\<rparr>" "[9]" 0]
  by (auto simp: InsertPrecursor_def LookupPrecursor_def)

text \<open>The blacklist never expires by itself: once \<open>MarkLinkAsUnidirectional\<close> marked a neighbour for
  some timeout, a lookup at any later time still finds the entry marked, however long after the
  timeout, as long as it finds the entry at all.\<close>

theorem blacklist_never_expires:
  assumes "RoutingTable_wf t" and "fst (MarkLinkAsUnidirectional n timeout t)"
    and "snd (LookupRoute now n (snd (MarkLinkAsUnidirectional n timeout t))) = Some rt"
  shows "rt_blackListState rt \<and> rt_blackListTimeout rt = timeout"
proof -
  from assms(2) obtain e where e: "table_map t n = Some e"
    by (auto simp: MarkLinkAsUnidirectional_def table_map_def split: option.splits)
  let ?e = "e\<lparr>rt_blackListState := True, rt_blackListTimeout := timeout, rt_reqCount := 0\<rparr>"
  let ?t = "snd (MarkLinkAsUnidirectional n timeout t)"
  have t: "?t = t\<lparr>m_ipv4AddressEntry := map_assign n ?e (m_ipv4AddressEntry t)\<rparr>"
    using e by (simp add: MarkLinkAsUnidirectional_def table_map_def)
  have "GetDestinationOf e = n"
    using map_of_SomeD [OF e [unfolded table_map_def]] assms(1) by (auto simp: RoutingTable_wf_def)
  then have wf: "RoutingTable_wf ?t"
    unfolding t using assms(1) by (intro RoutingTable_wf_assign) (simp_all add: GetDestinationOf_def)
  have "table_map ?t n = Some ?e"
    using assms(1) by (simp add: t table_map_def omap.find_asg RoutingTable_wf_def)
  then have "age_entry (m_badLinkLifetime ?t) now ?e = Some rt"
    using assms(3) by (simp add: table_map_Purge [OF wf])
  then show ?thesis using age_fields(7,8) [of _ now ?e rt] by simp
qed

theorem blacklist_never_expires_witness:
  "\<exists>rt. snd (LookupRoute 9 5 (snd (MarkLinkAsUnidirectional 5 1 test_table))) = Some rt \<and> rt_blackListState rt"
proof -
  have "fst (MarkLinkAsUnidirectional 5 1 test_table)" and
    "\<exists>rt. snd (LookupRoute 9 5 (snd (MarkLinkAsUnidirectional 5 1 test_table))) = Some rt"
    by (simp_all add: test_table_def AddRoute_def RoutingTable_new_def RoutingTable_Purge_simp
        RoutingTableEntry_new_def reset_rreq_def GetDestinationOf_def purge_entries_Cons age_entry_def
        MarkLinkAsUnidirectional_def LookupRoute_def GetLifeTime_def Let_def)
  then show ?thesis using blacklist_never_expires [OF test_table_wf, of 5 1 9] by blast
qed

end
