(* ===== verification/Neighbor.thy ===== *)
theory Neighbor
  imports Network Packet
begin

text \<open>
  \<open>model/aodv-neighbor.{h,cc}\<close>: the one-hop neighbours, each with the two-hop backbone neighbours it
  advertised. Pointers into the list are values here, and a method that changes the tuple it finds
  changes the first tuple with that address. The link failure callback is called with an address
  for each tuple an operation removes: an operation that may remove tuples returns those addresses
  in order, for the protocol to pass to \<open>SendRerrWhenBreaksLinkToNextHop\<close>. The size assertion of
  \<open>EraseNeighborTuple\<close> always holds below 65536 neighbours and is left out. The ARP caches are
  library objects: the argument \<open>arp\<close> looks an address up in a cache, giving the MAC address of an
  entry that is alive and not expired. \<open>None\<close> is a failed assertion or undefined behaviour.
\<close>

type_synonym mac48 = "48 word"
type_synonym arp_lookup = "nat \<Rightarrow> ipv4addr \<Rightarrow> mac48 option"

record NeighborTuple =
  neighborIfaceAddr :: ipv4addr
  m_hardwareAddress :: mac48
  m_expireTime :: time
  nt_close :: bool
  helloCounter :: u16
  sequenceNumber :: u16
  neighborWeight :: u32
  neighborNodeStatus :: NodeStatus
  neighborAssociatedCORE :: ipv4addr
  neighborcore_noncoreIndicator :: core_noncore_Indicator
  neighborClient :: bool
  neighborBnNeighbors :: MulticastBnNeighborSet

type_synonym NeighborSet = "NeighborTuple list"
type_synonym NeighborPair = "ipv4addr \<times> ipv4addr"
type_synonym Groups = "NeighborPair list"
type_synonym NeighborTriples = "(ipv4addr \<times> ipv4addr \<times> ipv4addr) list"
type_synonym AddressSet = "ipv4addr list"

text \<open>The comparisons of pairs and triples read the first address, equality of pairs both.\<close>

definition NeighborPair_lt :: "NeighborPair \<Rightarrow> NeighborPair \<Rightarrow> bool" where
  "NeighborPair_lt a b \<longleftrightarrow> fst a < fst b"

definition NeighborPair_gt :: "NeighborPair \<Rightarrow> NeighborPair \<Rightarrow> bool" where
  "NeighborPair_gt a b \<longleftrightarrow> fst a > fst b"

definition NeighborPair_eq :: "NeighborPair \<Rightarrow> NeighborPair \<Rightarrow> bool" where
  "NeighborPair_eq a b \<longleftrightarrow> fst a = fst b \<and> snd a = snd b"

definition NeighborTriple_lt :: "ipv4addr \<times> ipv4addr \<times> ipv4addr \<Rightarrow> ipv4addr \<times> ipv4addr \<times> ipv4addr \<Rightarrow> bool" where
  "NeighborTriple_lt a b \<longleftrightarrow> fst a < fst b"

definition NeighborTriple_gt :: "ipv4addr \<times> ipv4addr \<times> ipv4addr \<Rightarrow> ipv4addr \<times> ipv4addr \<times> ipv4addr \<Rightarrow> bool" where
  "NeighborTriple_gt a b \<longleftrightarrow> fst a > fst b"

definition Mac48Address_default :: mac48 where "Mac48Address_default = 0"

definition NeighborTuple_new :: "library \<Rightarrow> ipv4addr \<Rightarrow> mac48 \<Rightarrow> time \<Rightarrow> NeighborTuple" where
  "NeighborTuple_new L ip mac expire =
     \<lparr>neighborIfaceAddr = ip, m_hardwareAddress = mac, m_expireTime = expire, nt_close = False,
      helloCounter = 0, sequenceNumber = - 1, neighborWeight = 0, neighborNodeStatus = CORE,
      neighborAssociatedCORE = Ipv4Address_default L,
      neighborcore_noncoreIndicator = CONVERT_OTHER, neighborClient = False,
      neighborBnNeighbors = []\<rparr>"

definition NeighborTuple_eq :: "NeighborTuple \<Rightarrow> NeighborTuple \<Rightarrow> bool" where
  "NeighborTuple_eq a b \<longleftrightarrow> neighborIfaceAddr a = neighborIfaceAddr b
     \<and> neighborNodeStatus a = neighborNodeStatus b
     \<and> neighborcore_noncoreIndicator a = neighborcore_noncoreIndicator b"

definition NeighborTuple_gt :: "NeighborTuple \<Rightarrow> NeighborTuple \<Rightarrow> bool" where
  "NeighborTuple_gt a b =
     (if neighborWeight a > neighborWeight b then True
      else if neighborWeight a = neighborWeight b \<and> neighborcore_noncoreIndicator a = CONVERT_BREAK
              \<and> neighborcore_noncoreIndicator b \<noteq> CONVERT_BREAK then True
      else if neighborWeight a = neighborWeight b
              \<and> neighborcore_noncoreIndicator a = neighborcore_noncoreIndicator b
              \<and> neighborIfaceAddr a > neighborIfaceAddr b then True
      else False)"

definition NeighborTuple_lt :: "NeighborTuple \<Rightarrow> NeighborTuple \<Rightarrow> bool" where
  "NeighborTuple_lt a b =
     (if neighborWeight a < neighborWeight b then True
      else if neighborWeight a = neighborWeight b \<and> neighborcore_noncoreIndicator a = CONVERT_BREAK
              \<and> neighborcore_noncoreIndicator b \<noteq> CONVERT_BREAK then False
      else if neighborWeight a = neighborWeight b
              \<and> neighborcore_noncoreIndicator a = neighborcore_noncoreIndicator b
              \<and> neighborIfaceAddr a > neighborIfaceAddr b then False
      else True)"

section \<open>State and operations\<close>

text \<open>
  \<open>m_handleLinkFailure\<close> tells whether the callback is set; \<open>m_ntimer\<close> is the time the pending purge
  is due; \<open>m_arp\<close> lists the ARP caches.
\<close>

record Neighbors =
  localNeighborList :: NeighborSet
  m_handleLinkFailure :: bool
  m_ntimer_delay :: time
  m_ntimer :: "time option"
  m_minHello :: u32
  m_arp :: "nat list"

definition Neighbors_new :: "time \<Rightarrow> Neighbors" where
  "Neighbors_new delay = \<lparr>localNeighborList = [], m_handleLinkFailure = False,
     m_ntimer_delay = delay, m_ntimer = None, m_minHello = 0, m_arp = []\<rparr>"

definition Neighbors_SetCallback :: "Neighbors \<Rightarrow> Neighbors" where
  "Neighbors_SetCallback nb = nb\<lparr>m_handleLinkFailure := True\<rparr>"

definition Neighbors_SetMinHello :: "u32 \<Rightarrow> Neighbors \<Rightarrow> Neighbors" where
  "Neighbors_SetMinHello minHello nb = nb\<lparr>m_minHello := minHello\<rparr>"

definition CloseOneHopNeighbor :: "time \<Rightarrow> NeighborTuple \<Rightarrow> bool" where
  "CloseOneHopNeighbor now nt \<longleftrightarrow> m_expireTime nt < now \<or> nt_close nt"

definition CloseMulticastNeighbor :: "time \<Rightarrow> MulticastBnNeighborTuple \<Rightarrow> bool" where
  "CloseMulticastNeighbor now nt \<longleftrightarrow> twoHopBnNeighborTimeout nt < now"

definition Neighbors_ScheduleTimer :: "time \<Rightarrow> Neighbors \<Rightarrow> Neighbors" where
  "Neighbors_ScheduleTimer now nb = nb\<lparr>m_ntimer := Some (now + m_ntimer_delay nb)\<rparr>"

text \<open>
  The loop of \<open>Purge\<close> over the old list: the new list gets a copy of a live tuple before the old
  tuple's two-hop list is pruned, and the old list is dropped afterwards.
\<close>

fun purge_loop ::
  "time \<Rightarrow> NeighborSet \<Rightarrow> NeighborSet \<Rightarrow> ipv4addr list \<Rightarrow> NeighborSet \<times> NeighborSet \<times> ipv4addr list" where
  "purge_loop now [] newset failed = (newset, [], failed)"
| "purge_loop now (j # js) newset failed =
     (if CloseOneHopNeighbor now j then
        (case purge_loop now js newset (failed @ [neighborIfaceAddr j]) of
           (newset, old, failed) \<Rightarrow> (newset, j # old, failed))
      else
        (let newset = newset @ [j];
             j = (if neighborBnNeighbors j \<noteq> []
                  then j\<lparr>neighborBnNeighbors :=
                         filter (\<lambda>x. \<not> CloseMulticastNeighbor now x) (neighborBnNeighbors j)\<rparr>
                  else j)
         in case purge_loop now js newset failed of
              (newset, old, failed) \<Rightarrow> (newset, j # old, failed)))"

definition Neighbors_Purge :: "time \<Rightarrow> Neighbors \<Rightarrow> Neighbors \<times> ipv4addr list" where
  "Neighbors_Purge now nb =
     (if localNeighborList nb = [] then (nb, [])
      else let (newset, old, failed) =
                 (if m_handleLinkFailure nb then purge_loop now (localNeighborList nb) [] []
                  else ([], localNeighborList nb, []))
           in (Neighbors_ScheduleTimer now (nb\<lparr>localNeighborList := newset\<rparr>), failed))"

definition Neighbors_IsNeighbor :: "time \<Rightarrow> ipv4addr \<Rightarrow> Neighbors \<Rightarrow> bool \<times> Neighbors \<times> ipv4addr list" where
  "Neighbors_IsNeighbor now addr nb =
     (let (nb, failed) = Neighbors_Purge now nb
      in (\<exists>i\<in>set (localNeighborList nb). neighborIfaceAddr i = addr, nb, failed))"

definition FindNeighborTuple :: "ipv4addr \<Rightarrow> Neighbors \<Rightarrow> NeighborTuple option" where
  "FindNeighborTuple a nb = List.find (\<lambda>nt. neighborIfaceAddr nt = a) (localNeighborList nb)"

definition Neighbors_GetExpireTime :: "time \<Rightarrow> ipv4addr \<Rightarrow> Neighbors \<Rightarrow> time \<times> Neighbors \<times> ipv4addr list" where
  "Neighbors_GetExpireTime now addr nb =
     (let (nb, failed) = Neighbors_Purge now nb
      in (case List.find (\<lambda>i. neighborIfaceAddr i = addr) (localNeighborList nb) of
            Some i \<Rightarrow> m_expireTime i - now
          | None \<Rightarrow> 0, nb, failed))"

fun LookupMacAddress :: "arp_lookup \<Rightarrow> nat list \<Rightarrow> ipv4addr \<Rightarrow> mac48" where
  "LookupMacAddress arp [] addr = Mac48Address_default"
| "LookupMacAddress arp (i # is) addr =
     (case arp i addr of Some mac \<Rightarrow> mac | None \<Rightarrow> LookupMacAddress arp is addr)"

text \<open>Changing the first tuple with an address, through the pointer \<open>FindNeighborTuple\<close> returns.\<close>

fun modify_first :: "ipv4addr \<Rightarrow> (NeighborTuple \<Rightarrow> NeighborTuple) \<Rightarrow> NeighborSet \<Rightarrow> NeighborSet" where
  "modify_first a f [] = []"
| "modify_first a f (nt # nts) =
     (if neighborIfaceAddr nt = a then f nt # nts else nt # modify_first a f nts)"

definition Neighbors_Update ::
  "library \<Rightarrow> arp_lookup \<Rightarrow> time \<Rightarrow> ipv4addr \<Rightarrow> time \<Rightarrow> Neighbors \<Rightarrow> Neighbors \<times> ipv4addr list" where
  "Neighbors_Update L arp now addr expire nb =
     (if FindNeighborTuple addr nb \<noteq> None then
        (nb\<lparr>localNeighborList := modify_first addr
              (\<lambda>i. let i = i\<lparr>m_expireTime := max (expire + now) (m_expireTime i)\<rparr>
                   in if m_hardwareAddress i = Mac48Address_default
                      then i\<lparr>m_hardwareAddress := LookupMacAddress arp (m_arp nb) (neighborIfaceAddr i)\<rparr>
                      else i)
              (localNeighborList nb)\<rparr>, [])
      else
        let neighbor = NeighborTuple_new L addr (LookupMacAddress arp (m_arp nb) addr) (expire + now)
        in Neighbors_Purge now (nb\<lparr>localNeighborList := localNeighborList nb @ [neighbor]\<rparr>))"

fun erase_neighbor :: "ipv4addr \<Rightarrow> NeighborSet \<Rightarrow> NeighborSet" where
  "erase_neighbor a [] = []"
| "erase_neighbor a (nt # nts) = (if neighborIfaceAddr nt = a then nts else nt # erase_neighbor a nts)"

definition EraseNeighborTuple :: "ipv4addr \<Rightarrow> Neighbors \<Rightarrow> Neighbors" where
  "EraseNeighborTuple a nb = nb\<lparr>localNeighborList := erase_neighbor a (localNeighborList nb)\<rparr>"

definition InsertNeighborTuple :: "NeighborTuple \<Rightarrow> Neighbors \<Rightarrow> Neighbors" where
  "InsertNeighborTuple t nb =
     (let nb = EraseNeighborTuple (neighborIfaceAddr t) nb
      in nb\<lparr>localNeighborList := sort_key neighborIfaceAddr (localNeighborList nb @ [t])\<rparr>)"

definition UpdateNeighborTuple ::
  "library \<Rightarrow> time \<Rightarrow> HelloHeader \<Rightarrow> bool \<Rightarrow> Neighbors \<Rightarrow> Neighbors" where
  "UpdateNeighborTuple L now helloHeader helloClient nb =
     (let orig = m_nodeIdentifier helloHeader;
          nb = (if FindNeighborTuple orig nb = None
                then InsertNeighborTuple ((NeighborTuple_new L orig Mac48Address_default now)
                       \<lparr>sequenceNumber := m_helloSequenceNumber helloHeader\<rparr>) nb
                else nb)
      in nb\<lparr>localNeighborList := modify_first orig
           (\<lambda>tp. tp\<lparr>helloCounter := helloCounter tp + 1,
                    sequenceNumber := m_helloSequenceNumber helloHeader,
                    neighborAssociatedCORE := m_associatedBnIdentifier helloHeader,
                    neighborWeight := m_weightValue helloHeader,
                    neighborNodeStatus := m_nodeStatus helloHeader,
                    neighborcore_noncoreIndicator := m_bnBcnIndicator helloHeader,
                    neighborClient := helloClient\<rparr>) (localNeighborList nb)\<rparr>)"

definition UpdateMulticastNeighborTuple ::
  "time \<Rightarrow> HelloHeader \<Rightarrow> time \<Rightarrow> Neighbors \<Rightarrow> Neighbors option" where
  "UpdateMulticastNeighborTuple now helloMessage nextTime nb =
     (if FindNeighborTuple (m_nodeIdentifier helloMessage) nb = None then None
      else let nextTime = nextTime + now;
               l = map (twoHopBnNeighborTimeout_update (\<lambda>_. nextTime)) (m_MulticastBnNeighbors helloMessage)
           in Some (nb\<lparr>localNeighborList := modify_first (m_nodeIdentifier helloMessage)
                (neighborBnNeighbors_update (\<lambda>_. sort_key twoHopBnNeighborIfaceAddr l))
                (localNeighborList nb)\<rparr>))"

definition FindMulticastBnNeighborTuple ::
  "ipv4addr \<Rightarrow> ipv4addr \<Rightarrow> Neighbors \<Rightarrow> MulticastBnNeighborTuple option" where
  "FindMulticastBnNeighborTuple oneHop twoHop nb =
     (case FindNeighborTuple oneHop nb of
        None \<Rightarrow> None
      | Some n \<Rightarrow> List.find (\<lambda>nt. twoHopBnNeighborIfaceAddr nt = twoHop) (neighborBnNeighbors n))"

definition FindMulticastBnNeighborTuple_any ::
  "ipv4addr \<Rightarrow> Neighbors \<Rightarrow> MulticastBnNeighborTuple option" where
  "FindMulticastBnNeighborTuple_any twoHop nb =
     List.find (\<lambda>nt. twoHopBnNeighborIfaceAddr nt = twoHop)
       (concat (map neighborBnNeighbors (localNeighborList nb)))"

text \<open>
  The erasing loop advances the iterator \<open>erase\<close> returned: it skips the next element, runs past
  the end when the last element is erased, and its assertion fails on a second match.
\<close>

fun erase_bn :: "ipv4addr \<Rightarrow> bool \<Rightarrow> MulticastBnNeighborSet \<Rightarrow> MulticastBnNeighborSet option" where
  "erase_bn a erased [] = Some []"
| "erase_bn a erased (t # ts) =
     (if twoHopBnNeighborIfaceAddr t = a then
        (if erased then None
         else case ts of [] \<Rightarrow> None | u # us \<Rightarrow> map_option ((#) u) (erase_bn a True us))
      else map_option ((#) t) (erase_bn a erased ts))"

definition EraseMulticastBnNeighborTuple ::
  "ipv4addr \<Rightarrow> ipv4addr \<Rightarrow> Neighbors \<Rightarrow> Neighbors option" where
  "EraseMulticastBnNeighborTuple oneHop twoHop nb =
     (case FindNeighborTuple oneHop nb of
        None \<Rightarrow> None
      | Some n \<Rightarrow> map_option (\<lambda>l. nb\<lparr>localNeighborList :=
            modify_first oneHop (neighborBnNeighbors_update (\<lambda>_. l)) (localNeighborList nb)\<rparr>)
          (erase_bn twoHop False (neighborBnNeighbors n)))"

definition GetBnNeighbors :: "Neighbors \<Rightarrow> MulticastBnNeighborSet" where
  "GetBnNeighbors nb =
     sort_key twoHopBnNeighborIfaceAddr
       (map (\<lambda>ns. MulticastBnNeighborTuple_new (neighborIfaceAddr ns) (neighborWeight ns)
                    (neighborcore_noncoreIndicator ns) (m_expireTime ns))
          (filter (\<lambda>ns. neighborNodeStatus ns = NEIGH_NODE) (localNeighborList nb)))"

definition GetNeighborhoodSize_of :: "NodeStatus \<Rightarrow> Neighbors \<Rightarrow> u32" where
  "GetNeighborhoodSize_of st nb =
     of_nat (length (filter (\<lambda>nt. neighborNodeStatus nt = st) (localNeighborList nb)))"

definition GetNeighborhoodSize :: "Neighbors \<Rightarrow> u32" where
  "GetNeighborhoodSize nb = of_nat (length (localNeighborList nb))"

definition best_of :: "NodeStatus \<Rightarrow> NeighborTuple \<Rightarrow> NeighborTuple option \<Rightarrow> NeighborTuple option" where
  "best_of st nt best =
     (if neighborNodeStatus nt = st \<and> (case best of None \<Rightarrow> True | Some b \<Rightarrow> NeighborTuple_gt nt b)
      then Some nt else best)"

definition GetBestNeighbor :: "NodeStatus \<Rightarrow> Neighbors \<Rightarrow> NeighborTuple option" where
  "GetBestNeighbor st nb = fold (best_of st) (localNeighborList nb) None"

definition GetOneHopNeighbors :: "NodeStatus \<Rightarrow> Neighbors \<Rightarrow> NeighborSet" where
  "GetOneHopNeighbors st nb = filter (\<lambda>nt. neighborNodeStatus nt = st) (localNeighborList nb)"

definition GetClients_of :: "NodeStatus \<Rightarrow> Neighbors \<Rightarrow> NeighborSet" where
  "GetClients_of st nb = filter (\<lambda>nt. neighborClient nt \<and> neighborNodeStatus nt = st) (localNeighborList nb)"

definition GetClients :: "Neighbors \<Rightarrow> NeighborSet" where
  "GetClients nb = filter neighborClient (localNeighborList nb)"

definition GetMulticastNeighbors :: "ipv4addr \<Rightarrow> Neighbors \<Rightarrow> AddressSet option" where
  "GetMulticastNeighbors a nb =
     (case FindNeighborTuple a nb of
        None \<Rightarrow> None
      | Some n \<Rightarrow> Some (sort (map twoHopBnNeighborIfaceAddr (neighborBnNeighbors n))))"

definition Intersection :: "AddressSet \<Rightarrow> AddressSet \<Rightarrow> AddressSet" where
  "Intersection set1 set2 = concat (map (\<lambda>one. map (\<lambda>_. one) (filter (\<lambda>two. one = two) set2)) set1)"

definition Intersection_addr :: "AddressSet \<Rightarrow> ipv4addr \<Rightarrow> AddressSet" where
  "Intersection_addr set1 address = filter (\<lambda>one. one = address) set1"

definition Are1HopNeighbors :: "ipv4addr \<Rightarrow> ipv4addr \<Rightarrow> Neighbors \<Rightarrow> bool option" where
  "Are1HopNeighbors v w nb = do {
     bnv \<leftarrow> GetMulticastNeighbors v nb;
     bnw \<leftarrow> GetMulticastNeighbors w nb;
     Some (\<not> (Intersection_addr bnv w = [] \<and> Intersection_addr bnw v = []))
   }"

definition Are2HopNeighbors :: "ipv4addr \<Rightarrow> ipv4addr \<Rightarrow> Neighbors \<Rightarrow> bool option" where
  "Are2HopNeighbors v w nb = do {
     vset \<leftarrow> GetMulticastNeighbors v nb;
     wset \<leftarrow> GetMulticastNeighbors w nb;
     Some (Intersection vset wset \<noteq> [])
   }"

text \<open>
  With the same status twice, the inner loop starts from an iterator of one copy of the list and
  runs to the end of the other copy: undefined as soon as the list has an element.
\<close>

definition GetOneHopPairs :: "NodeStatus \<Rightarrow> NodeStatus \<Rightarrow> Neighbors \<Rightarrow> Groups option" where
  "GetOneHopPairs set1 set2 nb =
     (let nodeset1 = GetOneHopNeighbors set1 nb;
          nodeset2 = GetOneHopNeighbors set2 nb
      in if set1 = set2 \<and> nodeset1 \<noteq> [] then None
         else Some (concat (map (\<lambda>bn1. map (\<lambda>bn2. (neighborIfaceAddr bn1, neighborIfaceAddr bn2))
                     (filter (\<lambda>bn2. neighborIfaceAddr bn1 \<noteq> neighborIfaceAddr bn2) nodeset2)) nodeset1)))"

definition GetCommonBN :: "NeighborPair \<Rightarrow> Neighbors \<Rightarrow> AddressSet option" where
  "GetCommonBN bn_pair nb = do {
     node_v \<leftarrow> GetMulticastNeighbors (fst bn_pair) nb;
     node_w \<leftarrow> GetMulticastNeighbors (snd bn_pair) nb;
     Some (Intersection node_v node_w)
   }"

definition Neighbors_ResetHelloCounter :: "Neighbors \<Rightarrow> Neighbors" where
  "Neighbors_ResetHelloCounter nb =
     nb\<lparr>localNeighborList := map (helloCounter_update (\<lambda>_. 0)) (localNeighborList nb)\<rparr>"

definition few_hellos :: "Neighbors \<Rightarrow> NeighborTuple \<Rightarrow> bool" where
  "few_hellos nb j \<longleftrightarrow> ucast (helloCounter j) < m_minHello nb"

definition Neighbors_PurgeHello :: "Neighbors \<Rightarrow> Neighbors \<times> ipv4addr list" where
  "Neighbors_PurgeHello nb =
     (if localNeighborList nb = [] then (nb, [])
      else if m_handleLinkFailure nb
      then (nb\<lparr>localNeighborList := filter (\<lambda>j. \<not> few_hellos nb j) (localNeighborList nb)\<rparr>,
            map neighborIfaceAddr (filter (few_hellos nb) (localNeighborList nb)))
      else (nb\<lparr>localNeighborList := []\<rparr>, []))"

definition Neighbors_Clear :: "Neighbors \<Rightarrow> Neighbors" where
  "Neighbors_Clear nb = nb\<lparr>localNeighborList := []\<rparr>"

definition AddArpCache :: "nat \<Rightarrow> Neighbors \<Rightarrow> Neighbors" where
  "AddArpCache a nb = nb\<lparr>m_arp := m_arp nb @ [a]\<rparr>"

definition DelArpCache :: "nat \<Rightarrow> Neighbors \<Rightarrow> Neighbors" where
  "DelArpCache a nb = nb\<lparr>m_arp := filter (\<lambda>x. x \<noteq> a) (m_arp nb)\<rparr>"

definition ProcessTxError :: "time \<Rightarrow> mac48 \<Rightarrow> Neighbors \<Rightarrow> Neighbors \<times> ipv4addr list" where
  "ProcessTxError now addr nb =
     Neighbors_Purge now (nb\<lparr>localNeighborList :=
       map (\<lambda>i. if m_hardwareAddress i = addr then i\<lparr>nt_close := True\<rparr> else i) (localNeighborList nb)\<rparr>)"

end
