(* ===== verification/Neighbor_Correct.thy ===== *)
theory Neighbor_Correct
  imports Neighbor
begin

text \<open>
  The lemmas and properties of the neighbour list: its invariant (one tuple per address, two-hop
  lists sorted by address), what each operation does to the lookup of an address, expiry, hello
  counting, the choice of the best neighbour and the two-hop tests.
\<close>

section \<open>Expiry\<close>

interpretation one_hop: expiring CloseOneHopNeighbor
  by unfold_locales (auto simp: CloseOneHopNeighbor_def)

interpretation two_hop: expiring CloseMulticastNeighbor
  by unfold_locales (auto simp: CloseMulticastNeighbor_def)

lemma purge_loop_eq:
  "\<exists>old. purge_loop now js ns fs = (ns @ filter (\<lambda>j. \<not> CloseOneHopNeighbor now j) js, old,
     fs @ map neighborIfaceAddr (filter (CloseOneHopNeighbor now) js))"
proof (induction js arbitrary: ns fs)
  case (Cons j js)
  show ?case
  proof (cases "CloseOneHopNeighbor now j")
    case True
    with Cons.IH [of ns "fs @ [neighborIfaceAddr j]"] show ?thesis by auto
  next
    case False
    with Cons.IH [of "ns @ [j]" fs] show ?thesis by (auto simp: Let_def)
  qed
qed simp

lemma Neighbors_Purge_eq:
  assumes "m_handleLinkFailure nb"
  shows "Neighbors_Purge now nb =
    (if localNeighborList nb = [] then (nb, [])
     else (nb\<lparr>localNeighborList := filter (\<lambda>j. \<not> CloseOneHopNeighbor now j) (localNeighborList nb),
              m_ntimer := Some (now + m_ntimer_delay nb)\<rparr>,
           map neighborIfaceAddr (filter (CloseOneHopNeighbor now) (localNeighborList nb))))"
proof -
  obtain old where "purge_loop now (localNeighborList nb) [] [] =
      (filter (\<lambda>j. \<not> CloseOneHopNeighbor now j) (localNeighborList nb), old,
       map neighborIfaceAddr (filter (CloseOneHopNeighbor now) (localNeighborList nb)))"
    using purge_loop_eq [of now "localNeighborList nb" "[]" "[]"] by auto
  then show ?thesis using assms by (simp add: Neighbors_Purge_def Neighbors_ScheduleTimer_def)
qed

lemma Purge_list:
  "m_handleLinkFailure nb \<Longrightarrow>
   localNeighborList (fst (Neighbors_Purge now nb))
   = filter (\<lambda>j. \<not> CloseOneHopNeighbor now j) (localNeighborList nb)"
  by (simp add: Neighbors_Purge_eq)

lemma Purge_failed:
  "m_handleLinkFailure nb \<Longrightarrow>
   snd (Neighbors_Purge now nb) = map neighborIfaceAddr (filter (CloseOneHopNeighbor now) (localNeighborList nb))"
  by (simp add: Neighbors_Purge_eq)

lemma Purge_frame [frame_simps]:
  "m_handleLinkFailure (fst (Neighbors_Purge now nb)) = m_handleLinkFailure nb"
  "m_minHello (fst (Neighbors_Purge now nb)) = m_minHello nb"
  "m_arp (fst (Neighbors_Purge now nb)) = m_arp nb"
  "m_ntimer_delay (fst (Neighbors_Purge now nb)) = m_ntimer_delay nb"
  by (simp_all add: Neighbors_Purge_def Neighbors_ScheduleTimer_def Let_def split: prod.splits)

section \<open>The invariant\<close>

definition Neighbors_wf :: "Neighbors \<Rightarrow> bool" where
  "Neighbors_wf nb \<longleftrightarrow> m_handleLinkFailure nb \<and> distinct (map neighborIfaceAddr (localNeighborList nb))
     \<and> (\<forall>nt\<in>set (localNeighborList nb). sorted (map twoHopBnNeighborIfaceAddr (neighborBnNeighbors nt)))"

lemma set_modify_first:
  "distinct (map neighborIfaceAddr nts) \<Longrightarrow>
   set (modify_first a f nts) = (\<lambda>nt. if neighborIfaceAddr nt = a then f nt else nt) ` set nts"
proof (induction nts)
  case (Cons nt nts)
  show ?case
  proof (cases "neighborIfaceAddr nt = a")
    case True
    then have "\<forall>x\<in>set nts. neighborIfaceAddr x \<noteq> a" using distinct_key_neq [OF Cons.prems] by simp
    then have "(\<lambda>nt. if neighborIfaceAddr nt = a then f nt else nt) ` set nts = set nts"
      by (auto simp: image_iff)
    with True show ?thesis by simp
  qed (use Cons in auto)
qed simp

lemma map_modify_first [simp]:
  "(\<And>nt. neighborIfaceAddr (f nt) = neighborIfaceAddr nt) \<Longrightarrow>
   map neighborIfaceAddr (modify_first a f nts) = map neighborIfaceAddr nts"
  by (induction nts) auto

lemma find_modify_first:
  "(\<And>nt. neighborIfaceAddr (f nt) = neighborIfaceAddr nt) \<Longrightarrow>
   List.find (\<lambda>nt. neighborIfaceAddr nt = b) (modify_first a f nts)
   = (if b = a then map_option f (List.find (\<lambda>nt. neighborIfaceAddr nt = a) nts)
      else List.find (\<lambda>nt. neighborIfaceAddr nt = b) nts)"
  by (induction nts) auto

lemma erase_neighbor_eq:
  "distinct (map neighborIfaceAddr nts) \<Longrightarrow>
   erase_neighbor a nts = filter (\<lambda>nt. neighborIfaceAddr nt \<noteq> a) nts"
proof (induction nts)
  case (Cons nt nts)
  have "filter (\<lambda>x. neighborIfaceAddr x \<noteq> neighborIfaceAddr nt) nts = nts"
    using distinct_key_neq [OF Cons.prems] by (simp add: filter_id_conv)
  with Cons show ?case by auto
qed simp

lemma find_sort_key:
  assumes "distinct (map neighborIfaceAddr nts)"
  shows "List.find (\<lambda>nt. neighborIfaceAddr nt = a) (sort_key neighborIfaceAddr nts)
    = List.find (\<lambda>nt. neighborIfaceAddr nt = a) nts"
proof (cases "List.find (\<lambda>nt. neighborIfaceAddr nt = a) nts")
  case None
  then have "a \<notin> neighborIfaceAddr ` set (sort_key neighborIfaceAddr nts)" by (simp add: find_key_None)
  then have "List.find (\<lambda>nt. neighborIfaceAddr nt = a) (sort_key neighborIfaceAddr nts) = None"
    by (simp only: find_key_None not_False_eq_True)
  with None show ?thesis by simp
next
  case (Some x)
  then have "x \<in> set (sort_key neighborIfaceAddr nts)" "neighborIfaceAddr x = a"
    using find_Some_mem [OF Some] by simp_all
  moreover have "distinct (map neighborIfaceAddr (sort_key neighborIfaceAddr nts))"
    using assms by (simp only: distinct_sort_key_map)
  ultimately show ?thesis using Some find_distinct [of neighborIfaceAddr _ x] by simp
qed

lemma find_append:
  "List.find P (xs @ ys) = (case List.find P xs of None \<Rightarrow> List.find P ys | Some x \<Rightarrow> Some x)"
  by (induction xs) auto

lemma find_filter_distinct:
  "distinct (map neighborIfaceAddr nts) \<Longrightarrow>
   List.find (\<lambda>nt. neighborIfaceAddr nt = a) (filter P nts)
   = (case List.find (\<lambda>nt. neighborIfaceAddr nt = a) nts of
        None \<Rightarrow> None | Some x \<Rightarrow> if P x then Some x else None)"
proof (induction nts)
  case (Cons nt nts)
  have "List.find (\<lambda>x. neighborIfaceAddr x = neighborIfaceAddr nt) (filter P nts) = None"
    using Cons.prems by (auto simp: find_key_None)
  with Cons show ?case by auto
qed simp

lemma find_insert:
  assumes "distinct (map neighborIfaceAddr (localNeighborList nb))"
  shows "FindNeighborTuple a (InsertNeighborTuple t nb)
      = (if a = neighborIfaceAddr t then Some t else FindNeighborTuple a nb)"
    and "distinct (map neighborIfaceAddr (localNeighborList (InsertNeighborTuple t nb)))"
    and "set (localNeighborList (InsertNeighborTuple t nb))
      = insert t {x \<in> set (localNeighborList nb). neighborIfaceAddr x \<noteq> neighborIfaceAddr t}"
proof -
  let ?l = "filter (\<lambda>nt. neighborIfaceAddr nt \<noteq> neighborIfaceAddr t) (localNeighborList nb)"
  have l: "localNeighborList (InsertNeighborTuple t nb) = sort_key neighborIfaceAddr (?l @ [t])"
    using assms by (simp add: InsertNeighborTuple_def EraseNeighborTuple_def erase_neighbor_eq)
  have d: "distinct (map neighborIfaceAddr (?l @ [t]))"
    using assms by (auto simp: distinct_map_filter)
  show "distinct (map neighborIfaceAddr (localNeighborList (InsertNeighborTuple t nb)))"
    unfolding l distinct_sort_key_map by (rule d)
  show "FindNeighborTuple a (InsertNeighborTuple t nb)
      = (if a = neighborIfaceAddr t then Some t else FindNeighborTuple a nb)"
    unfolding FindNeighborTuple_def l find_sort_key [OF d] find_append find_filter_distinct [OF assms]
    by (auto split: option.splits dest: find_Some_mem)
  show "set (localNeighborList (InsertNeighborTuple t nb))
      = insert t {x \<in> set (localNeighborList nb). neighborIfaceAddr x \<noteq> neighborIfaceAddr t}"
    unfolding l by auto
qed

lemma Purge_wf: "Neighbors_wf nb \<Longrightarrow> Neighbors_wf (fst (Neighbors_Purge now nb))"
  by (simp add: Neighbors_wf_def Neighbors_Purge_eq distinct_map_filter)

lemma modify_wf:
  assumes "Neighbors_wf nb" "\<And>nt. neighborIfaceAddr (f nt) = neighborIfaceAddr nt"
    and "\<And>nt. sorted (map twoHopBnNeighborIfaceAddr (neighborBnNeighbors nt)) \<Longrightarrow>
      sorted (map twoHopBnNeighborIfaceAddr (neighborBnNeighbors (f nt)))"
  shows "Neighbors_wf (nb\<lparr>localNeighborList := modify_first a f (localNeighborList nb)\<rparr>)"
  using assms by (auto simp: Neighbors_wf_def set_modify_first)

lemma find_None_notin: "FindNeighborTuple a nb = None \<longleftrightarrow> a \<notin> neighborIfaceAddr ` set (localNeighborList nb)"
  by (simp add: FindNeighborTuple_def find_key_None)

lemma Update_wf:
  assumes "Neighbors_wf nb"
  shows "Neighbors_wf (fst (Neighbors_Update L arp now a e nb))"
proof (cases "FindNeighborTuple a nb = None")
  case True
  then have "Neighbors_wf (nb\<lparr>localNeighborList := localNeighborList nb
      @ [NeighborTuple_new L a (LookupMacAddress arp (m_arp nb) a) (e + now)]\<rparr>)"
    using assms by (auto simp: Neighbors_wf_def NeighborTuple_new_def find_None_notin)
  from Purge_wf [OF this] True show ?thesis by (simp add: Neighbors_Update_def Let_def)
next
  case False
  then show ?thesis
    using assms by (auto simp: Neighbors_Update_def Let_def intro!: modify_wf)
qed

lemma UpdateNeighborTuple_wf:
  assumes "Neighbors_wf nb"
  shows "Neighbors_wf (UpdateNeighborTuple L now h c nb)"
proof -
  have "Neighbors_wf (InsertNeighborTuple t nb)" if "neighborBnNeighbors t = []" for t
    using assms that find_insert(2,3) [of nb t]
    by (auto simp: Neighbors_wf_def InsertNeighborTuple_def EraseNeighborTuple_def Let_def)
  then show ?thesis
    using assms
    by (auto simp: UpdateNeighborTuple_def Let_def NeighborTuple_new_def intro!: modify_wf)
qed

lemma UpdateMulticast_wf:
  assumes "Neighbors_wf nb" "UpdateMulticastNeighborTuple now h t nb = Some nb'"
  shows "Neighbors_wf nb'"
  using assms
  by (auto simp: UpdateMulticastNeighborTuple_def Let_def split: if_splits intro!: modify_wf)

lemma PurgeHello_wf: "Neighbors_wf nb \<Longrightarrow> Neighbors_wf (fst (Neighbors_PurgeHello nb))"
  by (simp add: Neighbors_wf_def Neighbors_PurgeHello_def distinct_map_filter)

lemma ResetHello_wf: "Neighbors_wf nb \<Longrightarrow> Neighbors_wf (Neighbors_ResetHelloCounter nb)"
  by (simp add: Neighbors_wf_def Neighbors_ResetHelloCounter_def comp_def)

lemma TxError_wf: "Neighbors_wf nb \<Longrightarrow> Neighbors_wf (fst (ProcessTxError now mac nb))"
  unfolding ProcessTxError_def
  by (rule Purge_wf) (auto simp: Neighbors_wf_def comp_def if_distrib [of neighborIfaceAddr] cong: if_cong)

lemma Clear_wf: "Neighbors_wf nb \<Longrightarrow> Neighbors_wf (Neighbors_Clear nb)"
  by (simp add: Neighbors_wf_def Neighbors_Clear_def)

lemmas neighbors_wf = Purge_wf Update_wf UpdateNeighborTuple_wf UpdateMulticast_wf PurgeHello_wf
  ResetHello_wf TxError_wf Clear_wf

section \<open>Lookups after each operation\<close>

lemma find_Purge [nb_simps]:
  "Neighbors_wf nb \<Longrightarrow> FindNeighborTuple a (fst (Neighbors_Purge now nb))
   = (case FindNeighborTuple a nb of None \<Rightarrow> None
      | Some nt \<Rightarrow> if CloseOneHopNeighbor now nt then None else Some nt)"
  by (auto simp: FindNeighborTuple_def Neighbors_wf_def Purge_list find_filter_distinct split: option.splits)

definition refresh :: "arp_lookup \<Rightarrow> nat list \<Rightarrow> time \<Rightarrow> NeighborTuple \<Rightarrow> NeighborTuple" where
  "refresh arp caches t i =
     (let i = i\<lparr>m_expireTime := max t (m_expireTime i)\<rparr>
      in if m_hardwareAddress i = Mac48Address_default
         then i\<lparr>m_hardwareAddress := LookupMacAddress arp caches (neighborIfaceAddr i)\<rparr> else i)"

lemma refresh_fields [simp]:
  "neighborIfaceAddr (refresh arp cs t i) = neighborIfaceAddr i"
  "m_expireTime (refresh arp cs t i) = max t (m_expireTime i)"
  "neighborNodeStatus (refresh arp cs t i) = neighborNodeStatus i"
  "neighborClient (refresh arp cs t i) = neighborClient i"
  "neighborWeight (refresh arp cs t i) = neighborWeight i"
  "neighborAssociatedCORE (refresh arp cs t i) = neighborAssociatedCORE i"
  "neighborcore_noncoreIndicator (refresh arp cs t i) = neighborcore_noncoreIndicator i"
  "helloCounter (refresh arp cs t i) = helloCounter i"
  "sequenceNumber (refresh arp cs t i) = sequenceNumber i"
  "neighborBnNeighbors (refresh arp cs t i) = neighborBnNeighbors i"
  "nt_close (refresh arp cs t i) = nt_close i"
  by (simp_all add: refresh_def Let_def)

lemma find_Update_known [nb_simps]:
  assumes "FindNeighborTuple a nb = Some nt"
  shows "FindNeighborTuple b (fst (Neighbors_Update L arp now a e nb))
      = (if b = a then Some (refresh arp (m_arp nb) (e + now) nt) else FindNeighborTuple b nb)"
    and "snd (Neighbors_Update L arp now a e nb) = []"
  using assms
  by (auto simp: Neighbors_Update_def FindNeighborTuple_def find_modify_first refresh_def Let_def)

lemma find_UpdateNeighborTuple [nb_simps]:
  assumes "Neighbors_wf nb"
  shows "FindNeighborTuple b (UpdateNeighborTuple L now h c nb) =
    (if b = m_nodeIdentifier h
     then (let tp = (case FindNeighborTuple b nb of Some tp \<Rightarrow> tp
                     | None \<Rightarrow> (NeighborTuple_new L b Mac48Address_default now)\<lparr>sequenceNumber := m_helloSequenceNumber h\<rparr>)
           in Some (tp\<lparr>helloCounter := helloCounter tp + 1,
                    sequenceNumber := m_helloSequenceNumber h,
                    neighborAssociatedCORE := m_associatedBnIdentifier h,
                    neighborWeight := m_weightValue h,
                    neighborNodeStatus := m_nodeStatus h,
                    neighborcore_noncoreIndicator := m_bnBcnIndicator h,
                    neighborClient := c\<rparr>))
     else FindNeighborTuple b nb)"
proof -
  let ?new = "(NeighborTuple_new L (m_nodeIdentifier h) Mac48Address_default now)
    \<lparr>sequenceNumber := m_helloSequenceNumber h\<rparr>"
  have ins: "FindNeighborTuple a (InsertNeighborTuple ?new nb)
      = (if a = m_nodeIdentifier h then Some ?new else FindNeighborTuple a nb)" for a
    using assms find_insert(1) [of nb a ?new] by (simp add: Neighbors_wf_def NeighborTuple_new_def)
  have mod: "FindNeighborTuple b (nb'\<lparr>localNeighborList := modify_first a f (localNeighborList nb')\<rparr>)
      = (if b = a then map_option f (FindNeighborTuple a nb') else FindNeighborTuple b nb')"
    if "\<And>nt. neighborIfaceAddr (f nt) = neighborIfaceAddr nt" for a f nb'
    using that by (simp add: FindNeighborTuple_def find_modify_first)
  show ?thesis
    by (auto simp: UpdateNeighborTuple_def Let_def mod ins split: option.splits)
qed

section \<open>The best neighbour\<close>

interpretation best: preference NeighborTuple_gt
  by unfold_locales (auto simp: NeighborTuple_gt_def split: if_splits)

lemma best_of_filter:
  "fold (best_of st) nts b = fold (pick_better NeighborTuple_gt) (filter (\<lambda>nt. neighborNodeStatus nt = st) nts) b"
  by (induction nts arbitrary: b) (auto simp: best_of_def pick_better_def split: option.splits)

section \<open>Address sets\<close>

lemma Intersection_set: "set (Intersection xs ys) = set xs \<inter> set ys"
  by (auto simp: Intersection_def filter_empty_iff)

lemma Intersection_empty: "Intersection xs ys = [] \<longleftrightarrow> set xs \<inter> set ys = {}"
  using Intersection_set [of xs ys] by (metis set_empty)

lemma Intersection_addr_empty: "Intersection_addr xs a = [] \<longleftrightarrow> a \<notin> set xs"
  by (auto simp: Intersection_addr_def filter_empty_iff)

definition two_hops :: "ipv4addr \<Rightarrow> Neighbors \<Rightarrow> ipv4addr set" where
  "two_hops a nb = (case FindNeighborTuple a nb of None \<Rightarrow> {}
     | Some nt \<Rightarrow> twoHopBnNeighborIfaceAddr ` set (neighborBnNeighbors nt))"

lemma GetMulticastNeighbors_set:
  "GetMulticastNeighbors a nb = Some l \<Longrightarrow> set l = two_hops a nb"
  by (auto simp: GetMulticastNeighbors_def two_hops_def split: option.splits)

lemma GetMulticastNeighbors_None: "GetMulticastNeighbors a nb = None \<longleftrightarrow> FindNeighborTuple a nb = None"
  by (auto simp: GetMulticastNeighbors_def split: option.splits)

lemmas address_sets = Intersection_empty Intersection_addr_empty Intersection_set GetMulticastNeighbors_set

section \<open>Properties\<close>

text \<open>The states a run of the neighbour list can reach once its callback is set.\<close>

inductive neighbors_reachable :: "library \<Rightarrow> arp_lookup \<Rightarrow> Neighbors \<Rightarrow> bool" for L arp where
  start: "neighbors_reachable L arp (Neighbors_SetCallback (Neighbors_new delay))"
| purge: "neighbors_reachable L arp nb \<Longrightarrow> neighbors_reachable L arp (fst (Neighbors_Purge now nb))"
| update: "neighbors_reachable L arp nb \<Longrightarrow> neighbors_reachable L arp (fst (Neighbors_Update L arp now a e nb))"
| hello: "neighbors_reachable L arp nb \<Longrightarrow> neighbors_reachable L arp (UpdateNeighborTuple L now h c nb)"
| twohop: "neighbors_reachable L arp nb \<Longrightarrow> UpdateMulticastNeighborTuple now h t nb = Some nb' \<Longrightarrow>
    neighbors_reachable L arp nb'"
| purge_hello: "neighbors_reachable L arp nb \<Longrightarrow> neighbors_reachable L arp (fst (Neighbors_PurgeHello nb))"
| reset: "neighbors_reachable L arp nb \<Longrightarrow> neighbors_reachable L arp (Neighbors_ResetHelloCounter nb)"
| tx_error: "neighbors_reachable L arp nb \<Longrightarrow> neighbors_reachable L arp (fst (ProcessTxError now mac nb))"
| clear: "neighbors_reachable L arp nb \<Longrightarrow> neighbors_reachable L arp (Neighbors_Clear nb)"
| min_hello: "neighbors_reachable L arp nb \<Longrightarrow> neighbors_reachable L arp (Neighbors_SetMinHello n nb)"
| add_arp: "neighbors_reachable L arp nb \<Longrightarrow> neighbors_reachable L arp (AddArpCache i nb)"
| del_arp: "neighbors_reachable L arp nb \<Longrightarrow> neighbors_reachable L arp (DelArpCache i nb)"

lemma reachable_wf: "neighbors_reachable L arp nb \<Longrightarrow> Neighbors_wf nb"
proof (induction rule: neighbors_reachable.induct)
  case start
  show ?case by (simp add: Neighbors_wf_def Neighbors_SetCallback_def Neighbors_new_def)
next
  case (twohop nb now h t nb')
  then show ?case by (blast intro: UpdateMulticast_wf)
qed (simp_all add: neighbors_wf,
     simp_all add: Neighbors_wf_def Neighbors_SetMinHello_def AddArpCache_def DelArpCache_def)

text \<open>In every reachable neighbour list each address has one tuple and the two-hop list of every
  tuple is sorted by address, so that a tuple found by address is the only one and pointer updates
  touch no other neighbour.\<close>

theorem neighbors_unique:
  assumes "neighbors_reachable L arp nb"
  shows "distinct (map neighborIfaceAddr (localNeighborList nb))
    \<and> (\<forall>nt\<in>set (localNeighborList nb). FindNeighborTuple (neighborIfaceAddr nt) nb = Some nt
        \<and> sorted (map twoHopBnNeighborIfaceAddr (neighborBnNeighbors nt)))"
  using reachable_wf [OF assms] find_distinct [of neighborIfaceAddr "localNeighborList nb"]
  by (simp add: Neighbors_wf_def FindNeighborTuple_def)

theorem neighbors_unique_witness:
  "distinct (map neighborIfaceAddr (localNeighborList
     (fst (Neighbors_Update ns3_library (\<lambda>i a. None) 5 7 10
       (fst (Neighbors_Update ns3_library (\<lambda>i a. None) 4 9 10
         (Neighbors_SetCallback (Neighbors_new 15))))))))"
  by (rule neighbors_unique [where L = ns3_library and arp = "\<lambda>i a. None", THEN conjunct1])
    (intro neighbors_reachable.update neighbors_reachable.start)

text \<open>C37: \<open>Purge\<close> removes exactly the neighbours whose expiry time has passed or whose link a transmission
  error closed, reports each of them once, in list order, to the link failure handler, and keeps
  the others with their order, their data and their two-hop lists; a neighbour stays through every
  purge up to its expiry time.\<close>

theorem purge_removes_exactly_dead:
  assumes "neighbors_reachable L arp nb"
  shows "localNeighborList (fst (Neighbors_Purge now nb))
        = filter (\<lambda>nt. now \<le> m_expireTime nt \<and> \<not> nt_close nt) (localNeighborList nb)
    \<and> snd (Neighbors_Purge now nb)
        = map neighborIfaceAddr (filter (\<lambda>nt. m_expireTime nt < now \<or> nt_close nt) (localNeighborList nb))
    \<and> (fst (Neighbors_IsNeighbor now a nb) \<longleftrightarrow>
        (\<exists>nt. FindNeighborTuple a nb = Some nt \<and> now \<le> m_expireTime nt \<and> \<not> nt_close nt))
    \<and> (now \<le> later \<longrightarrow> localNeighborList (fst (Neighbors_Purge later (fst (Neighbors_Purge now nb))))
        = localNeighborList (fst (Neighbors_Purge later nb)))"
proof -
  have wf: "Neighbors_wf nb" by (rule reachable_wf [OF assms])
  then have cb: "m_handleLinkFailure nb" by (simp add: Neighbors_wf_def)
  have dead: "\<not> CloseOneHopNeighbor now nt \<longleftrightarrow> now \<le> m_expireTime nt \<and> \<not> nt_close nt" for nt
    by (auto simp: CloseOneHopNeighbor_def)
  have dead': "CloseOneHopNeighbor now = (\<lambda>nt. m_expireTime nt < now \<or> nt_close nt)"
    by (rule ext) (simp add: CloseOneHopNeighbor_def)
  have "fst (Neighbors_IsNeighbor now a nb) \<longleftrightarrow> FindNeighborTuple a (fst (Neighbors_Purge now nb)) \<noteq> None"
    by (auto simp: Neighbors_IsNeighbor_def find_None_notin split: prod.splits)
  also have "\<dots> \<longleftrightarrow> (\<exists>nt. FindNeighborTuple a nb = Some nt \<and> now \<le> m_expireTime nt \<and> \<not> nt_close nt)"
    using dead by (auto simp: find_Purge [OF wf] split: option.splits if_splits)
  finally have nb: "fst (Neighbors_IsNeighbor now a nb) \<longleftrightarrow>
      (\<exists>nt. FindNeighborTuple a nb = Some nt \<and> now \<le> m_expireTime nt \<and> \<not> nt_close nt)" .
  have later: "localNeighborList (fst (Neighbors_Purge later (fst (Neighbors_Purge now nb))))
      = localNeighborList (fst (Neighbors_Purge later nb))" if "now \<le> later"
    using cb one_hop.purge_later [OF that] by (simp add: Purge_list Purge_frame)
  show ?thesis
    using nb later cb by (simp add: Purge_list Purge_failed dead dead' not_less)
qed

definition test_neighbors :: Neighbors where
  "test_neighbors = fst (Neighbors_Update ns3_library (\<lambda>i a. None) 5 7 10
     (fst (Neighbors_Update ns3_library (\<lambda>i a. None) 4 9 5 (Neighbors_SetCallback (Neighbors_new 15)))))"

lemma test_neighbors_reachable: "neighbors_reachable ns3_library (\<lambda>i a. None) test_neighbors"
  unfolding test_neighbors_def by (intro neighbors_reachable.update neighbors_reachable.start)

lemmas neighbor_eval = Neighbors_Update_def Neighbors_Purge_def Neighbors_ScheduleTimer_def
  Neighbors_SetCallback_def Neighbors_new_def FindNeighborTuple_def NeighborTuple_new_def
  CloseOneHopNeighbor_def ns3_library_def Let_def

lemma test_neighbors_list: "localNeighborList test_neighbors =
  [NeighborTuple_new ns3_library 9 0 9, NeighborTuple_new ns3_library 7 0 15]"
  by (simp add: test_neighbors_def neighbor_eval Mac48Address_default_def)

theorem purge_removes_exactly_dead_witness:
  "snd (Neighbors_Purge 12 test_neighbors) = [9]
   \<and> fst (Neighbors_IsNeighbor 12 7 test_neighbors) \<and> \<not> fst (Neighbors_IsNeighbor 12 9 test_neighbors)"
  using purge_removes_exactly_dead [OF test_neighbors_reachable, where now = 12 and a = 7 and later = 12]
    purge_removes_exactly_dead [OF test_neighbors_reachable, where now = 12 and a = 9 and later = 12]
  by (simp add: test_neighbors_list FindNeighborTuple_def NeighborTuple_new_def)

text \<open>Processing a hello (\<open>UpdateNeighborTuple\<close> then \<open>Update\<close>, as \<open>RecvHello\<close> does) makes the originator a
  neighbour with the status, weight, indicator, associated core and client flag of the hello, one
  more hello counted, and an expiry time at least the interval ahead; it reports no failure and
  leaves every other neighbour as it was.\<close>

theorem hello_refreshes_neighbor:
  assumes "neighbors_reachable L arp nb" and "a = m_nodeIdentifier h"
    and "nb' = fst (Neighbors_Update L arp now a e (UpdateNeighborTuple L now h client nb))"
  shows "(\<exists>nt. FindNeighborTuple a nb' = Some nt
        \<and> neighborNodeStatus nt = m_nodeStatus h \<and> neighborWeight nt = m_weightValue h
        \<and> neighborcore_noncoreIndicator nt = m_bnBcnIndicator h
        \<and> neighborAssociatedCORE nt = m_associatedBnIdentifier h \<and> neighborClient nt = client
        \<and> sequenceNumber nt = m_helloSequenceNumber h \<and> e + now \<le> m_expireTime nt
        \<and> helloCounter nt = (case FindNeighborTuple a nb of None \<Rightarrow> 0 | Some old \<Rightarrow> helloCounter old) + 1
        \<and> (\<forall>old. FindNeighborTuple a nb = Some old \<longrightarrow> m_expireTime old \<le> m_expireTime nt))
    \<and> snd (Neighbors_Update L arp now a e (UpdateNeighborTuple L now h client nb)) = []
    \<and> (b \<noteq> a \<longrightarrow> FindNeighborTuple b nb' = FindNeighborTuple b nb)"
proof -
  note found = find_UpdateNeighborTuple [OF reachable_wf [OF assms(1)], of a L now h client]
  from found obtain nt where nt: "FindNeighborTuple a (UpdateNeighborTuple L now h client nb) = Some nt"
    by (auto simp: assms(2) Let_def)
  show ?thesis
    using found nt find_Update_known(1) [OF nt, of a L arp now e] find_Update_known(1) [OF nt, of b L arp now e]
      find_Update_known(2) [OF nt, of L arp now e]
      find_UpdateNeighborTuple [OF reachable_wf [OF assms(1)], of b L now h client]
    by (auto simp: assms(2,3) Let_def NeighborTuple_new_def split: option.splits)
qed

theorem hello_refreshes_neighbor_witness:
  "\<exists>nt. FindNeighborTuple 7 (fst (Neighbors_Update ns3_library (\<lambda>i a. None) 6 7 4
      (UpdateNeighborTuple ns3_library 6
        (HelloHeader_new 3 NEIGH_NODE CONVERT_BREAK 7 1 W_NODE_DEGREE 5 []) True test_neighbors))) = Some nt
    \<and> neighborNodeStatus nt = NEIGH_NODE \<and> m_expireTime nt \<ge> 15"
  using hello_refreshes_neighbor [OF test_neighbors_reachable refl refl,
      where h = "HelloHeader_new 3 NEIGH_NODE CONVERT_BREAK 7 1 W_NODE_DEGREE 5 []" and now = 6 and e = 4 and client = True and b = 0]
  by (auto simp: HelloHeader_new_def Let_def test_neighbors_list FindNeighborTuple_def NeighborTuple_new_def)

text \<open>\<open>GetBestNeighbor\<close> returns nothing exactly when no neighbour has the status asked for; otherwise a
  neighbour of that status of the largest weight, breaking among equal weights in favour of a
  \<open>CONVERT_BREAK\<close> neighbour, and among those of equal indicator in favour of the largest address.\<close>

theorem best_neighbor_optimal:
  "case GetBestNeighbor st nb of
     None \<Rightarrow> GetOneHopNeighbors st nb = []
   | Some b \<Rightarrow> b \<in> set (GetOneHopNeighbors st nb) \<and>
       (\<forall>x\<in>set (GetOneHopNeighbors st nb). neighborWeight x \<le> neighborWeight b
          \<and> (neighborWeight x = neighborWeight b \<and> neighborcore_noncoreIndicator x = CONVERT_BREAK
              \<longrightarrow> neighborcore_noncoreIndicator b = CONVERT_BREAK)
          \<and> (neighborWeight x = neighborWeight b
              \<and> neighborcore_noncoreIndicator x = neighborcore_noncoreIndicator b
              \<longrightarrow> neighborIfaceAddr x \<le> neighborIfaceAddr b))"
proof -
  have "GetBestNeighbor st nb = fold (pick_better NeighborTuple_gt) (GetOneHopNeighbors st nb) None"
    by (simp add: GetBestNeighbor_def GetOneHopNeighbors_def best_of_filter)
  moreover have "neighborWeight x \<le> neighborWeight b
      \<and> (neighborWeight x = neighborWeight b \<and> neighborcore_noncoreIndicator x = CONVERT_BREAK
          \<longrightarrow> neighborcore_noncoreIndicator b = CONVERT_BREAK)
      \<and> (neighborWeight x = neighborWeight b
          \<and> neighborcore_noncoreIndicator x = neighborcore_noncoreIndicator b
          \<longrightarrow> neighborIfaceAddr x \<le> neighborIfaceAddr b)" if "\<not> NeighborTuple_gt x b" for x b
    using that by (auto simp: NeighborTuple_gt_def not_less split: if_splits)
  ultimately show ?thesis
    using best.best_maximal [of "GetOneHopNeighbors st nb"] best.best_None [of "GetOneHopNeighbors st nb"]
    by (auto split: option.splits)
qed

theorem best_neighbor_optimal_witness:
  "map_option neighborIfaceAddr (GetBestNeighbor CORE test_neighbors) = Some 9"
  using best_neighbor_optimal [of CORE test_neighbors]
  by (auto simp: GetBestNeighbor_def best_of_def NeighborTuple_gt_def test_neighbors_list NeighborTuple_new_def)

text \<open>\<open>PurgeHello\<close> drops exactly the neighbours heard less often than the minimum since the counters
  were reset and reports each; with no link failure handler set both purges empty the whole list
  without reporting anyone.\<close>

theorem purge_hello_exact:
  "(m_handleLinkFailure nb \<longrightarrow>
      localNeighborList (fst (Neighbors_PurgeHello nb))
        = filter (\<lambda>j. unat (m_minHello nb) \<le> unat (helloCounter j)) (localNeighborList nb)
      \<and> snd (Neighbors_PurgeHello nb)
        = map neighborIfaceAddr (filter (\<lambda>j. unat (helloCounter j) < unat (m_minHello nb)) (localNeighborList nb)))
   \<and> (\<not> m_handleLinkFailure nb \<longrightarrow>
      localNeighborList (fst (Neighbors_PurgeHello nb)) = [] \<and> snd (Neighbors_PurgeHello nb) = []
      \<and> localNeighborList (fst (Neighbors_Purge now nb)) = [] \<and> snd (Neighbors_Purge now nb) = [])"
proof -
  have few: "few_hellos nb = (\<lambda>j. unat (helloCounter j) < unat (m_minHello nb))"
    by (rule ext) (simp add: few_hellos_def word_less_nat_alt unat_ucast_up)
  show ?thesis
    by (auto simp: Neighbors_PurgeHello_def Neighbors_Purge_def Neighbors_ScheduleTimer_def few not_less)
qed

theorem purge_hello_exact_witness:
  "snd (Neighbors_PurgeHello (Neighbors_SetMinHello 1 test_neighbors)) = [9, 7]"
proof -
  have "m_handleLinkFailure test_neighbors"
    using reachable_wf [OF test_neighbors_reachable] by (simp add: Neighbors_wf_def)
  then show ?thesis
    using purge_hello_exact [of "Neighbors_SetMinHello 1 test_neighbors" 0]
    by (simp add: Neighbors_SetMinHello_def test_neighbors_list NeighborTuple_new_def)
qed

text \<open>The two-hop tests on known neighbours: two backbone neighbours are taken as directly connected when
  one of them advertised the other, and as two hops apart when they advertised a common backbone
  neighbour; both tests are symmetric, and asking about an unknown address fails the assertion.\<close>

theorem hop_tests:
  "(Are1HopNeighbors v w nb = None \<longleftrightarrow> FindNeighborTuple v nb = None \<or> FindNeighborTuple w nb = None)
   \<and> (\<forall>r. Are1HopNeighbors v w nb = Some r \<longrightarrow> r = (w \<in> two_hops v nb \<or> v \<in> two_hops w nb))
   \<and> (\<forall>r. Are2HopNeighbors v w nb = Some r \<longrightarrow> r = (two_hops v nb \<inter> two_hops w nb \<noteq> {}))
   \<and> Are1HopNeighbors v w nb = Are1HopNeighbors w v nb \<and> Are2HopNeighbors v w nb = Are2HopNeighbors w v nb"
  by (auto simp: Are1HopNeighbors_def Are2HopNeighbors_def address_sets GetMulticastNeighbors_None
      bind_eq_None_conv split: Option.bind_splits)

theorem hop_tests_witness:
  "Are1HopNeighbors 9 7 test_neighbors = Some False \<and> Are1HopNeighbors 9 8 test_neighbors = None"
  using hop_tests [of 9 7 test_neighbors] hop_tests [of 9 8 test_neighbors]
  by (auto simp: test_neighbors_list FindNeighborTuple_def two_hops_def NeighborTuple_new_def)

text \<open>The comparison operators of the tuple do not agree: \<open>>\<close> is a strict partial order, but \<open><\<close> holds between
  a tuple and itself, and for two tuples of different weight it holds in both directions.\<close>

theorem neighbor_comparisons:
  "\<not> NeighborTuple_gt a a \<and> NeighborTuple_lt a a
   \<and> (NeighborTuple_gt a b \<longrightarrow> \<not> NeighborTuple_gt b a)
   \<and> (NeighborTuple_gt a b \<and> NeighborTuple_gt b c \<longrightarrow> NeighborTuple_gt a c)
   \<and> (neighborWeight a \<noteq> neighborWeight b \<longrightarrow> NeighborTuple_lt a b \<and> NeighborTuple_lt b a)"
  using best.irrefl [of a] best.asym [of a b] best.trans [of a b c]
  by (simp add: NeighborTuple_lt_def neq_iff) blast

theorem neighbor_comparisons_witness:
  "NeighborTuple_gt ((NeighborTuple_new ns3_library 9 0 9)\<lparr>neighborWeight := 4\<rparr>) (NeighborTuple_new ns3_library 7 0 15)
   \<and> \<not> NeighborTuple_gt (NeighborTuple_new ns3_library 7 0 15) ((NeighborTuple_new ns3_library 9 0 9)\<lparr>neighborWeight := 4\<rparr>)"
  using neighbor_comparisons [of "(NeighborTuple_new ns3_library 9 0 9)\<lparr>neighborWeight := 4\<rparr>"
      "NeighborTuple_new ns3_library 7 0 15"]
  by (simp add: NeighborTuple_gt_def NeighborTuple_new_def)

end
