(* ===== verification/Clustering.thy ===== *)
theory Clustering
  imports Neighbor_Correct
begin

text \<open>
  The mesh clustering of \<open>model/aodv-routing-protocol.cc\<close>: a regular or core capable node chooses the
  core it associates with, a core capable node decides whether to join the backbone
  (\<open>Joining_Quitting_Mechanism\<close>), a backbone node whether to leave it (\<open>HeartBeat_Pushjoin_Anchors\<close>).
  All decisions read the node's own clustering state and its neighbour list; \<open>own\<close> is
  \<open>IsMyOwnAddress\<close>. \<open>None\<close> is a failed assertion. A change of status notifies the
  \<open>NodeStatusChanged\<close> trace: it happens exactly when \<open>Joining_Quitting_Mechanism\<close> or
  \<open>HeartBeat_Pushjoin_Anchors\<close> answers true.
\<close>

record Clustering =
  m_localWeight :: u32
  m_localWeightFunction :: WeightFunction
  m_localNodeStatus :: NodeStatus
  m_localcore_noncoreIndicator :: core_noncore_Indicator
  m_localAssociatedCORE :: ipv4addr
  m_localCurrentBnNeighbors :: u16
  m_localLastBnNeighbors :: u16
  m_mainAddress :: ipv4addr
  Rule1 :: bool
  Rule2 :: bool

definition Clustering_new :: Clustering where
  "Clustering_new = \<lparr>m_localWeight = 0, m_localWeightFunction = W_NODE_DEGREE, m_localNodeStatus = CORE,
     m_localcore_noncoreIndicator = CONVERT_OTHER, m_localAssociatedCORE = Ipv4Address_any,
     m_localCurrentBnNeighbors = 0, m_localLastBnNeighbors = 0, m_mainAddress = Ipv4Address_any,
     Rule1 = True, Rule2 = True\<rparr>"

definition UpdateLocalLastBnNeighbors :: "Neighbors \<Rightarrow> Clustering \<Rightarrow> Clustering" where
  "UpdateLocalLastBnNeighbors nb st =
     st\<lparr>m_localLastBnNeighbors := m_localCurrentBnNeighbors st,
        m_localCurrentBnNeighbors := ucast (GetNeighborhoodSize_of NEIGH_NODE nb)\<rparr>"

definition UpdateLocalWeight :: "Neighbors \<Rightarrow> Clustering \<Rightarrow> Clustering" where
  "UpdateLocalWeight nb st =
     (case m_localWeightFunction st of
        W_NODE_IP \<Rightarrow> st\<lparr>m_localWeight := m_mainAddress st\<rparr>
      | W_NODE_RND \<Rightarrow> st
      | W_NODE_BNDEGREE \<Rightarrow> st\<lparr>m_localWeight := GetNeighborhoodSize_of NEIGH_NODE nb\<rparr>
      | W_NODE_DEGREE \<Rightarrow> st\<lparr>m_localWeight := GetNeighborhoodSize nb\<rparr>)"

definition SetLocalNodeStatus :: "NodeStatus \<Rightarrow> Clustering \<Rightarrow> Clustering" where
  "SetLocalNodeStatus s st = st\<lparr>m_localNodeStatus := s\<rparr>"

definition SetLocalAssociatedCORE :: "ipv4addr \<Rightarrow> Clustering \<Rightarrow> Clustering" where
  "SetLocalAssociatedCORE a st = st\<lparr>m_localAssociatedCORE := a\<rparr>"

definition SetLocalcore_noncoreIndicator :: "core_noncore_Indicator \<Rightarrow> Clustering \<Rightarrow> Clustering" where
  "SetLocalcore_noncoreIndicator i st = st\<lparr>m_localcore_noncoreIndicator := i\<rparr>"

section \<open>Weights\<close>

definition HigherWeight_of :: "Clustering \<Rightarrow> u32 \<Rightarrow> ipv4addr \<Rightarrow> bool" where
  "HigherWeight_of st weight addr \<longleftrightarrow>
     m_localWeight st > weight \<or> (m_localWeight st = weight \<and> m_mainAddress st > addr)"

definition HigherWeight_node :: "Clustering \<Rightarrow> NeighborTuple \<Rightarrow> bool" where
  "HigherWeight_node st node = HigherWeight_of st (neighborWeight node) (neighborIfaceAddr node)"

definition HigherWeight_2hop :: "Clustering \<Rightarrow> MulticastBnNeighborTuple \<Rightarrow> bool" where
  "HigherWeight_2hop st n = HigherWeight_of st (twoHopBnNeighborWeight n) (twoHopBnNeighborIfaceAddr n)"

definition HigherWeight :: "Clustering \<Rightarrow> Neighbors \<Rightarrow> ipv4addr \<Rightarrow> bool option" where
  "HigherWeight st nb a = map_option (HigherWeight_node st) (FindNeighborTuple a nb)"

section \<open>Association\<close>

definition AssociationAlgorithm :: "Neighbors \<Rightarrow> Clustering \<Rightarrow> Clustering option" where
  "AssociationAlgorithm nb st =
     (if m_localNodeStatus st = NEIGH_NODE then None
      else let best = GetBestNeighbor NEIGH_NODE nb;
               best = (if best = None then GetBestNeighbor CORE nb else best);
               best = (if best = None then GetBestNeighbor RN_NODE nb else best)
           in case best of
                None \<Rightarrow> Some st
              | Some b \<Rightarrow> Some (SetLocalAssociatedCORE (neighborIfaceAddr b) st))"

section \<open>Pairs of neighbours\<close>

definition IsDirectlyConnected :: "NeighborSet \<Rightarrow> NeighborSet \<Rightarrow> Groups" where
  "IsDirectlyConnected one two =
     concat (map (\<lambda>iter1. map (\<lambda>iter2. (neighborIfaceAddr iter1, neighborIfaceAddr iter2))
       (filter (\<lambda>iter2. neighborIfaceAddr iter1 \<noteq> neighborIfaceAddr iter2) two)) one)"

definition BN_pairs :: "Neighbors \<Rightarrow> Groups" where
  "BN_pairs nb = IsDirectlyConnected (GetOneHopNeighbors NEIGH_NODE nb) (GetOneHopNeighbors NEIGH_NODE nb)"

text \<open>
  \<open>RoutingProtocol::Are1HopNeighbors\<close> and \<open>Are2HopNeighbors\<close>. Unlike the functions of the same name in
  \<open>Neighbors\<close>, the first looks up the second neighbour only if the first one does not name it.
\<close>

definition RoutingProtocol_Are1HopNeighbors :: "ipv4addr \<Rightarrow> ipv4addr \<Rightarrow> Neighbors \<Rightarrow> bool option" where
  "RoutingProtocol_Are1HopNeighbors v w nb = do {
     bnv \<leftarrow> GetMulticastNeighbors v nb;
     if Intersection_addr bnv w \<noteq> [] then Some True
     else do {
       bnw \<leftarrow> GetMulticastNeighbors w nb;
       Some (Intersection_addr bnw v \<noteq> [])
     }
   }"

definition RoutingProtocol_Are2HopNeighbors :: "ipv4addr \<Rightarrow> ipv4addr \<Rightarrow> Neighbors \<Rightarrow> bool option" where
  "RoutingProtocol_Are2HopNeighbors v w nb = do {
     vset \<leftarrow> GetMulticastNeighbors v nb;
     wset \<leftarrow> GetMulticastNeighbors w nb;
     Some (Intersection vset wset \<noteq> [])
   }"

text \<open>The loop over the pairs \<open>xy\<close> of \<open>HandlePushJoinNonDC\<close>; the last argument is \<open>xy_exist\<close>.\<close>

fun nondc_loop :: "Neighbors \<Rightarrow> ipv4addr \<Rightarrow> ipv4addr \<Rightarrow> Groups \<Rightarrow> bool \<Rightarrow> bool option" where
  "nondc_loop nb v w [] xy_exist = Some xy_exist"
| "nondc_loop nb v w ((ipx, ipy) # xys) xy_exist =
     (if xy_exist then Some xy_exist
      else do {
        onehop \<leftarrow> RoutingProtocol_Are1HopNeighbors ipx ipy nb;
        if \<not> onehop then nondc_loop nb v w xys xy_exist
        else if ipx = v \<or> ipx = w \<or> ipy = v \<or> ipy = w then nondc_loop nb v w xys xy_exist
        else do {
          NBNw \<leftarrow> GetMulticastNeighbors v nb;
          NBNv \<leftarrow> GetMulticastNeighbors w nb;
          let vBNx = (Intersection_addr NBNv ipx \<noteq> []);
          let wBNy = (Intersection_addr NBNw ipy \<noteq> []);
          let vBNy = (Intersection_addr NBNv ipy \<noteq> []);
          let wBNx = (Intersection_addr NBNw ipx \<noteq> []);
          nondc_loop nb v w xys (xy_exist \<or> (vBNx \<and> wBNy) \<or> (vBNy \<and> wBNx))
        }
      })"

definition HandlePushJoinNonDC :: "Neighbors \<Rightarrow> ipv4addr \<Rightarrow> ipv4addr \<Rightarrow> bool option" where
  "HandlePushJoinNonDC nb v w = do {
     nv \<leftarrow> FindNeighborTuple v nb;
     nw \<leftarrow> FindNeighborTuple w nb;
     if neighborNodeStatus nv \<noteq> NEIGH_NODE then None
     else if neighborNodeStatus nw \<noteq> NEIGH_NODE \<and> neighborNodeStatus nw \<noteq> CORE then None
     else nondc_loop nb v w (BN_pairs nb) False
   }"

text \<open>\<open>GetRule1 () && HandlePushJoinNonDC (v, w)\<close>, short-circuit.\<close>

definition rule1_connected :: "Clustering \<Rightarrow> Neighbors \<Rightarrow> ipv4addr \<Rightarrow> ipv4addr \<Rightarrow> bool option" where
  "rule1_connected st nb v w = (if Rule1 st then HandlePushJoinNonDC nb v w else Some False)"

section \<open>Joining the backbone\<close>

definition BCN2BNRule2 :: "Clustering \<Rightarrow> bool" where
  "BCN2BNRule2 st =
     (if Rule2 st then (if m_localCurrentBnNeighbors st > m_localLastBnNeighbors st then False else True)
      else True)"

definition HandleJoin :: "Clustering \<Rightarrow> Neighbors \<Rightarrow> bool" where
  "HandleJoin st nb =
     (let conversion1a = (GetOneHopNeighbors NEIGH_NODE nb = []);
          conversion1b = (case GetBestNeighbor CORE nb of None \<Rightarrow> False | Some b \<Rightarrow> HigherWeight_node st b);
          conversion2 = (\<not> (GetClients_of CORE nb = [] \<and> GetClients_of RN_NODE nb = []))
      in (conversion1a \<and> conversion1b) \<or> conversion2)"

text \<open>The inner loop of \<open>HandlePushJoin\<close>: a core capable neighbour next to both that outranks this node.\<close>

fun push_join_x :: "Clustering \<Rightarrow> Neighbors \<Rightarrow> ipv4addr \<Rightarrow> ipv4addr \<Rightarrow> NeighborSet \<Rightarrow> bool \<Rightarrow> bool option" where
  "push_join_x st nb v w [] x_exist = Some x_exist"
| "push_join_x st nb v w (bcn_x # xs) x_exist =
     (if x_exist then Some x_exist
      else do {
        let ipx = neighborIfaceAddr bcn_x;
        neighbor_xv \<leftarrow> RoutingProtocol_Are1HopNeighbors ipx v nb;
        neighbor_xw \<leftarrow> RoutingProtocol_Are1HopNeighbors ipx w nb;
        higher \<leftarrow> HigherWeight st nb ipx;
        push_join_x st nb v w xs (x_exist \<or> (neighbor_xw \<and> neighbor_xv \<and> \<not> higher))
      })"

fun push_join_loop :: "Clustering \<Rightarrow> Neighbors \<Rightarrow> Groups \<Rightarrow> bool \<Rightarrow> bool option" where
  "push_join_loop st nb [] pair2connect = Some pair2connect"
| "push_join_loop st nb ((ipv, ipw) # pairs) pair2connect =
     (if pair2connect then Some pair2connect
      else do {
        onehop \<leftarrow> RoutingProtocol_Are1HopNeighbors ipv ipw nb;
        twohop \<leftarrow> RoutingProtocol_Are2HopNeighbors ipv ipw nb;
        BNv \<leftarrow> GetMulticastNeighbors ipv nb;
        BNw \<leftarrow> GetMulticastNeighbors ipw nb;
        let onetwo = (Intersection (BNv @ [ipv]) (BNw @ [ipw]) \<noteq> []);
        if onetwo \<noteq> (onehop \<or> twohop) then None
        else do {
          ruleone \<leftarrow> rule1_connected st nb ipv ipw;
          if onehop \<or> twohop \<or> ruleone then push_join_loop st nb pairs pair2connect
          else do {
            x_exist \<leftarrow> push_join_x st nb ipv ipw (GetOneHopNeighbors CORE nb) False;
            push_join_loop st nb pairs (pair2connect \<or> \<not> x_exist)
          }
        }
      })"

definition HandlePushJoin :: "Clustering \<Rightarrow> Neighbors \<Rightarrow> bool option" where
  "HandlePushJoin st nb = push_join_loop st nb (BN_pairs nb) False"

text \<open>
  \<open>HandleJoinAmNotDuplex\<close>: its assertion calls \<open>IsNeighbor\<close>, which purges the neighbour list; the
  loop returns the list it leaves and the links reported as failed.
\<close>

fun not_duplex_loop ::
  "time \<Rightarrow> Clustering \<Rightarrow> Groups \<Rightarrow> Groups \<Rightarrow> Neighbors \<Rightarrow> (Groups \<times> Neighbors \<times> ipv4addr list) option" where
  "not_duplex_loop now st [] no_connected nb = Some (no_connected, nb, [])"
| "not_duplex_loop now st ((ipv, ipw) # pairs) no_connected nb =
     (if ipv = ipw then None
      else let (is_v, nb, failed1) = Neighbors_IsNeighbor now ipv nb
      in if \<not> is_v then None
      else let (is_w, nb, failed2) = Neighbors_IsNeighbor now ipw nb
      in if \<not> is_w then None
      else do {
        NBNv \<leftarrow> GetMulticastNeighbors ipv nb;
        NBNw \<leftarrow> GetMulticastNeighbors ipw nb;
        let are1hop = (Intersection_addr NBNv ipw \<noteq> [] \<or> Intersection_addr NBNw ipv \<noteq> []);
        let are2hop = (Intersection NBNv NBNw \<noteq> []);
        no_connected \<leftarrow>
          (if \<not> (are1hop \<or> are2hop) then do {
             RULE1 \<leftarrow> rule1_connected st nb ipv ipw;
             Some (if \<not> RULE1 then no_connected @ [(ipv, ipw)] else no_connected)
           } else Some no_connected);
        (r, nb, failed3) \<leftarrow> not_duplex_loop now st pairs no_connected nb;
        Some (r, nb, failed1 @ failed2 @ failed3)
      })"

definition HandleJoinAmNotDuplex ::
  "time \<Rightarrow> Clustering \<Rightarrow> NeighborSet \<Rightarrow> NeighborSet \<Rightarrow> Neighbors
   \<Rightarrow> (Groups \<times> Neighbors \<times> ipv4addr list) option" where
  "HandleJoinAmNotDuplex now st set_1 set_2 nb =
     not_duplex_loop now st (IsDirectlyConnected set_1 set_2) [] nb"

fun duplex_x ::
  "Clustering \<Rightarrow> Neighbors \<Rightarrow> ipv4addr \<Rightarrow> ipv4addr \<Rightarrow> AddressSet \<Rightarrow> NeighborSet \<Rightarrow> bool \<Rightarrow> bool option" where
  "duplex_x st nb v w NBNw [] x_exist = Some x_exist"
| "duplex_x st nb v w NBNw (bcn_x # xs) x_exist =
     (if x_exist then Some x_exist
      else if neighborIfaceAddr bcn_x = w then duplex_x st nb v w NBNw xs x_exist
      else do {
        let ipx = neighborIfaceAddr bcn_x;
        NBNx \<leftarrow> GetMulticastNeighbors ipx nb;
        let neighbor_xv = (Intersection_addr NBNx v \<noteq> []);
        let neighbor_xz = (Intersection NBNx NBNw \<noteq> []);
        lower \<leftarrow> (if neighbor_xv \<and> neighbor_xz then map_option Not (HigherWeight st nb ipx)
                   else Some False);
        duplex_x st nb v w NBNw xs (x_exist \<or> lower)
      })"

fun duplex_loop :: "Clustering \<Rightarrow> Neighbors \<Rightarrow> Groups \<Rightarrow> bool \<Rightarrow> bool option" where
  "duplex_loop st nb [] pair2connect = Some pair2connect"
| "duplex_loop st nb ((ipv, ipw) # pairs) pair2connect =
     (if pair2connect then Some pair2connect
      else do {
        NBNw \<leftarrow> GetMulticastNeighbors ipw nb;
        NBNv \<leftarrow> GetMulticastNeighbors ipv nb;
        if Intersection NBNw (ipv # NBNv) \<noteq> [] then None
        else if NBNw = [] then duplex_loop st nb pairs pair2connect
        else do {
          x_exist \<leftarrow> duplex_x st nb ipv ipw NBNw (GetOneHopNeighbors CORE nb) False;
          duplex_loop st nb pairs (pair2connect \<or> \<not> x_exist)
        }
      })"

definition HandleJoinAmDuplex ::
  "time \<Rightarrow> Clustering \<Rightarrow> Neighbors \<Rightarrow> (bool \<times> Neighbors \<times> ipv4addr list) option" where
  "HandleJoinAmDuplex now st nb = do {
     (no_connected_pair, nb, failed) \<leftarrow>
       HandleJoinAmNotDuplex now st (GetOneHopNeighbors NEIGH_NODE nb) (GetOneHopNeighbors CORE nb) nb;
     if no_connected_pair = [] then Some (False, nb, failed)
     else do {
       pair2connect \<leftarrow> duplex_loop st nb no_connected_pair False;
       Some (pair2connect, nb, failed)
     }
   }"

definition Joining_Quitting_Mechanism ::
  "time \<Rightarrow> Clustering \<Rightarrow> Neighbors \<Rightarrow> (bool \<times> Clustering \<times> Neighbors \<times> ipv4addr list) option" where
  "Joining_Quitting_Mechanism now st nb =
     (if m_localNodeStatus st \<noteq> CORE then None
      else if \<not> BCN2BNRule2 st then Some (False, st, nb, [])
      else do {
        let conv1 = HandleJoin st nb;
        conv2 \<leftarrow> HandlePushJoin st nb;
        (conv3, nb, failed) \<leftarrow> HandleJoinAmDuplex now st nb;
        let BCN2BN = (conv1 \<or> conv2 \<or> conv3);
        Some (BCN2BN, if BCN2BN then SetLocalNodeStatus NEIGH_NODE st else st, nb, failed)
      })"

section \<open>Leaving the backbone\<close>

definition HeartBeat_Pushjoin_Anchors_1 :: "Neighbors \<Rightarrow> bool" where
  "HeartBeat_Pushjoin_Anchors_1 nb \<longleftrightarrow>
     (let cond1 = (GetClients_of RN_NODE nb = []);
          cond2 = (\<forall>bcn_cli\<in>set (GetOneHopNeighbors CORE nb).
                     neighborClient bcn_cli \<longrightarrow> (of_nat (length (neighborBnNeighbors bcn_cli)) :: u32) > 1)
      in cond1 \<and> cond2)"

fun anchors_2a :: "Clustering \<Rightarrow> Neighbors \<Rightarrow> Groups \<Rightarrow> Groups option" where
  "anchors_2a st nb [] = Some []"
| "anchors_2a st nb ((ipv, ipw) # gp) = do {
     neighbors \<leftarrow> RoutingProtocol_Are1HopNeighbors ipv ipw nb;
     nodev \<leftarrow> FindNeighborTuple ipv nb;
     nodew \<leftarrow> FindNeighborTuple ipw nb;
     let higher = (\<not> HigherWeight_node st nodev \<or> \<not> HigherWeight_node st nodew);
     let breaker = (neighborcore_noncoreIndicator nodev = CONVERT_BREAK
                    \<or> neighborcore_noncoreIndicator nodew = CONVERT_BREAK);
     rest \<leftarrow> anchors_2a st nb gp;
     Some (if \<not> (neighbors \<and> (higher \<or> breaker)) then (ipv, ipw) # rest else rest)
   }"

fun anchors_2b_x ::
  "Clustering \<Rightarrow> (ipv4addr \<Rightarrow> bool) \<Rightarrow> Neighbors \<Rightarrow> ipv4addr \<Rightarrow> AddressSet \<Rightarrow> bool \<Rightarrow> bool option" where
  "anchors_2b_x st own nb v [] convert = Some convert"
| "anchors_2b_x st own nb v (ipx # xs) convert =
     (if convert then Some convert
      else if own ipx then anchors_2b_x st own nb v xs convert
      else do {
        common_bn \<leftarrow> FindMulticastBnNeighborTuple v ipx nb;
        let higher = (\<not> HigherWeight_2hop st common_bn);
        let breaker = (twoHopBnNeighborIndicator common_bn = CONVERT_BREAK);
        anchors_2b_x st own nb v xs (convert \<or> higher \<or> breaker)
      })"

fun anchors_2b :: "Clustering \<Rightarrow> (ipv4addr \<Rightarrow> bool) \<Rightarrow> Neighbors \<Rightarrow> Groups \<Rightarrow> Groups option" where
  "anchors_2b st own nb [] = Some []"
| "anchors_2b st own nb (pair # gp) = do {
     nodesX \<leftarrow> GetCommonBN pair nb;
     convert \<leftarrow> anchors_2b_x st own nb (fst pair) nodesX False;
     rest \<leftarrow> anchors_2b st own nb gp;
     Some (if \<not> convert then pair # rest else rest)
   }"

fun anchors_rule1 :: "Neighbors \<Rightarrow> Groups \<Rightarrow> Groups option" where
  "anchors_rule1 nb [] = Some []"
| "anchors_rule1 nb (pair # gp) = do {
     RULE1 \<leftarrow> HandlePushJoinNonDC nb (fst pair) (snd pair);
     rest \<leftarrow> anchors_rule1 nb gp;
     Some (if \<not> RULE1 then pair # rest else rest)
   }"

definition anchors_2c :: "Clustering \<Rightarrow> Neighbors \<Rightarrow> Groups \<Rightarrow> Groups option" where
  "anchors_2c st nb gp = (if \<not> Rule1 st then Some gp else anchors_rule1 nb gp)"

definition HeartBeat_Pushjoin_Anchors_2 :: "Clustering \<Rightarrow> (ipv4addr \<Rightarrow> bool) \<Rightarrow> Neighbors \<Rightarrow> bool option" where
  "HeartBeat_Pushjoin_Anchors_2 st own nb = do {
     gpA \<leftarrow> anchors_2a st nb (BN_pairs nb);
     gpB \<leftarrow> anchors_2b st own nb gpA;
     gpC \<leftarrow> anchors_2c st nb gpB;
     Some (gpC = [])
   }"

fun anchors_3a :: "Clustering \<Rightarrow> Neighbors \<Rightarrow> Groups \<Rightarrow> Groups option" where
  "anchors_3a st nb [] = Some []"
| "anchors_3a st nb ((ipv, ipw) # pairs) = do {
     BNw \<leftarrow> GetMulticastNeighbors ipw nb;
     connected \<leftarrow> RoutingProtocol_Are1HopNeighbors ipv ipw nb;
     bn \<leftarrow> FindNeighborTuple ipv nb;
     let higher = (\<not> HigherWeight_node st bn);
     let breaker = (neighborcore_noncoreIndicator bn = CONVERT_BREAK);
     rest \<leftarrow> anchors_3a st nb pairs;
     Some (if \<not> (connected \<and> (higher \<or> breaker)) then (ipv, ipw) # rest else rest)
   }"

fun anchors_3b_x ::
  "Clustering \<Rightarrow> (ipv4addr \<Rightarrow> bool) \<Rightarrow> Neighbors \<Rightarrow> ipv4addr \<Rightarrow> ipv4addr \<Rightarrow> AddressSet \<Rightarrow> bool \<Rightarrow> bool option" where
  "anchors_3b_x st own nb v w [] convert = Some convert"
| "anchors_3b_x st own nb v w (ipx # xs) convert =
     (if convert then Some convert
      else if own ipx then anchors_3b_x st own nb v w xs convert
      else do {
        common_bn \<leftarrow> FindMulticastBnNeighborTuple v ipx nb;
        common_bnw \<leftarrow> FindMulticastBnNeighborTuple w ipx nb;
        if twoHopBnNeighborIfaceAddr common_bn \<noteq> twoHopBnNeighborIfaceAddr common_bnw then None
        else do {
          let higher = (\<not> HigherWeight_2hop st common_bn);
          let breaker = (twoHopBnNeighborIndicator common_bn = CONVERT_BREAK);
          anchors_3b_x st own nb v w xs (convert \<or> higher \<or> breaker)
        }
      })"

fun anchors_3b :: "Clustering \<Rightarrow> (ipv4addr \<Rightarrow> bool) \<Rightarrow> Neighbors \<Rightarrow> Groups \<Rightarrow> Groups option" where
  "anchors_3b st own nb [] = Some []"
| "anchors_3b st own nb (pair # gp) = do {
     nodesx \<leftarrow> GetCommonBN pair nb;
     convert \<leftarrow> anchors_3b_x st own nb (fst pair) (snd pair) nodesx False;
     rest \<leftarrow> anchors_3b st own nb gp;
     Some (if \<not> convert then pair # rest else rest)
   }"

definition anchors_3c :: "Clustering \<Rightarrow> Neighbors \<Rightarrow> Groups \<Rightarrow> Groups option" where
  "anchors_3c st nb gp = (if \<not> Rule1 st then Some gp else anchors_rule1 nb gp)"

definition HeartBeat_Pushjoin_Anchors_3 :: "Clustering \<Rightarrow> (ipv4addr \<Rightarrow> bool) \<Rightarrow> Neighbors \<Rightarrow> bool option" where
  "HeartBeat_Pushjoin_Anchors_3 st own nb = do {
     pairsA \<leftarrow> anchors_3a st nb
       (IsDirectlyConnected (GetOneHopNeighbors NEIGH_NODE nb) (GetOneHopNeighbors CORE nb));
     pairsB \<leftarrow> anchors_3b st own nb pairsA;
     pairsC \<leftarrow> anchors_3c st nb pairsB;
     Some (pairsC = [])
   }"

definition HeartBeat_Pushjoin_Anchors ::
  "Clustering \<Rightarrow> (ipv4addr \<Rightarrow> bool) \<Rightarrow> Neighbors \<Rightarrow> (bool \<times> Clustering) option" where
  "HeartBeat_Pushjoin_Anchors st own nb =
     (if m_localNodeStatus st \<noteq> NEIGH_NODE then None
      else do {
        let cond_1 = HeartBeat_Pushjoin_Anchors_1 nb;
        cond_2 \<leftarrow> HeartBeat_Pushjoin_Anchors_2 st own nb;
        cond_3 \<leftarrow> HeartBeat_Pushjoin_Anchors_3 st own nb;
        let st = SetLocalcore_noncoreIndicator CONVERT_OTHER st;
        let st = (if \<not> cond_1 \<or> \<not> (cond_2 \<and> cond_3)
                  then SetLocalcore_noncoreIndicator CONVERT_BREAK st else st);
        let st = (if cond_1 \<and> \<not> (cond_2 \<and> cond_3)
                  then SetLocalcore_noncoreIndicator CONVERT_ALLOW st else st);
        let BN2BCN = (cond_1 \<and> cond_2 \<and> cond_3);
        Some (BN2BCN, if BN2BCN then SetLocalNodeStatus CORE st else st)
      })"

text \<open>
  The body of \<open>LongTimerExpire\<close>: the purges, the counters, the decision for the node's status, and
  the reset of the hello counters. It answers whether the status changed and which links failed.
\<close>

definition clustering_round ::
  "time \<Rightarrow> (ipv4addr \<Rightarrow> bool) \<Rightarrow> Clustering \<Rightarrow> Neighbors
   \<Rightarrow> (bool \<times> Clustering \<times> Neighbors \<times> ipv4addr list) option" where
  "clustering_round now own st nb =
     (let (nb, failed1) = Neighbors_PurgeHello nb;
          (nb, failed2) = Neighbors_Purge now nb;
          st = UpdateLocalWeight nb st;
          st = UpdateLocalLastBnNeighbors nb st
      in do {
        (changed, st, nb, failed3) \<leftarrow>
          (case m_localNodeStatus st of
             RN_NODE \<Rightarrow> map_option (\<lambda>st. (False, st, nb, [])) (AssociationAlgorithm nb st)
           | CORE \<Rightarrow> do {
               st \<leftarrow> AssociationAlgorithm nb st;
               Joining_Quitting_Mechanism now st nb
             }
           | NEIGH_NODE \<Rightarrow> map_option (\<lambda>(b, st). (b, st, nb, [])) (HeartBeat_Pushjoin_Anchors st own nb));
        Some (changed, st, Neighbors_ResetHelloCounter nb, failed1 @ failed2 @ failed3)
      })"

end
