(* ===== verification/Clustering_Correct.thy ===== *)
theory Clustering_Correct
  imports Clustering
begin

text \<open>
  What the clustering decisions compute. The loops of \<open>Clustering\<close> run over lists of neighbours and
  stop early; here each is shown to return, on a well-formed neighbour list, the truth of a formula
  over the two-hop sets the neighbours advertised. From that follow the properties: no assertion
  of a clustering round can fail, and a node joins or leaves the backbone exactly under the stated
  conditions.
\<close>

section \<open>The neighbourhood as sets\<close>

definition has_status :: "NodeStatus \<Rightarrow> Neighbors \<Rightarrow> ipv4addr \<Rightarrow> bool" where
  "has_status s nb a \<longleftrightarrow> (\<exists>nt. FindNeighborTuple a nb = Some nt \<and> neighborNodeStatus nt = s)"

definition adjacent :: "Neighbors \<Rightarrow> ipv4addr \<Rightarrow> ipv4addr \<Rightarrow> bool" where
  "adjacent nb v w \<longleftrightarrow> w \<in> two_hops v nb \<or> v \<in> two_hops w nb"

definition share_bn :: "Neighbors \<Rightarrow> ipv4addr \<Rightarrow> ipv4addr \<Rightarrow> bool" where
  "share_bn nb v w \<longleftrightarrow> two_hops v nb \<inter> two_hops w nb \<noteq> {}"

text \<open>Rule 1: two other backbone neighbours \<open>x\<close>, \<open>y\<close>, next to each other, join \<open>v\<close> and \<open>w\<close> by three hops.\<close>

definition three_hop :: "Neighbors \<Rightarrow> ipv4addr \<Rightarrow> ipv4addr \<Rightarrow> bool" where
  "three_hop nb v w \<longleftrightarrow> (\<exists>x y. has_status NEIGH_NODE nb x \<and> has_status NEIGH_NODE nb y \<and> x \<noteq> y
     \<and> adjacent nb x y \<and> x \<noteq> v \<and> x \<noteq> w \<and> y \<noteq> v \<and> y \<noteq> w
     \<and> (x \<in> two_hops w nb \<and> y \<in> two_hops v nb \<or> y \<in> two_hops w nb \<and> x \<in> two_hops v nb))"

definition connected :: "Clustering \<Rightarrow> Neighbors \<Rightarrow> ipv4addr \<Rightarrow> ipv4addr \<Rightarrow> bool" where
  "connected st nb v w \<longleftrightarrow> adjacent nb v w \<or> share_bn nb v w \<or> Rule1 st \<and> three_hop nb v w"

lemma Find_mem:
  "Neighbors_wf nb \<Longrightarrow> nt \<in> set (localNeighborList nb) \<Longrightarrow> FindNeighborTuple (neighborIfaceAddr nt) nb = Some nt"
  by (simp add: Neighbors_wf_def FindNeighborTuple_def find_distinct)

lemma mem_Find: "FindNeighborTuple a nb = Some nt \<Longrightarrow> nt \<in> set (localNeighborList nb) \<and> neighborIfaceAddr nt = a"
  unfolding FindNeighborTuple_def by (rule find_Some_mem)

lemma OneHop_mem:
  "Neighbors_wf nb \<Longrightarrow> nt \<in> set (GetOneHopNeighbors s nb) \<longleftrightarrow>
   FindNeighborTuple (neighborIfaceAddr nt) nb = Some nt \<and> neighborNodeStatus nt = s"
  by (auto simp: GetOneHopNeighbors_def Find_mem dest: mem_Find)

lemma OneHop_addresses:
  assumes "Neighbors_wf nb"
  shows "neighborIfaceAddr ` set (GetOneHopNeighbors s nb) = {a. has_status s nb a}"
proof (intro set_eqI iffI)
  fix a
  assume "a \<in> neighborIfaceAddr ` set (GetOneHopNeighbors s nb)"
  then show "a \<in> {a. has_status s nb a}" by (auto simp: OneHop_mem [OF assms] has_status_def)
next
  fix a
  assume "a \<in> {a. has_status s nb a}"
  then obtain nt where nt: "FindNeighborTuple a nb = Some nt" "neighborNodeStatus nt = s"
    by (auto simp: has_status_def)
  with mem_Find [OF nt(1)] have "nt \<in> set (GetOneHopNeighbors s nb)" "neighborIfaceAddr nt = a"
    by (simp_all add: OneHop_mem [OF assms])
  then show "a \<in> neighborIfaceAddr ` set (GetOneHopNeighbors s nb)" by blast
qed

lemma OneHop_empty: "Neighbors_wf nb \<Longrightarrow> GetOneHopNeighbors s nb = [] \<longleftrightarrow> (\<forall>a. \<not> has_status s nb a)"
  using OneHop_addresses [of nb s] by (cases "GetOneHopNeighbors s nb") auto

lemma known_Multicast:
  "FindNeighborTuple a nb \<noteq> None \<Longrightarrow> \<exists>l. GetMulticastNeighbors a nb = Some l \<and> set l = two_hops a nb"
  by (auto simp: GetMulticastNeighbors_def two_hops_def)

lemma Are1Hop_known:
  "FindNeighborTuple v nb \<noteq> None \<Longrightarrow> FindNeighborTuple w nb \<noteq> None \<Longrightarrow>
   RoutingProtocol_Are1HopNeighbors v w nb = Some (adjacent nb v w)"
  using known_Multicast [of v nb] known_Multicast [of w nb]
  by (auto simp: RoutingProtocol_Are1HopNeighbors_def adjacent_def Intersection_addr_empty)

lemma Are2Hop_known:
  "FindNeighborTuple v nb \<noteq> None \<Longrightarrow> FindNeighborTuple w nb \<noteq> None \<Longrightarrow>
   RoutingProtocol_Are2HopNeighbors v w nb = Some (share_bn nb v w)"
  using known_Multicast [of v nb] known_Multicast [of w nb]
  by (auto simp: RoutingProtocol_Are2HopNeighbors_def share_bn_def Intersection_empty)

lemma status_known: "has_status s nb a \<Longrightarrow> FindNeighborTuple a nb \<noteq> None"
  by (auto simp: has_status_def)

lemma adjacent_sym: "adjacent nb v w \<longleftrightarrow> adjacent nb w v"
  by (auto simp: adjacent_def)

lemma IsDirectlyConnected_mem:
  "(v, w) \<in> set (IsDirectlyConnected A B)
   \<longleftrightarrow> v \<noteq> w \<and> v \<in> neighborIfaceAddr ` set A \<and> w \<in> neighborIfaceAddr ` set B"
  by (auto simp: IsDirectlyConnected_def)

lemma pairs_mem:
  "Neighbors_wf nb \<Longrightarrow>
   (v, w) \<in> set (IsDirectlyConnected (GetOneHopNeighbors s nb) (GetOneHopNeighbors s' nb))
   \<longleftrightarrow> v \<noteq> w \<and> has_status s nb v \<and> has_status s' nb w"
  using OneHop_addresses [of nb s] OneHop_addresses [of nb s'] by (auto simp: IsDirectlyConnected_mem)

lemma BN_pairs_mem:
  "Neighbors_wf nb \<Longrightarrow> (v, w) \<in> set (BN_pairs nb)
   \<longleftrightarrow> v \<noteq> w \<and> has_status NEIGH_NODE nb v \<and> has_status NEIGH_NODE nb w"
  by (simp add: BN_pairs_def pairs_mem)

text \<open>Only the list matters.\<close>

lemma same_list:
  assumes "localNeighborList nb' = localNeighborList nb"
  shows "FindNeighborTuple a nb' = FindNeighborTuple a nb"
    and "GetOneHopNeighbors s nb' = GetOneHopNeighbors s nb"
    and "two_hops a nb' = two_hops a nb"
    and "has_status s nb' a = has_status s nb a"
    and "adjacent nb' v w = adjacent nb v w"
    and "share_bn nb' v w = share_bn nb v w"
    and "three_hop nb' v w = three_hop nb v w"
    and "connected st nb' v w = connected st nb v w"
proof -
  show f: "FindNeighborTuple a nb' = FindNeighborTuple a nb" for a
    by (simp add: FindNeighborTuple_def assms)
  show "GetOneHopNeighbors s nb' = GetOneHopNeighbors s nb"
    by (simp add: GetOneHopNeighbors_def assms)
  show t: "two_hops a nb' = two_hops a nb" for a by (simp add: two_hops_def f)
  show h: "has_status s nb' a = has_status s nb a" for s a by (simp add: has_status_def f)
  show a: "adjacent nb' v w = adjacent nb v w" for v w by (simp add: adjacent_def t)
  show s: "share_bn nb' v w = share_bn nb v w" for v w by (simp add: share_bn_def t)
  show three: "three_hop nb' v w = three_hop nb v w" for v w by (simp add: three_hop_def h a t)
  show "connected st nb' v w = connected st nb v w" by (simp add: connected_def a s three)
qed

section \<open>Rule 1\<close>

definition joins_by :: "Neighbors \<Rightarrow> ipv4addr \<Rightarrow> ipv4addr \<Rightarrow> ipv4addr \<times> ipv4addr \<Rightarrow> bool" where
  "joins_by nb v w xy \<longleftrightarrow> adjacent nb (fst xy) (snd xy)
     \<and> fst xy \<noteq> v \<and> fst xy \<noteq> w \<and> snd xy \<noteq> v \<and> snd xy \<noteq> w
     \<and> (fst xy \<in> two_hops w nb \<and> snd xy \<in> two_hops v nb
        \<or> snd xy \<in> two_hops w nb \<and> fst xy \<in> two_hops v nb)"

lemma nondc_loop_eq:
  assumes "FindNeighborTuple v nb \<noteq> None" "FindNeighborTuple w nb \<noteq> None"
    and "\<forall>(x, y)\<in>set xys. FindNeighborTuple x nb \<noteq> None \<and> FindNeighborTuple y nb \<noteq> None"
  shows "nondc_loop nb v w xys e = Some (e \<or> (\<exists>xy\<in>set xys. joins_by nb v w xy))"
  using assms(3)
proof (induction xys arbitrary: e)
  case (Cons xy xys)
  obtain x y where xy: "xy = (x, y)" by fastforce
  obtain lv lw where "GetMulticastNeighbors v nb = Some lv" "set lv = two_hops v nb"
    "GetMulticastNeighbors w nb = Some lw" "set lw = two_hops w nb"
    using known_Multicast [OF assms(1)] known_Multicast [OF assms(2)] by blast
  with Cons xy Are1Hop_known [of x nb y] show ?case
    by (auto simp: Intersection_addr_empty joins_by_def Let_def)
qed simp

lemma NonDC_eq:
  assumes "Neighbors_wf nb" "has_status NEIGH_NODE nb v" "has_status NEIGH_NODE nb w \<or> has_status CORE nb w"
  shows "HandlePushJoinNonDC nb v w = Some (three_hop nb v w)"
proof -
  have known: "FindNeighborTuple v nb \<noteq> None" "FindNeighborTuple w nb \<noteq> None"
    using assms(2,3) by (auto simp: has_status_def)
  have "nondc_loop nb v w (BN_pairs nb) False = Some (\<exists>xy\<in>set (BN_pairs nb). joins_by nb v w xy)"
    by (subst nondc_loop_eq [OF known]) (auto simp: BN_pairs_mem [OF assms(1)] has_status_def)
  also have "(\<exists>xy\<in>set (BN_pairs nb). joins_by nb v w xy) = three_hop nb v w"
    by (auto simp: BN_pairs_mem [OF assms(1)] three_hop_def joins_by_def Bex_def)
  finally show ?thesis
    using assms(2,3) by (auto simp: HandlePushJoinNonDC_def has_status_def)
qed

lemma rule1_eq:
  assumes "Neighbors_wf nb" "has_status NEIGH_NODE nb v" "has_status NEIGH_NODE nb w \<or> has_status CORE nb w"
  shows "rule1_connected st nb v w = Some (Rule1 st \<and> three_hop nb v w)"
  by (simp add: rule1_connected_def NonDC_eq [OF assms])

section \<open>Joining\<close>

text \<open>A neighbour that weighs more than this node, or as much with no smaller an address.\<close>

definition outranked :: "Clustering \<Rightarrow> Neighbors \<Rightarrow> ipv4addr \<Rightarrow> bool" where
  "outranked st nb x \<longleftrightarrow> (\<exists>nt. FindNeighborTuple x nb = Some nt \<and> (m_localWeight st < neighborWeight nt
     \<or> m_localWeight st = neighborWeight nt \<and> m_mainAddress st \<le> neighborIfaceAddr nt))"

lemma outranked_known:
  "FindNeighborTuple x nb = Some nt \<Longrightarrow> outranked st nb x \<longleftrightarrow> \<not> HigherWeight_node st nt"
  by (auto simp: outranked_def HigherWeight_node_def HigherWeight_of_def)

lemma HigherWeight_known:
  "FindNeighborTuple x nb \<noteq> None \<Longrightarrow> HigherWeight st nb x = Some (\<not> outranked st nb x)"
  by (auto simp: HigherWeight_def outranked_known)

text \<open>The first reason to join: clients that are not in the backbone, or, without a backbone neighbour, a
  higher rank than the best core capable one.\<close>

definition has_clients :: "Neighbors \<Rightarrow> bool" where
  "has_clients nb \<longleftrightarrow> (\<exists>a nt. FindNeighborTuple a nb = Some nt \<and> neighborClient nt \<and> neighborNodeStatus nt \<in> {CORE, RN_NODE})"

lemma best_core:
  assumes "Neighbors_wf nb"
  shows "GetBestNeighbor CORE nb = None \<longleftrightarrow> (\<forall>a. \<not> has_status CORE nb a)"
    and "GetBestNeighbor CORE nb = Some best \<Longrightarrow> has_status CORE nb (neighborIfaceAddr best)
        \<and> (\<forall>a nt. FindNeighborTuple a nb = Some nt \<longrightarrow> neighborNodeStatus nt = CORE \<longrightarrow> neighborWeight nt \<le> neighborWeight best
          \<and> (neighborWeight nt = neighborWeight best \<and> neighborcore_noncoreIndicator nt = neighborcore_noncoreIndicator best
              \<longrightarrow> a \<le> neighborIfaceAddr best))"
proof -
  note opt = best_neighbor_optimal [of CORE nb]
  show "GetBestNeighbor CORE nb = None \<longleftrightarrow> (\<forall>a. \<not> has_status CORE nb a)"
    using opt OneHop_empty [OF assms, of CORE] by (cases "GetBestNeighbor CORE nb") auto
  have mem: "nt \<in> set (GetOneHopNeighbors CORE nb) \<and> neighborIfaceAddr nt = a"
    if "FindNeighborTuple a nb = Some nt" "neighborNodeStatus nt = CORE" for a nt
    using mem_Find [OF that(1)] that by (simp add: OneHop_mem [OF assms])
  assume "GetBestNeighbor CORE nb = Some best"
  then show "has_status CORE nb (neighborIfaceAddr best)
        \<and> (\<forall>a nt. FindNeighborTuple a nb = Some nt \<longrightarrow> neighborNodeStatus nt = CORE \<longrightarrow> neighborWeight nt \<le> neighborWeight best
          \<and> (neighborWeight nt = neighborWeight best \<and> neighborcore_noncoreIndicator nt = neighborcore_noncoreIndicator best
              \<longrightarrow> a \<le> neighborIfaceAddr best))"
    using opt OneHop_mem [OF assms, of best CORE] by (auto simp: has_status_def dest!: mem)
qed

lemma HandleJoin_eq:
  assumes "Neighbors_wf nb"
  shows "HandleJoin st nb \<longleftrightarrow> has_clients nb \<or> (\<forall>a. \<not> has_status NEIGH_NODE nb a)
    \<and> (\<exists>best. GetBestNeighbor CORE nb = Some best \<and> \<not> outranked st nb (neighborIfaceAddr best))"
proof -
  have "neighborClient nt \<and> neighborNodeStatus nt \<in> {CORE, RN_NODE} \<longrightarrow> has_clients nb"
    if "nt \<in> set (localNeighborList nb)" for nt
    using Find_mem [OF assms that] by (auto simp: has_clients_def)
  moreover have "\<exists>nt\<in>set (localNeighborList nb). neighborClient nt \<and> neighborNodeStatus nt \<in> {CORE, RN_NODE}"
    if "has_clients nb" using that by (auto simp: has_clients_def dest: mem_Find)
  ultimately have clients: "has_clients nb \<longleftrightarrow> \<not> (GetClients_of CORE nb = [] \<and> GetClients_of RN_NODE nb = [])"
    by (auto simp: GetClients_of_def filter_empty_iff)
  have "outranked st nb (neighborIfaceAddr b) \<longleftrightarrow> \<not> HigherWeight_node st b" if "GetBestNeighbor CORE nb = Some b" for b
    using best_neighbor_optimal [of CORE nb] OneHop_mem [OF assms] that by (simp add: outranked_known)
  then show ?thesis
    by (auto simp: HandleJoin_def Let_def clients OneHop_empty [OF assms] split: option.split)
qed

lemma push_join_x_eq:
  assumes "FindNeighborTuple v nb \<noteq> None" "FindNeighborTuple w nb \<noteq> None"
    and "\<forall>x\<in>set xs. FindNeighborTuple (neighborIfaceAddr x) nb \<noteq> None"
  shows "push_join_x st nb v w xs e = Some (e \<or> (\<exists>x\<in>neighborIfaceAddr ` set xs.
    adjacent nb x v \<and> adjacent nb x w \<and> outranked st nb x))"
  using assms(3)
proof (induction xs arbitrary: e)
  case (Cons a xs)
  with assms(1,2) show ?case
    by (auto simp: Are1Hop_known HigherWeight_known Let_def)
qed simp

lemma OneHop_known:
  "Neighbors_wf nb \<Longrightarrow> \<forall>x\<in>set (GetOneHopNeighbors s nb). FindNeighborTuple (neighborIfaceAddr x) nb \<noteq> None"
  by (simp add: OneHop_mem)

definition push_join_needed :: "Clustering \<Rightarrow> Neighbors \<Rightarrow> ipv4addr \<Rightarrow> ipv4addr \<Rightarrow> bool" where
  "push_join_needed st nb v w \<longleftrightarrow> \<not> connected st nb v w
     \<and> \<not> (\<exists>x. has_status CORE nb x \<and> adjacent nb x v \<and> adjacent nb x w \<and> outranked st nb x)"

lemma push_join_loop_eq:
  assumes "Neighbors_wf nb"
    and "\<forall>(v, w)\<in>set pairs. v \<noteq> w \<and> has_status NEIGH_NODE nb v \<and> has_status NEIGH_NODE nb w"
  shows "push_join_loop st nb pairs e = Some (e \<or> (\<exists>(v, w)\<in>set pairs. push_join_needed st nb v w))"
  using assms(2)
proof (induction pairs arbitrary: e)
  case (Cons p pairs)
  obtain v w where p: "p = (v, w)" by fastforce
  with Cons.prems have s: "has_status NEIGH_NODE nb v" "has_status NEIGH_NODE nb w" "v \<noteq> w" by auto
  then have known: "FindNeighborTuple v nb \<noteq> None" "FindNeighborTuple w nb \<noteq> None"
    by (auto dest: status_known)
  obtain lv lw where l: "GetMulticastNeighbors v nb = Some lv" "set lv = two_hops v nb"
    "GetMulticastNeighbors w nb = Some lw" "set lw = two_hops w nb"
    using known_Multicast [OF known(1)] known_Multicast [OF known(2)] by blast
  have onetwo: "(Intersection (lv @ [v]) (lw @ [w]) \<noteq> []) = (adjacent nb v w \<or> share_bn nb v w)"
    using s(3) l by (auto simp: Intersection_empty adjacent_def share_bn_def)
  have x: "push_join_x st nb v w (GetOneHopNeighbors CORE nb) False = Some
      (\<exists>x. has_status CORE nb x \<and> adjacent nb x v \<and> adjacent nb x w \<and> outranked st nb x)"
    by (simp add: push_join_x_eq [OF known OneHop_known [OF assms(1)]] OneHop_addresses [OF assms(1)] Bex_def)
  have IH: "push_join_loop st nb pairs e = Some (e \<or> (\<exists>(v, w)\<in>set pairs. push_join_needed st nb v w))" for e
    using Cons by simp
  show ?case
    using onetwo
    by (auto simp: p l Are1Hop_known [OF known] Are2Hop_known [OF known] rule1_eq [OF assms(1) s(1) disjI1 [OF s(2)]]
        x IH push_join_needed_def connected_def Let_def)
qed simp

lemma HandlePushJoin_eq:
  assumes "Neighbors_wf nb"
  shows "HandlePushJoin st nb = Some (\<exists>v w. v \<noteq> w \<and> has_status NEIGH_NODE nb v \<and> has_status NEIGH_NODE nb w
    \<and> push_join_needed st nb v w)"
  unfolding HandlePushJoin_def
  by (subst push_join_loop_eq [OF assms]) (auto simp: BN_pairs_mem [OF assms] Bex_def)

section \<open>Pairs of a backbone and a core capable neighbour\<close>

definition all_alive :: "time \<Rightarrow> Neighbors \<Rightarrow> bool" where
  "all_alive now nb \<longleftrightarrow> (\<forall>nt\<in>set (localNeighborList nb). \<not> CloseOneHopNeighbor now nt)"

lemma all_alive_Purge: "Neighbors_wf nb \<Longrightarrow> all_alive now (fst (Neighbors_Purge now nb))"
  by (simp add: all_alive_def Neighbors_wf_def Purge_list)

lemma IsNeighbor_alive:
  assumes "Neighbors_wf nb" "all_alive now nb"
  obtains nb' where "Neighbors_IsNeighbor now a nb = (FindNeighborTuple a nb \<noteq> None, nb', [])"
    "localNeighborList nb' = localNeighborList nb" "Neighbors_wf nb'" "all_alive now nb'"
proof -
  obtain nb' fs where p: "Neighbors_Purge now nb = (nb', fs)" by fastforce
  have cb: "m_handleLinkFailure nb" using assms(1) by (simp add: Neighbors_wf_def)
  have l: "localNeighborList nb' = localNeighborList nb"
    using Purge_list [OF cb, of now] p assms(2) one_hop.purge_noop by (simp add: all_alive_def)
  have "fs = []" using Purge_failed [OF cb, of now] p assms(2) by (simp add: all_alive_def filter_empty_iff)
  moreover have "Neighbors_wf nb'" using Purge_wf [OF assms(1), of now] p by simp
  moreover have "(\<exists>i\<in>set (localNeighborList nb). neighborIfaceAddr i = a) = (FindNeighborTuple a nb \<noteq> None)"
    by (auto simp: find_None_notin)
  ultimately show thesis
    using that [of nb'] assms(2) l p by (simp add: Neighbors_IsNeighbor_def all_alive_def)
qed

lemma not_duplex_loop_eq:
  assumes "Neighbors_wf nb" "all_alive now nb"
    and "\<forall>(v, w)\<in>set pairs. v \<noteq> w \<and> has_status NEIGH_NODE nb v \<and> has_status CORE nb w"
  shows "\<exists>nb'. not_duplex_loop now st pairs nc nb
      = Some (nc @ filter (\<lambda>(v, w). \<not> connected st nb v w) pairs, nb', [])
    \<and> localNeighborList nb' = localNeighborList nb \<and> Neighbors_wf nb' \<and> all_alive now nb'"
  using assms
proof (induction pairs arbitrary: nc nb)
  case (Cons p pairs)
  obtain v w where p: "p = (v, w)" by fastforce
  with Cons.prems have s: "has_status NEIGH_NODE nb v" "has_status CORE nb w" "v \<noteq> w" by auto
  then have known: "FindNeighborTuple v nb \<noteq> None" "FindNeighborTuple w nb \<noteq> None"
    by (auto dest: status_known)
  obtain nb1 where 1: "Neighbors_IsNeighbor now v nb = (FindNeighborTuple v nb \<noteq> None, nb1, [])"
    "localNeighborList nb1 = localNeighborList nb" "Neighbors_wf nb1" "all_alive now nb1"
    by (rule IsNeighbor_alive [OF Cons.prems(1,2)])
  obtain nb2 where 2: "Neighbors_IsNeighbor now w nb1 = (FindNeighborTuple w nb1 \<noteq> None, nb2, [])"
    "localNeighborList nb2 = localNeighborList nb1" "Neighbors_wf nb2" "all_alive now nb2"
    by (rule IsNeighbor_alive [OF 1(3,4)])
  have l2: "localNeighborList nb2 = localNeighborList nb" using 1 2 by simp
  note same = same_list [OF l2] same_list [OF 1(2)]
  have k2: "FindNeighborTuple v nb2 \<noteq> None" "FindNeighborTuple w nb2 \<noteq> None"
    using known by (simp_all add: same)
  obtain lv lw where m: "GetMulticastNeighbors v nb2 = Some lv" "set lv = two_hops v nb"
    "GetMulticastNeighbors w nb2 = Some lw" "set lw = two_hops w nb"
    using known_Multicast [OF k2(1)] known_Multicast [OF k2(2)] by (auto simp: same)
  have r: "rule1_connected st nb2 v w = Some (Rule1 st \<and> three_hop nb v w)"
    using rule1_eq [OF 2(3), of v w st] s by (simp add: same)
  have hop: "Intersection_addr lv w = [] \<longleftrightarrow> w \<notin> two_hops v nb" "Intersection_addr lw v = [] \<longleftrightarrow> v \<notin> two_hops w nb"
    "Intersection lv lw = [] \<longleftrightarrow> \<not> share_bn nb v w"
    using m by (simp_all add: share_bn_def Intersection_addr_empty Intersection_empty)
  have prems2: "\<forall>(v, w)\<in>set pairs. v \<noteq> w \<and> has_status NEIGH_NODE nb2 v \<and> has_status CORE nb2 w"
    using Cons.prems(3) by (simp add: same)
  define nc' where "nc' = (if connected st nb v w then nc else nc @ [(v, w)])"
  obtain nb' where nb': "not_duplex_loop now st pairs nc' nb2
      = Some (nc' @ filter (\<lambda>(v, w). \<not> connected st nb v w) pairs, nb', [])"
    "localNeighborList nb' = localNeighborList nb" "Neighbors_wf nb'" "all_alive now nb'"
    using Cons.IH [OF 2(3,4) prems2, of nc'] by (auto simp: same l2)
  have is_v: "Neighbors_IsNeighbor now v nb = (True, nb1, [])" and is_w: "Neighbors_IsNeighbor now w nb1 = (True, nb2, [])"
    using 1(1) 2(1) known by (simp_all add: same)
  have "not_duplex_loop now st (p # pairs) nc nb = Some (nc' @ filter (\<lambda>(v, w). \<not> connected st nb v w) pairs, nb', [])"
  proof (cases "adjacent nb v w \<or> share_bn nb v w")
    case True
    then have "nc' = nc" "\<not> (w \<notin> two_hops v nb \<and> v \<notin> two_hops w nb \<and> \<not> share_bn nb v w)"
      by (auto simp: nc'_def connected_def adjacent_def)
    then show ?thesis
      using s(3) nb'(1) by (auto simp: p is_v is_w m(1,3) hop)
  next
    case False
    then have "w \<notin> two_hops v nb" "v \<notin> two_hops w nb" "\<not> share_bn nb v w"
      "nc' = (if Rule1 st \<and> three_hop nb v w then nc else nc @ [(v, w)])"
      by (auto simp: nc'_def connected_def adjacent_def)
    then show ?thesis
      using s(3) nb'(1) by (auto simp: p is_v is_w m(1,3) hop r)
  qed
  then show ?case using nb' by (auto simp: p nc'_def)
qed simp

definition duplex_needed :: "Clustering \<Rightarrow> Neighbors \<Rightarrow> ipv4addr \<Rightarrow> ipv4addr \<Rightarrow> bool" where
  "duplex_needed st nb v w \<longleftrightarrow> \<not> connected st nb v w \<and> two_hops w nb \<noteq> {}
     \<and> \<not> (\<exists>x. has_status CORE nb x \<and> x \<noteq> w \<and> v \<in> two_hops x nb \<and> share_bn nb x w \<and> outranked st nb x)"

lemma duplex_x_eq:
  assumes "set NBNw = two_hops w nb"
    and "\<forall>x\<in>set xs. FindNeighborTuple (neighborIfaceAddr x) nb \<noteq> None"
  shows "duplex_x st nb v w NBNw xs e = Some (e \<or> (\<exists>x\<in>neighborIfaceAddr ` set xs.
    x \<noteq> w \<and> v \<in> two_hops x nb \<and> share_bn nb x w \<and> outranked st nb x))"
  using assms(2)
proof (induction xs arbitrary: e)
  case (Cons a xs)
  then have k: "FindNeighborTuple (neighborIfaceAddr a) nb \<noteq> None" by simp
  obtain la where "GetMulticastNeighbors (neighborIfaceAddr a) nb = Some la"
    "set la = two_hops (neighborIfaceAddr a) nb"
    using known_Multicast [OF k] by blast
  with Cons assms(1) HigherWeight_known [OF k, of st] show ?case
    by (auto simp: Intersection_addr_empty Intersection_empty share_bn_def Let_def)
qed simp

lemma duplex_loop_eq:
  assumes "Neighbors_wf nb"
    and "\<forall>(v, w)\<in>set pairs. has_status NEIGH_NODE nb v \<and> has_status CORE nb w \<and> \<not> connected st nb v w"
  shows "duplex_loop st nb pairs e = Some (e \<or> (\<exists>(v, w)\<in>set pairs. duplex_needed st nb v w))"
  using assms(2)
proof (induction pairs arbitrary: e)
  case (Cons p pairs)
  obtain v w where p: "p = (v, w)" by fastforce
  with Cons.prems have s: "has_status NEIGH_NODE nb v" "has_status CORE nb w" "\<not> connected st nb v w" by auto
  then have known: "FindNeighborTuple v nb \<noteq> None" "FindNeighborTuple w nb \<noteq> None"
    by (auto dest: status_known)
  obtain lv lw where l: "GetMulticastNeighbors v nb = Some lv" "set lv = two_hops v nb"
    "GetMulticastNeighbors w nb = Some lw" "set lw = two_hops w nb"
    using known_Multicast [OF known(1)] known_Multicast [OF known(2)] by blast
  have assertion: "Intersection lw (v # lv) = []"
    using s(3) l by (auto simp: Intersection_empty connected_def adjacent_def share_bn_def)
  have x: "duplex_x st nb v w lw (GetOneHopNeighbors CORE nb) False = Some
      (\<exists>x. has_status CORE nb x \<and> x \<noteq> w \<and> v \<in> two_hops x nb \<and> share_bn nb x w \<and> outranked st nb x)"
    by (simp add: duplex_x_eq [OF l(4) OneHop_known [OF assms(1)]] OneHop_addresses [OF assms(1)] Bex_def)
  have empty: "lw = [] \<longleftrightarrow> two_hops w nb = {}" using l(4) by auto
  have IH: "duplex_loop st nb pairs e = Some (e \<or> (\<exists>(v, w)\<in>set pairs. duplex_needed st nb v w))" for e
    using Cons by simp
  show ?case
    using s(3) by (auto simp: p l(1,3) assertion x IH duplex_needed_def empty)
qed simp

lemma HandleJoinAmDuplex_eq:
  assumes "Neighbors_wf nb" "all_alive now nb"
  shows "\<exists>nb'. HandleJoinAmDuplex now st nb = Some (\<exists>v w. v \<noteq> w \<and> has_status NEIGH_NODE nb v
      \<and> has_status CORE nb w \<and> duplex_needed st nb v w, nb', [])
    \<and> localNeighborList nb' = localNeighborList nb \<and> Neighbors_wf nb'"
proof -
  let ?pairs = "IsDirectlyConnected (GetOneHopNeighbors NEIGH_NODE nb) (GetOneHopNeighbors CORE nb)"
  have mem: "(v, w) \<in> set ?pairs \<longleftrightarrow> v \<noteq> w \<and> has_status NEIGH_NODE nb v \<and> has_status CORE nb w" for v w
    by (rule pairs_mem [OF assms(1)])
  obtain nb' where loop: "not_duplex_loop now st ?pairs [] nb
      = Some (filter (\<lambda>(v, w). \<not> connected st nb v w) ?pairs, nb', [])"
    and nb': "localNeighborList nb' = localNeighborList nb" "Neighbors_wf nb'"
    using not_duplex_loop_eq [OF assms, of ?pairs st "[]"] mem by auto
  note same = same_list [OF nb'(1)]
  have dn: "duplex_needed st nb' v w = duplex_needed st nb v w" for v w
    by (simp add: duplex_needed_def same outranked_def)
  let ?open = "filter (\<lambda>(v, w). \<not> connected st nb v w) ?pairs"
  have "duplex_loop st nb' ?open False = Some (\<exists>(v, w)\<in>set ?open. duplex_needed st nb v w)"
    using mem by (subst duplex_loop_eq [OF nb'(2)]) (auto simp: same dn)
  moreover have "(\<exists>(v, w)\<in>set ?open. duplex_needed st nb v w) \<longleftrightarrow> (\<exists>v w. v \<noteq> w \<and> has_status NEIGH_NODE nb v
      \<and> has_status CORE nb w \<and> duplex_needed st nb v w)" (is "?l \<longleftrightarrow> ?r")
  proof
    assume ?l
    then show ?r using mem by auto
  next
    assume ?r
    then obtain v w where vw: "v \<noteq> w" "has_status NEIGH_NODE nb v" "has_status CORE nb w" "duplex_needed st nb v w"
      by blast
    then have "(v, w) \<in> set ?open" using mem by (simp add: duplex_needed_def)
    with vw(4) show ?l by blast
  qed
  ultimately show ?thesis
    using loop nb' by (cases "?open = []") (auto simp: HandleJoinAmDuplex_def HandleJoinAmNotDuplex_def)
qed

section \<open>Leaving\<close>

definition breaks :: "Neighbors \<Rightarrow> ipv4addr \<Rightarrow> bool" where
  "breaks nb a \<longleftrightarrow> (\<exists>nt. FindNeighborTuple a nb = Some nt \<and> neighborcore_noncoreIndicator nt = CONVERT_BREAK)"

definition via_common :: "Clustering \<Rightarrow> (ipv4addr \<Rightarrow> bool) \<Rightarrow> Neighbors \<Rightarrow> ipv4addr \<Rightarrow> ipv4addr \<Rightarrow> bool" where
  "via_common st own nb v w \<longleftrightarrow> (\<exists>x \<in> two_hops v nb \<inter> two_hops w nb. \<not> own x
     \<and> (\<exists>n. FindMulticastBnNeighborTuple v x nb = Some n
          \<and> (\<not> HigherWeight_2hop st n \<or> twoHopBnNeighborIndicator n = CONVERT_BREAK)))"

definition bridged_bn :: "Clustering \<Rightarrow> (ipv4addr \<Rightarrow> bool) \<Rightarrow> Neighbors \<Rightarrow> ipv4addr \<Rightarrow> ipv4addr \<Rightarrow> bool" where
  "bridged_bn st own nb v w \<longleftrightarrow>
     adjacent nb v w \<and> (outranked st nb v \<or> outranked st nb w \<or> breaks nb v \<or> breaks nb w)
     \<or> via_common st own nb v w \<or> Rule1 st \<and> three_hop nb v w"

definition bridged_core :: "Clustering \<Rightarrow> (ipv4addr \<Rightarrow> bool) \<Rightarrow> Neighbors \<Rightarrow> ipv4addr \<Rightarrow> ipv4addr \<Rightarrow> bool" where
  "bridged_core st own nb v w \<longleftrightarrow>
     adjacent nb v w \<and> (outranked st nb v \<or> breaks nb v)
     \<or> via_common st own nb v w \<or> Rule1 st \<and> three_hop nb v w"

definition known_pairs :: "Neighbors \<Rightarrow> Groups \<Rightarrow> bool" where
  "known_pairs nb gp \<longleftrightarrow> (\<forall>(v, w)\<in>set gp. has_status NEIGH_NODE nb v
     \<and> (has_status NEIGH_NODE nb w \<or> has_status CORE nb w))"

lemma known_pairs_Cons [simp]:
  "known_pairs nb ((v, w) # gp) \<longleftrightarrow> has_status NEIGH_NODE nb v
     \<and> (has_status NEIGH_NODE nb w \<or> has_status CORE nb w) \<and> known_pairs nb gp"
  by (simp add: known_pairs_def)

lemma known_pairs_filter: "known_pairs nb gp \<Longrightarrow> known_pairs nb (filter P gp)"
  by (auto simp: known_pairs_def)

lemma known_pairs_known:
  assumes "known_pairs nb ((v, w) # gp)"
  obtains nv nw where "FindNeighborTuple v nb = Some nv" "FindNeighborTuple w nb = Some nw"
    "known_pairs nb gp"
  using assms by (auto simp: has_status_def)

lemma anchors_2a_eq:
  "known_pairs nb gp \<Longrightarrow> anchors_2a st nb gp = Some (filter (\<lambda>(v, w). \<not> (adjacent nb v w
     \<and> (outranked st nb v \<or> outranked st nb w \<or> breaks nb v \<or> breaks nb w))) gp)"
proof (induction gp)
  case (Cons p gp)
  obtain v w where p: "p = (v, w)" by fastforce
  from Cons.prems p have "known_pairs nb ((v, w) # gp)" by simp
  then obtain nv nw where k: "FindNeighborTuple v nb = Some nv" "FindNeighborTuple w nb = Some nw"
    "known_pairs nb gp" by (rule known_pairs_known)
  have "outranked st nb v = (\<not> HigherWeight_node st nv)" "outranked st nb w = (\<not> HigherWeight_node st nw)"
    "breaks nb v = (neighborcore_noncoreIndicator nv = CONVERT_BREAK)"
    "breaks nb w = (neighborcore_noncoreIndicator nw = CONVERT_BREAK)"
    using k by (simp_all add: outranked_known breaks_def)
  with k Cons.IH Are1Hop_known [of v nb w] show ?case by (auto simp: p Let_def)
qed simp

lemma anchors_3a_eq:
  "known_pairs nb gp \<Longrightarrow> anchors_3a st nb gp = Some (filter (\<lambda>(v, w). \<not> (adjacent nb v w
     \<and> (outranked st nb v \<or> breaks nb v))) gp)"
proof (induction gp)
  case (Cons p gp)
  obtain v w where p: "p = (v, w)" by fastforce
  from Cons.prems p have "known_pairs nb ((v, w) # gp)" by simp
  then obtain nv nw where k: "FindNeighborTuple v nb = Some nv" "FindNeighborTuple w nb = Some nw"
    "known_pairs nb gp" by (rule known_pairs_known)
  have "outranked st nb v = (\<not> HigherWeight_node st nv)"
    "breaks nb v = (neighborcore_noncoreIndicator nv = CONVERT_BREAK)"
    using k by (simp_all add: outranked_known breaks_def)
  moreover obtain l where "GetMulticastNeighbors w nb = Some l"
    using known_Multicast [of w nb] k by auto
  ultimately show ?case using k Cons.IH Are1Hop_known [of v nb w] by (auto simp: p Let_def)
qed simp

lemma two_hop_tuple:
  "x \<in> two_hops v nb \<Longrightarrow> \<exists>n. FindMulticastBnNeighborTuple v x nb = Some n \<and> twoHopBnNeighborIfaceAddr n = x"
proof -
  assume "x \<in> two_hops v nb"
  then obtain nt where "FindNeighborTuple v nb = Some nt"
    "x \<in> twoHopBnNeighborIfaceAddr ` set (neighborBnNeighbors nt)"
    by (auto simp: two_hops_def split: option.splits)
  then show ?thesis
    by (cases "List.find (\<lambda>n. twoHopBnNeighborIfaceAddr n = x) (neighborBnNeighbors nt)")
      (auto simp: FindMulticastBnNeighborTuple_def find_key_None dest: find_Some_mem)
qed

definition good_common :: "Clustering \<Rightarrow> (ipv4addr \<Rightarrow> bool) \<Rightarrow> Neighbors \<Rightarrow> ipv4addr \<Rightarrow> ipv4addr \<Rightarrow> bool" where
  "good_common st own nb v x \<longleftrightarrow> \<not> own x \<and> (\<exists>n. FindMulticastBnNeighborTuple v x nb = Some n
     \<and> (\<not> HigherWeight_2hop st n \<or> twoHopBnNeighborIndicator n = CONVERT_BREAK))"

lemma anchors_2b_x_eq:
  "set xs \<subseteq> two_hops v nb \<Longrightarrow> anchors_2b_x st own nb v xs c = Some (c \<or> (\<exists>x\<in>set xs. good_common st own nb v x))"
proof (induction xs arbitrary: c)
  case (Cons x xs)
  with two_hop_tuple [of x v nb] show ?case by (auto simp: good_common_def Let_def)
qed simp

lemma anchors_3b_x_eq:
  "set xs \<subseteq> two_hops v nb \<inter> two_hops w nb \<Longrightarrow>
   anchors_3b_x st own nb v w xs c = Some (c \<or> (\<exists>x\<in>set xs. good_common st own nb v x))"
proof (induction xs arbitrary: c)
  case (Cons x xs)
  with two_hop_tuple [of x v nb] two_hop_tuple [of x w nb] show ?case
    by (auto simp: good_common_def Let_def)
qed simp

lemma GetCommonBN_known:
  assumes "FindNeighborTuple v nb \<noteq> None" "FindNeighborTuple w nb \<noteq> None"
  shows "\<exists>l. GetCommonBN (v, w) nb = Some l \<and> set l = two_hops v nb \<inter> two_hops w nb"
  using known_Multicast [OF assms(1)] known_Multicast [OF assms(2)]
  by (auto simp: GetCommonBN_def Intersection_set)

lemma via_common_eq: "via_common st own nb v w \<longleftrightarrow> (\<exists>x\<in>two_hops v nb \<inter> two_hops w nb. good_common st own nb v x)"
  by (auto simp: via_common_def good_common_def)

lemma anchors_b_eq:
  assumes "known_pairs nb gp"
  shows "anchors_2b st own nb gp = Some (filter (\<lambda>(v, w). \<not> via_common st own nb v w) gp)"
    and "anchors_3b st own nb gp = Some (filter (\<lambda>(v, w). \<not> via_common st own nb v w) gp)"
proof -
  have "anchors_2b st own nb gp = Some (filter (\<lambda>(v, w). \<not> via_common st own nb v w) gp)
    \<and> anchors_3b st own nb gp = Some (filter (\<lambda>(v, w). \<not> via_common st own nb v w) gp)"
    using assms
  proof (induction gp)
    case (Cons p gp)
    obtain v w where p: "p = (v, w)" by fastforce
    from Cons.prems p have "known_pairs nb ((v, w) # gp)" by simp
    then obtain nv nw where k: "FindNeighborTuple v nb = Some nv" "FindNeighborTuple w nb = Some nw"
      "known_pairs nb gp" by (rule known_pairs_known)
    obtain l where l: "GetCommonBN (v, w) nb = Some l" "set l = two_hops v nb \<inter> two_hops w nb"
      using GetCommonBN_known [of v nb w] k by auto
    have "anchors_2b_x st own nb v l False = Some (via_common st own nb v w)"
      by (subst anchors_2b_x_eq) (auto simp: l(2) via_common_eq)
    moreover have "anchors_3b_x st own nb v w l False = Some (via_common st own nb v w)"
      by (subst anchors_3b_x_eq) (auto simp: l(2) via_common_eq)
    ultimately show ?case using Cons.IH k(3) l(1) by (simp add: p)
  qed simp
  then show "anchors_2b st own nb gp = Some (filter (\<lambda>(v, w). \<not> via_common st own nb v w) gp)"
    and "anchors_3b st own nb gp = Some (filter (\<lambda>(v, w). \<not> via_common st own nb v w) gp)"
    by simp_all
qed

lemma anchors_rule1_eq:
  assumes "Neighbors_wf nb"
  shows "known_pairs nb gp \<Longrightarrow> anchors_rule1 nb gp = Some (filter (\<lambda>(v, w). \<not> three_hop nb v w) gp)"
proof (induction gp)
  case (Cons p gp)
  obtain v w where p: "p = (v, w)" by fastforce
  with Cons.prems have s: "has_status NEIGH_NODE nb v" "has_status NEIGH_NODE nb w \<or> has_status CORE nb w"
    "known_pairs nb gp" by auto
  show ?case using Cons.IH [OF s(3)] NonDC_eq [OF assms s(1,2)] by (simp add: p)
qed simp

lemma anchors_c_eq:
  assumes "Neighbors_wf nb" "known_pairs nb gp"
  shows "anchors_2c st nb gp = Some (filter (\<lambda>(v, w). \<not> (Rule1 st \<and> three_hop nb v w)) gp)"
    and "anchors_3c st nb gp = Some (filter (\<lambda>(v, w). \<not> (Rule1 st \<and> three_hop nb v w)) gp)"
  using anchors_rule1_eq [OF assms] by (simp_all add: anchors_2c_def anchors_3c_def filter_id_conv)

lemma HeartBeat_2_eq:
  assumes "Neighbors_wf nb"
  shows "HeartBeat_Pushjoin_Anchors_2 st own nb = Some (\<forall>v w. v \<noteq> w \<and> has_status NEIGH_NODE nb v
    \<and> has_status NEIGH_NODE nb w \<longrightarrow> bridged_bn st own nb v w)"
proof -
  have kp: "known_pairs nb (BN_pairs nb)" by (auto simp: known_pairs_def BN_pairs_mem [OF assms])
  have "HeartBeat_Pushjoin_Anchors_2 st own nb = Some (\<forall>p\<in>set (BN_pairs nb). bridged_bn st own nb (fst p) (snd p))"
    unfolding HeartBeat_Pushjoin_Anchors_2_def
    by (simp add: anchors_2a_eq kp anchors_b_eq anchors_c_eq [OF assms] known_pairs_filter)
      (auto simp: filter_empty_iff bridged_bn_def)
  then show ?thesis using BN_pairs_mem [OF assms] by (simp add: split_paired_Ball_Sigma Ball_def)
qed

lemma HeartBeat_3_eq:
  assumes "Neighbors_wf nb"
  shows "HeartBeat_Pushjoin_Anchors_3 st own nb = Some (\<forall>v w. v \<noteq> w \<and> has_status NEIGH_NODE nb v
    \<and> has_status CORE nb w \<longrightarrow> bridged_core st own nb v w)"
proof -
  let ?gp = "IsDirectlyConnected (GetOneHopNeighbors NEIGH_NODE nb) (GetOneHopNeighbors CORE nb)"
  have kp: "known_pairs nb ?gp" by (auto simp: known_pairs_def pairs_mem [OF assms])
  have "HeartBeat_Pushjoin_Anchors_3 st own nb = Some (\<forall>p\<in>set ?gp. bridged_core st own nb (fst p) (snd p))"
    unfolding HeartBeat_Pushjoin_Anchors_3_def
    by (simp add: anchors_3a_eq kp anchors_b_eq anchors_c_eq [OF assms] known_pairs_filter)
      (auto simp: filter_empty_iff bridged_core_def)
  then show ?thesis using pairs_mem [OF assms] by (simp add: split_paired_Ball_Sigma Ball_def)
qed

section \<open>The decisions\<close>

definition duplex_wanted :: "Clustering \<Rightarrow> Neighbors \<Rightarrow> bool" where
  "duplex_wanted st nb \<longleftrightarrow> (\<exists>v w. v \<noteq> w \<and> has_status NEIGH_NODE nb v \<and> has_status CORE nb w
     \<and> duplex_needed st nb v w)"

definition push_join_wanted :: "Clustering \<Rightarrow> Neighbors \<Rightarrow> bool" where
  "push_join_wanted st nb \<longleftrightarrow> (\<exists>v w. v \<noteq> w \<and> has_status NEIGH_NODE nb v \<and> has_status NEIGH_NODE nb w
     \<and> push_join_needed st nb v w)"

lemma Joining_eq:
  assumes "Neighbors_wf nb" "all_alive now nb" "m_localNodeStatus st = CORE"
  shows "\<exists>nb'. Joining_Quitting_Mechanism now st nb =
    (let join = BCN2BNRule2 st \<and> (HandleJoin st nb \<or> push_join_wanted st nb \<or> duplex_wanted st nb)
     in Some (join, if join then SetLocalNodeStatus NEIGH_NODE st else st, nb', []))
    \<and> localNeighborList nb' = localNeighborList nb \<and> Neighbors_wf nb'"
proof (cases "BCN2BNRule2 st")
  case True
  obtain nb' where "HandleJoinAmDuplex now st nb = Some (duplex_wanted st nb, nb', [])"
    "localNeighborList nb' = localNeighborList nb" "Neighbors_wf nb'"
    using HandleJoinAmDuplex_eq [OF assms(1,2), of st] unfolding duplex_wanted_def by blast
  with True HandlePushJoin_eq [OF assms(1), of st] show ?thesis
    using assms(3) by (auto simp: Joining_Quitting_Mechanism_def push_join_wanted_def Let_def)
next
  case False
  then show ?thesis using assms by (auto simp: Joining_Quitting_Mechanism_def Let_def)
qed

definition backbone_redundant :: "Clustering \<Rightarrow> (ipv4addr \<Rightarrow> bool) \<Rightarrow> Neighbors \<Rightarrow> bool" where
  "backbone_redundant st own nb \<longleftrightarrow>
     (\<forall>v w. v \<noteq> w \<and> has_status NEIGH_NODE nb v \<and> has_status NEIGH_NODE nb w \<longrightarrow> bridged_bn st own nb v w)
     \<and> (\<forall>v w. v \<noteq> w \<and> has_status NEIGH_NODE nb v \<and> has_status CORE nb w \<longrightarrow> bridged_core st own nb v w)"

lemma HeartBeat_eq:
  assumes "Neighbors_wf nb" "m_localNodeStatus st = NEIGH_NODE"
  shows "HeartBeat_Pushjoin_Anchors st own nb =
    (let free = HeartBeat_Pushjoin_Anchors_1 nb; redundant = backbone_redundant st own nb
     in Some (free \<and> redundant,
          st\<lparr>m_localcore_noncoreIndicator :=
               (if \<not> free then CONVERT_BREAK else if redundant then CONVERT_OTHER else CONVERT_ALLOW),
             m_localNodeStatus := (if free \<and> redundant then CORE else NEIGH_NODE)\<rparr>))"
proof -
  obtain c2 c3 where c: "HeartBeat_Pushjoin_Anchors_2 st own nb = Some c2"
    "HeartBeat_Pushjoin_Anchors_3 st own nb = Some c3" "backbone_redundant st own nb = (c2 \<and> c3)"
    using HeartBeat_2_eq [OF assms(1)] HeartBeat_3_eq [OF assms(1)] unfolding backbone_redundant_def by blast
  have st: "st\<lparr>m_localcore_noncoreIndicator := i, m_localNodeStatus := NEIGH_NODE\<rparr> = st\<lparr>m_localcore_noncoreIndicator := i\<rparr>" for i
    using assms(2) by (cases st) simp
  show ?thesis
    using assms(2)
    by (cases "HeartBeat_Pushjoin_Anchors_1 nb"; cases c2; cases c3)
      (simp_all add: HeartBeat_Pushjoin_Anchors_def c SetLocalcore_noncoreIndicator_def SetLocalNodeStatus_def st Let_def)
qed

lemma Association_eq:
  assumes "m_localNodeStatus st \<noteq> NEIGH_NODE"
  shows "\<exists>a. AssociationAlgorithm nb st = Some (SetLocalAssociatedCORE a st)"
proof -
  have "st = SetLocalAssociatedCORE (m_localAssociatedCORE st) st" by (simp add: SetLocalAssociatedCORE_def)
  then show ?thesis using assms
    by (auto simp: AssociationAlgorithm_def Let_def split: option.splits)
qed

section \<open>Properties\<close>

text \<open>C26: A core capable node joins the backbone exactly when its count of backbone neighbours did not grow
  (unless rule 2 is off) and one of three reasons holds: it has clients outside the backbone, or no backbone
  neighbour and a higher rank than the best of its core capable neighbours (so some exist), which is one of the
  largest weight; two backbone neighbours are neither adjacent, nor share a backbone neighbour, nor
  (rule 1) are three hops apart, and no core capable node next to both outranks this one; or the same
  for a backbone and a core capable neighbour. No assertion fails on the way, and joining changes the
  status and nothing else.\<close>

theorem joining_decision:
  assumes "neighbors_reachable L arp nb0" and "nb = fst (Neighbors_Purge now nb0)"
    and "m_localNodeStatus st = CORE"
  shows "\<exists>b st' nb'. Joining_Quitting_Mechanism now st nb = Some (b, st', nb', [])
    \<and> localNeighborList nb' = localNeighborList nb
    \<and> st' = (if b then st\<lparr>m_localNodeStatus := NEIGH_NODE\<rparr> else st)
    \<and> (b \<longleftrightarrow> (Rule2 st \<longrightarrow> m_localCurrentBnNeighbors st \<le> m_localLastBnNeighbors st) \<and>
        (has_clients nb
         \<or> (\<forall>a. \<not> has_status NEIGH_NODE nb a)
            \<and> (\<exists>best. GetBestNeighbor CORE nb = Some best \<and> \<not> outranked st nb (neighborIfaceAddr best))
         \<or> (\<exists>v w. v \<noteq> w \<and> has_status NEIGH_NODE nb v \<and> has_status NEIGH_NODE nb w \<and> \<not> connected st nb v w
            \<and> \<not> (\<exists>x. has_status CORE nb x \<and> adjacent nb x v \<and> adjacent nb x w \<and> outranked st nb x))
         \<or> (\<exists>v w. v \<noteq> w \<and> has_status NEIGH_NODE nb v \<and> has_status CORE nb w \<and> \<not> connected st nb v w
            \<and> two_hops w nb \<noteq> {}
            \<and> \<not> (\<exists>x. has_status CORE nb x \<and> x \<noteq> w \<and> v \<in> two_hops x nb \<and> share_bn nb x w \<and> outranked st nb x))))
    \<and> (GetBestNeighbor CORE nb = None \<longleftrightarrow> (\<forall>a. \<not> has_status CORE nb a))
    \<and> (\<forall>best. GetBestNeighbor CORE nb = Some best \<longrightarrow> has_status CORE nb (neighborIfaceAddr best)
        \<and> (\<forall>a nt. FindNeighborTuple a nb = Some nt \<longrightarrow> neighborNodeStatus nt = CORE \<longrightarrow> neighborWeight nt \<le> neighborWeight best
          \<and> (neighborWeight nt = neighborWeight best \<and> neighborcore_noncoreIndicator nt = neighborcore_noncoreIndicator best
              \<longrightarrow> a \<le> neighborIfaceAddr best)))"
proof -
  have wf0: "Neighbors_wf nb0" by (rule reachable_wf [OF assms(1)])
  have wf: "Neighbors_wf nb" "all_alive now nb"
    unfolding assms(2) using Purge_wf [OF wf0] all_alive_Purge [OF wf0] by simp_all
  define j where "j \<longleftrightarrow> BCN2BNRule2 st \<and> (HandleJoin st nb \<or> push_join_wanted st nb \<or> duplex_wanted st nb)"
  obtain nb' where nb': "Joining_Quitting_Mechanism now st nb = Some (j, if j then SetLocalNodeStatus NEIGH_NODE st else st, nb', [])"
    "localNeighborList nb' = localNeighborList nb"
    using Joining_eq [OF wf assms(3)] unfolding Let_def j_def by blast
  have rule2: "BCN2BNRule2 st \<longleftrightarrow> (Rule2 st \<longrightarrow> m_localCurrentBnNeighbors st \<le> m_localLastBnNeighbors st)"
    by (auto simp: BCN2BNRule2_def not_less)
  show ?thesis
    by (rule exI [of _ j], rule exI [of _ "if j then st\<lparr>m_localNodeStatus := NEIGH_NODE\<rparr> else st"], rule exI [of _ nb'])
      (intro conjI refl nb'(2), simp only: nb'(1) SetLocalNodeStatus_def,
       simp only: j_def rule2 HandleJoin_eq [OF wf(1)] push_join_wanted_def push_join_needed_def duplex_wanted_def
         duplex_needed_def disj_assoc, rule best_core(1) [OF wf(1)], simp add: best_core(2) [OF wf(1)])
qed

definition test_cluster :: Clustering where
  "test_cluster = Clustering_new\<lparr>m_mainAddress := 8, m_localWeight := 2\<rparr>"

theorem joining_decision_witness:
  "\<exists>nb'. Joining_Quitting_Mechanism 3 test_cluster (fst (Neighbors_Purge 3 test_neighbors))
     = Some (True, test_cluster\<lparr>m_localNodeStatus := NEIGH_NODE\<rparr>, nb', [])"
proof -
  let ?nb = "fst (Neighbors_Purge 3 test_neighbors)"
  have l: "localNeighborList (fst (Neighbors_Purge 3 test_neighbors)) = localNeighborList test_neighbors"
    using reachable_wf [OF test_neighbors_reachable]
    by (simp add: Purge_list Neighbors_wf_def test_neighbors_list NeighborTuple_new_def CloseOneHopNeighbor_def)
  have "HandleJoin test_cluster (fst (Neighbors_Purge 3 test_neighbors))"
    by (simp add: HandleJoin_def GetOneHopNeighbors_def GetBestNeighbor_def l test_neighbors_list
        NeighborTuple_new_def best_of_def NeighborTuple_gt_def HigherWeight_node_def HigherWeight_of_def
        test_cluster_def Clustering_new_def)
  then have first: "has_clients ?nb \<or> (\<forall>a. \<not> has_status NEIGH_NODE ?nb a)
      \<and> (\<exists>best. GetBestNeighbor CORE ?nb = Some best \<and> \<not> outranked test_cluster ?nb (neighborIfaceAddr best))"
    by (simp add: HandleJoin_eq [OF Purge_wf [OF reachable_wf [OF test_neighbors_reachable]]])
  have st: "m_localNodeStatus test_cluster = CORE" "m_localCurrentBnNeighbors test_cluster \<le> m_localLastBnNeighbors test_cluster"
    by (simp_all add: test_cluster_def Clustering_new_def)
  obtain b st' nb' where "Joining_Quitting_Mechanism 3 test_cluster ?nb = Some (b, st', nb', [])"
    "st' = (if b then test_cluster\<lparr>m_localNodeStatus := NEIGH_NODE\<rparr> else test_cluster)" "b"
    using joining_decision [OF test_neighbors_reachable refl st(1), of 3] first st(2) by blast
  then show ?thesis by auto
qed

text \<open>C27: A backbone node becomes core capable again exactly when it serves no regular client and no core
  client that hears at most one backbone node, and every pair of its backbone neighbours and every
  backbone and core capable neighbour stay connected without it: adjacent with one of them
  outranking this node or refusing to convert, or through a common backbone neighbour that does, or
  (rule 1) over three hops. Its indicator is then CONVERT_OTHER; while it must serve clients it is
  CONVERT_BREAK, and CONVERT_ALLOW when only the connections keep it. No assertion fails.\<close>

theorem heartbeat_decision:
  assumes "neighbors_reachable L arp nb" and "m_localNodeStatus st = NEIGH_NODE"
    and "free \<longleftrightarrow> GetClients_of RN_NODE nb = [] \<and> (\<forall>c\<in>set (GetOneHopNeighbors CORE nb).
        neighborClient c \<longrightarrow> 1 < (of_nat (length (neighborBnNeighbors c)) :: u32))"
    and "redundant \<longleftrightarrow>
      (\<forall>v w. v \<noteq> w \<and> has_status NEIGH_NODE nb v \<and> has_status NEIGH_NODE nb w \<longrightarrow>
         adjacent nb v w \<and> (outranked st nb v \<or> outranked st nb w \<or> breaks nb v \<or> breaks nb w)
         \<or> via_common st own nb v w \<or> Rule1 st \<and> three_hop nb v w)
      \<and> (\<forall>v w. v \<noteq> w \<and> has_status NEIGH_NODE nb v \<and> has_status CORE nb w \<longrightarrow>
         adjacent nb v w \<and> (outranked st nb v \<or> breaks nb v)
         \<or> via_common st own nb v w \<or> Rule1 st \<and> three_hop nb v w)"
  shows "HeartBeat_Pushjoin_Anchors st own nb = Some (free \<and> redundant,
     st\<lparr>m_localcore_noncoreIndicator :=
          (if \<not> free then CONVERT_BREAK else if redundant then CONVERT_OTHER else CONVERT_ALLOW),
        m_localNodeStatus := (if free \<and> redundant then CORE else NEIGH_NODE)\<rparr>)"
proof -
  have "HeartBeat_Pushjoin_Anchors_1 nb = free"
    by (simp add: HeartBeat_Pushjoin_Anchors_1_def assms(3) Let_def)
  moreover have "backbone_redundant st own nb = redundant"
    unfolding backbone_redundant_def bridged_bn_def bridged_core_def assms(4) by (rule refl)
  ultimately show ?thesis
    using HeartBeat_eq [OF reachable_wf [OF assms(1)] assms(2), of own] by (simp add: Let_def)
qed

theorem heartbeat_decision_witness:
  "HeartBeat_Pushjoin_Anchors (test_cluster\<lparr>m_localNodeStatus := NEIGH_NODE\<rparr>) (\<lambda>a. a = 8) test_neighbors
   = Some (True, test_cluster)"
proof -
  have "\<not> has_status NEIGH_NODE test_neighbors v" for v
    by (auto simp: has_status_def FindNeighborTuple_def test_neighbors_list NeighborTuple_new_def)
  then show ?thesis
    using heartbeat_decision [OF test_neighbors_reachable, of "test_cluster\<lparr>m_localNodeStatus := NEIGH_NODE\<rparr>"
        True True "\<lambda>a. a = 8"]
    by (simp add: GetClients_of_def GetOneHopNeighbors_def test_neighbors_list NeighborTuple_new_def
        test_cluster_def Clustering_new_def)
qed

lemma clustering_round_ok:
  assumes wf0: "Neighbors_wf nb"
  shows "\<exists>changed st' nb' failed. clustering_round now own st nb = Some (changed, st', nb', failed)
    \<and> Neighbors_wf nb'
    \<and> localNeighborList nb' = map (helloCounter_update (\<lambda>_. 0))
        (filter (\<lambda>nt. \<not> CloseOneHopNeighbor now nt) (filter (\<lambda>nt. \<not> few_hellos nb nt) (localNeighborList nb)))
    \<and> (changed \<longleftrightarrow> m_localNodeStatus st' \<noteq> m_localNodeStatus st)
    \<and> (m_localNodeStatus st = RN_NODE \<longrightarrow> m_localNodeStatus st' = RN_NODE)
    \<and> m_localNodeStatus st' \<in> {m_localNodeStatus st, CORE, NEIGH_NODE}
    \<and> m_mainAddress st' = m_mainAddress st"
proof -
  define nb1 where "nb1 = fst (Neighbors_PurgeHello nb)"
  define nb2 where "nb2 = fst (Neighbors_Purge now nb1)"
  define st1 where "st1 = UpdateLocalLastBnNeighbors nb2 (UpdateLocalWeight nb2 st)"
  obtain f1 f2 where f: "Neighbors_PurgeHello nb = (nb1, f1)" "Neighbors_Purge now nb1 = (nb2, f2)"
    by (metis nb1_def nb2_def prod.collapse)
  have wf1: "Neighbors_wf nb1" unfolding nb1_def by (rule PurgeHello_wf [OF wf0])
  have wf2: "Neighbors_wf nb2" "all_alive now nb2"
    unfolding nb2_def by (rule Purge_wf [OF wf1], rule all_alive_Purge [OF wf1])
  have l1: "localNeighborList nb1 = filter (\<lambda>nt. \<not> few_hellos nb nt) (localNeighborList nb)"
    using wf0 by (simp add: nb1_def Neighbors_PurgeHello_def Neighbors_wf_def)
  have l2: "localNeighborList nb2 = filter (\<lambda>nt. \<not> CloseOneHopNeighbor now nt) (localNeighborList nb1)"
    using wf1 unfolding nb2_def by (intro Purge_list) (simp add: Neighbors_wf_def)
  have st1: "m_localNodeStatus st1 = m_localNodeStatus st" "m_mainAddress st1 = m_mainAddress st"
    by (simp_all add: st1_def UpdateLocalLastBnNeighbors_def UpdateLocalWeight_def split: WeightFunction.splits)
  have reset: "localNeighborList (Neighbors_ResetHelloCounter x) = map (helloCounter_update (\<lambda>_. 0)) (localNeighborList x)"
    for x by (simp add: Neighbors_ResetHelloCounter_def)
  have round: "clustering_round now own st nb = do {
      (changed, st, nb, failed3) \<leftarrow>
        (case m_localNodeStatus st1 of
           RN_NODE \<Rightarrow> map_option (\<lambda>st. (False, st, nb2, [])) (AssociationAlgorithm nb2 st1)
         | CORE \<Rightarrow> do { st \<leftarrow> AssociationAlgorithm nb2 st1; Joining_Quitting_Mechanism now st nb2 }
         | NEIGH_NODE \<Rightarrow> map_option (\<lambda>(b, st). (b, st, nb2, [])) (HeartBeat_Pushjoin_Anchors st1 own nb2));
      Some (changed, st, Neighbors_ResetHelloCounter nb, f1 @ f2 @ failed3)
    }"
    unfolding clustering_round_def f Let_def prod.case st1_def [symmetric] by (rule refl)
  show ?thesis
  proof (cases "m_localNodeStatus st")
    case RN_NODE
    obtain a where "AssociationAlgorithm nb2 st1 = Some (SetLocalAssociatedCORE a st1)"
      using Association_eq [of st1 nb2] st1 RN_NODE by auto
    then show ?thesis
      using RN_NODE st1 ResetHello_wf [OF wf2(1)]
      by (intro exI [of _ False]) (simp add: round reset l2 l1 SetLocalAssociatedCORE_def)
  next
    case CORE
    obtain a where a: "AssociationAlgorithm nb2 st1 = Some (SetLocalAssociatedCORE a st1)"
      using Association_eq [of st1 nb2] st1 CORE by auto
    have "m_localNodeStatus (SetLocalAssociatedCORE a st1) = CORE"
      using st1 CORE by (simp add: SetLocalAssociatedCORE_def)
    from Joining_eq [OF wf2 this] a ResetHello_wf show ?thesis
      using CORE st1
      by (auto simp: round reset l2 l1 SetLocalAssociatedCORE_def SetLocalNodeStatus_def Let_def)
  next
    case NEIGH_NODE
    then show ?thesis
      using HeartBeat_eq [OF wf2(1), of st1 own] st1 ResetHello_wf [OF wf2(1)]
      by (simp add: round reset l2 l1 Let_def)
  qed
qed

text \<open>C29: A long timer round never fails an assertion, whatever the clustering state and the neighbours: it
  returns, reports only links that failed the hello count or expired, keeps exactly the neighbours
  heard often enough and alive, with their hello counters reset, and changes the status only from
  core capable to backbone or back; a regular node stays one.\<close>

theorem clustering_round_total:
  assumes "neighbors_reachable L arp nb"
  shows "\<exists>changed st' nb' failed. clustering_round now own st nb = Some (changed, st', nb', failed)
    \<and> Neighbors_wf nb'
    \<and> localNeighborList nb' = map (helloCounter_update (\<lambda>_. 0))
        (filter (\<lambda>nt. \<not> CloseOneHopNeighbor now nt) (filter (\<lambda>nt. \<not> few_hellos nb nt) (localNeighborList nb)))
    \<and> (changed \<longleftrightarrow> m_localNodeStatus st' \<noteq> m_localNodeStatus st)
    \<and> (m_localNodeStatus st = RN_NODE \<longrightarrow> m_localNodeStatus st' = RN_NODE)
    \<and> m_localNodeStatus st' \<in> {m_localNodeStatus st, CORE, NEIGH_NODE}
    \<and> m_mainAddress st' = m_mainAddress st"
  by (rule clustering_round_ok [OF reachable_wf [OF assms]])

theorem clustering_round_total_witness:
  "\<exists>r. clustering_round 3 (\<lambda>a. a = 8) test_cluster test_neighbors = Some r"
  using clustering_round_total [OF test_neighbors_reachable, of 3 "\<lambda>a. a = 8" test_cluster] by blast

text \<open>Weights break every tie between two nodes: if each knows the other's current weight and main address
  and the addresses differ, exactly one of the two outranks the other.\<close>

theorem higher_weight_decides:
  assumes "m_mainAddress st1 \<noteq> m_mainAddress st2"
    and "neighborWeight n2 = m_localWeight st2" and "neighborIfaceAddr n2 = m_mainAddress st2"
    and "neighborWeight n1 = m_localWeight st1" and "neighborIfaceAddr n1 = m_mainAddress st1"
  shows "HigherWeight_node st1 n2 \<longleftrightarrow> \<not> HigherWeight_node st2 n1"
  unfolding HigherWeight_node_def HigherWeight_of_def assms(2-5)
  using assms(1) by (auto simp: not_less)

theorem higher_weight_decides_witness:
  "HigherWeight_node test_cluster ((NeighborTuple_new ns3_library 7 0 15)\<lparr>neighborWeight := 2\<rparr>)
   \<and> \<not> HigherWeight_node (test_cluster\<lparr>m_mainAddress := 7\<rparr>) ((NeighborTuple_new ns3_library 8 0 15)\<lparr>neighborWeight := 2\<rparr>)"
  using higher_weight_decides [of test_cluster "test_cluster\<lparr>m_mainAddress := 7\<rparr>"
      "(NeighborTuple_new ns3_library 7 0 15)\<lparr>neighborWeight := 2\<rparr>"
      "(NeighborTuple_new ns3_library 8 0 15)\<lparr>neighborWeight := 2\<rparr>"]
  by (simp add: test_cluster_def Clustering_new_def NeighborTuple_new_def HigherWeight_node_def HigherWeight_of_def)

text \<open>Two nodes that only hear each other do not settle: a core capable node whose single neighbour is core
  capable and associated with it joins the backbone whatever the weights, and a backbone node whose
  single neighbour is in the backbone leaves it; applied on both sides, the pair joins together and
  leaves together.\<close>

theorem lone_pair_flips:
  assumes "neighbors_reachable L arp nb0" and "nb = fst (Neighbors_Purge now nb0)"
    and "localNeighborList nb = [n]"
  shows "(m_localNodeStatus st = CORE \<and> neighborNodeStatus n = CORE \<and> neighborClient n
        \<and> m_localCurrentBnNeighbors st \<le> m_localLastBnNeighbors st \<longrightarrow>
      (\<exists>nb'. Joining_Quitting_Mechanism now st nb = Some (True, st\<lparr>m_localNodeStatus := NEIGH_NODE\<rparr>, nb', [])))
    \<and> (m_localNodeStatus st = NEIGH_NODE \<and> neighborNodeStatus n = NEIGH_NODE \<longrightarrow>
      HeartBeat_Pushjoin_Anchors st own nb
      = Some (True, st\<lparr>m_localcore_noncoreIndicator := CONVERT_OTHER, m_localNodeStatus := CORE\<rparr>))"
proof -
  have wf0: "Neighbors_wf nb0" by (rule reachable_wf [OF assms(1)])
  have wf: "Neighbors_wf nb" "all_alive now nb"
    unfolding assms(2) using Purge_wf [OF wf0] all_alive_Purge [OF wf0] by simp_all
  have one: "has_status s nb v \<longleftrightarrow> v = neighborIfaceAddr n \<and> neighborNodeStatus n = s" for s v
    by (auto simp: has_status_def FindNeighborTuple_def assms(3))
  have join: "\<exists>nb'. Joining_Quitting_Mechanism now st nb = Some (True, st\<lparr>m_localNodeStatus := NEIGH_NODE\<rparr>, nb', [])"
    if "m_localNodeStatus st = CORE" "neighborNodeStatus n = CORE" "neighborClient n"
      "m_localCurrentBnNeighbors st \<le> m_localLastBnNeighbors st"
  proof -
    have "HandleJoin st nb" using that by (simp add: HandleJoin_def GetClients_of_def assms(3))
    moreover have "BCN2BNRule2 st" using that(4) by (auto simp: BCN2BNRule2_def dest: leD)
    ultimately show ?thesis
      using Joining_eq [OF wf that(1)] by (auto simp: SetLocalNodeStatus_def Let_def)
  qed
  have leave: "HeartBeat_Pushjoin_Anchors st own nb
      = Some (True, st\<lparr>m_localcore_noncoreIndicator := CONVERT_OTHER, m_localNodeStatus := CORE\<rparr>)"
    if "m_localNodeStatus st = NEIGH_NODE" "neighborNodeStatus n = NEIGH_NODE"
  proof -
    have "HeartBeat_Pushjoin_Anchors_1 nb"
      using that(2) by (simp add: HeartBeat_Pushjoin_Anchors_1_def GetClients_of_def GetOneHopNeighbors_def assms(3))
    moreover have "backbone_redundant st own nb"
      using that(2) by (auto simp: backbone_redundant_def one)
    ultimately show ?thesis using HeartBeat_eq [OF wf(1) that(1), of own] by (simp add: Let_def)
  qed
  show ?thesis using join leave by blast
qed

theorem lone_pair_flips_witness:
  "HeartBeat_Pushjoin_Anchors (test_cluster\<lparr>m_localNodeStatus := NEIGH_NODE\<rparr>) (\<lambda>a. a = 8)
     (fst (Neighbors_Purge 6 (UpdateNeighborTuple ns3_library 6
        (HelloHeader_new 3 NEIGH_NODE CONVERT_BREAK 7 1 W_NODE_DEGREE 5 []) True
        (Neighbors_SetCallback (Neighbors_new 15)))))
   = Some (True, test_cluster)"
proof -
  let ?h = "HelloHeader_new 3 NEIGH_NODE CONVERT_BREAK 7 1 W_NODE_DEGREE 5 []"
  let ?nb0 = "UpdateNeighborTuple ns3_library 6 ?h True (Neighbors_SetCallback (Neighbors_new 15))"
  define n where "n = (NeighborTuple_new ns3_library 7 0 6)\<lparr>sequenceNumber := 3, helloCounter := 1,
    neighborAssociatedCORE := 1, neighborWeight := 5, neighborNodeStatus := NEIGH_NODE,
    neighborcore_noncoreIndicator := CONVERT_BREAK, neighborClient := True\<rparr>"
  have r: "neighbors_reachable ns3_library (\<lambda>i a. None) ?nb0"
    by (intro neighbors_reachable.hello neighbors_reachable.start)
  have l: "localNeighborList (fst (Neighbors_Purge 6 ?nb0)) = [n]"
    by (simp add: neighbor_eval UpdateNeighborTuple_def InsertNeighborTuple_def EraseNeighborTuple_def
        HelloHeader_new_def n_def Mac48Address_default_def)
  show ?thesis
    using lone_pair_flips [OF r refl l, of "test_cluster\<lparr>m_localNodeStatus := NEIGH_NODE\<rparr>" "\<lambda>a. a = 8"]
    by (simp add: n_def test_cluster_def Clustering_new_def)
qed

end
