(* ===== verification/Protocol_State.thy ===== *)
theory Protocol_State
  imports Packet_Codec IdCache RQueue RTable Clustering_Correct
begin

text \<open>
  The state of \<open>RoutingProtocol\<close> (\<open>model/aodv-routing-protocol.{h,cc}\<close>), what it reads from the node
  it runs on, the effects it has, and the operations shared by the message handlers: sockets, route
  requests and their retries, route errors, the packet queue. The tables are those of the
  component theories.

  \<^item> \<open>env\<close> holds what the IPv4 stack, the ARP caches and the random variable answer during one event.
  \<^item> Every packet sent, forwarded, delivered or reported is appended to \<open>out\<close>. The \<open>Tx\<close>/\<open>Rx\<close> traces
    only observe and are left out; a change of node status is an effect, since it is traced by name.
  \<^item> A running \<open>Timer\<close> is the time it is due, a stopped one is \<open>None\<close>; \<open>m_addressReqTimer\<close> maps a
    destination to the time its running timer is due; \<open>m_htimer_delay\<close> and \<open>m_ltimer_delay\<close> are the
    delays \<open>SetDelay\<close> gave; \<open>scheduled\<close> holds the calls made through \<open>Simulator::Schedule\<close>.
  \<^item> Sockets are numbered in the order of \<open>m_socketAddresses\<close>. The handlers run while \<open>m_ipv4\<close> is set.
  \<^item> An operation is \<open>None\<close> where an assertion of the code fails or its behaviour is undefined.
\<close>

record env =
  lib :: library
  buf :: buffer_ops
  unit_of_time :: time_unit
  arp :: arp_lookup
  GetInterfaceForAddress :: "ipv4addr \<Rightarrow> u32"
  GetNetDevice :: "u32 \<Rightarrow> device"
  GetAddress :: "u32 \<Rightarrow> Ipv4InterfaceAddress"
  GetInterfaceForDevice :: "device \<Rightarrow> u32"
  IsDestinationAddress :: "ipv4addr \<Rightarrow> u32 \<Rightarrow> bool"
  GetNInterfaces :: nat
  GetNAddresses :: "u32 \<Rightarrow> nat"
  IsUp :: "u32 \<Rightarrow> bool"
  has_wifi_mac :: "device \<Rightarrow> bool"
  has_adhoc_mac :: "device \<Rightarrow> bool"
  GetArpCache :: "u32 \<Rightarrow> nat"
  CreateSocket :: socket
  draw :: "int \<Rightarrow> int \<Rightarrow> int"
  freed_tuple :: "NeighborTuple \<Rightarrow> NeighborTuple"

record params =
  RreqRetries :: u32
  RreqRateLimit :: u16
  RerrRateLimit :: u16
  ActiveRouteTimeout :: time
  NetDiameter :: u32
  NodeTraversalTime :: time
  NetTraversalTime :: time
  PathDiscoveryTime :: time
  MyRouteTimeout :: time
  HelloInterval :: time
  AllowedHelloLoss :: u32
  DeletePeriod :: time
  NextHopWait :: time
  TimeoutBuffer :: u16
  BlackListTimeout :: time
  MaxQueueLen :: u32
  MaxQueueTime :: time
  DestinationOnly :: bool
  GratuitousReply :: bool
  EnableHello :: bool
  EnableBroadcast :: bool
  ShortInterval :: time
  LongInterval :: time
  IsMalicious :: bool

datatype message =
    Hello HelloHeader
  | Rreq RreqHeader
  | Rrep RrepHeader
  | RrepAck RrepAckHeader
  | Rerr RerrHeader

datatype effect =
    SendTo socket message ipv4addr
  | UnicastForward callback Ipv4Route packet Ipv4Header
  | LocalDeliver callback packet Ipv4Header u32
  | ErrorReport callback packet Ipv4Header
  | StatusChanged NodeStatus
  | CloseSocket socket

datatype call = StartCall | ShortTimerCall | LongTimerCall | SendRequestCall ipv4addr

record node =
  par :: params
  m_ipv4 :: bool
  m_lo :: device
  m_socketAddresses :: "(socket \<times> Ipv4InterfaceAddress) list"
  m_routingTable :: RoutingTable
  m_rqueue :: RequestQueue
  m_requestId :: u32
  m_seqNo :: u32
  m_rreqIdCache :: IdCache
  m_dpd :: DuplicatePacketDetection
  m_nb :: Neighbors
  m_rreqCount :: u16
  m_rerrCount :: u16
  cluster :: Clustering
  m_helloIdCache :: IdCache
  m_messageSequenceNumber :: u16
  m_htimer_delay :: time
  m_htimer :: "time option"
  m_ltimer_delay :: time
  m_ltimer :: "time option"
  m_rreqRateLimitTimer :: "time option"
  m_rerrRateLimitTimer :: "time option"
  m_addressReqTimer :: "(ipv4addr \<times> time) list"
  scheduled :: "(time \<times> call) list"
  out :: "effect list"

definition LONG_SHORT_RATIO :: int where "LONG_SHORT_RATIO = 3"
definition SHORT_INTERVAL :: int where "SHORT_INTERVAL = 2"
definition LONG_INTERVAL :: int where "LONG_INTERVAL = LONG_SHORT_RATIO * SHORT_INTERVAL"

definition params_default :: "library \<Rightarrow> params" where
  "params_default L =
     (let NodeTraversal = Milli L 40;
          NetTraversal = (2 * 35) * NodeTraversal;
          PathDiscovery = 2 * NetTraversal;
          ActiveRoute = Seconds L 3;
          Hello_i = Seconds L 2
      in \<lparr>RreqRetries = 2, RreqRateLimit = 10, RerrRateLimit = 10, ActiveRouteTimeout = ActiveRoute,
          NetDiameter = 35, NodeTraversalTime = NodeTraversal, NetTraversalTime = NetTraversal,
          PathDiscoveryTime = PathDiscovery, MyRouteTimeout = 2 * max PathDiscovery ActiveRoute,
          HelloInterval = Hello_i, AllowedHelloLoss = 1,
          DeletePeriod = 5 * max ActiveRoute Hello_i, NextHopWait = NodeTraversal + Milli L 10,
          TimeoutBuffer = 2, BlackListTimeout = 2 * NetTraversal, MaxQueueLen = 64,
          MaxQueueTime = Seconds L 30, DestinationOnly = False, GratuitousReply = True,
          EnableHello = True, EnableBroadcast = True, ShortInterval = Seconds L SHORT_INTERVAL,
          LongInterval = Seconds L LONG_INTERVAL, IsMalicious = False\<rparr>)"

text \<open>
  The attributes of \<open>GetTypeId\<close>, set to their defaults after the constructor. They agree with the
  initialisers but for \<open>HelloInterval\<close>.
\<close>

definition attribute_defaults :: "library \<Rightarrow> params \<Rightarrow> params" where
  "attribute_defaults L p = p\<lparr>
     HelloInterval := Seconds L 1, RreqRetries := 2, RreqRateLimit := 10, RerrRateLimit := 10,
     NodeTraversalTime := Milli L 40, NextHopWait := Milli L 50, ActiveRouteTimeout := Seconds L 3,
     MyRouteTimeout := Milli L 11200, BlackListTimeout := Milli L 5600, DeletePeriod := Seconds L 15,
     TimeoutBuffer := 2, NetDiameter := 35, NetTraversalTime := Milli L 2800,
     PathDiscoveryTime := Milli L 5600, MaxQueueLen := 64, MaxQueueTime := Seconds L 30,
     AllowedHelloLoss := 1, GratuitousReply := True, DestinationOnly := False, EnableHello := True,
     EnableBroadcast := True, ShortInterval := Seconds L SHORT_INTERVAL,
     LongInterval := Seconds L LONG_INTERVAL, IsMalicious := False\<rparr>"

definition node_new :: "library \<Rightarrow> node" where
  "node_new L =
     (let p = params_default L
      in \<lparr>par = p, m_ipv4 = False, m_lo = 0, m_socketAddresses = [],
          m_routingTable = RoutingTable_new (DeletePeriod p),
          m_rqueue = RequestQueue_new (MaxQueueLen p) (MaxQueueTime p),
          m_requestId = 0, m_seqNo = 0, m_rreqIdCache = IdCache_new (PathDiscoveryTime p),
          m_dpd = IdCache_new (PathDiscoveryTime p),
          m_nb = Neighbors_SetCallback (Neighbors_new (Seconds L LONG_INTERVAL)),
          m_rreqCount = 0, m_rerrCount = 0, cluster = Clustering_new,
          m_helloIdCache = IdCache_new (Seconds L SHORT_INTERVAL), m_messageSequenceNumber = 0,
          m_htimer_delay = 0, m_htimer = None, m_ltimer_delay = 0, m_ltimer = None,
          m_rreqRateLimitTimer = None, m_rerrRateLimitTimer = None,
          m_addressReqTimer = [], scheduled = [], out = []\<rparr>)"

section \<open>Small operations\<close>

definition emit :: "effect \<Rightarrow> node \<Rightarrow> node" where
  "emit e n = n\<lparr>out := out n @ [e]\<rparr>"

definition schedule :: "time \<Rightarrow> call \<Rightarrow> node \<Rightarrow> node" where
  "schedule t c n = n\<lparr>scheduled := scheduled n @ [(t, c)]\<rparr>"

definition SetMaxQueueLen :: "u32 \<Rightarrow> node \<Rightarrow> node" where
  "SetMaxQueueLen len n =
     n\<lparr>par := (par n)\<lparr>MaxQueueLen := len\<rparr>, m_rqueue := RequestQueue_SetMaxQueueLen len (m_rqueue n)\<rparr>"

definition SetMaxQueueTime :: "time \<Rightarrow> node \<Rightarrow> node" where
  "SetMaxQueueTime t n =
     n\<lparr>par := (par n)\<lparr>MaxQueueTime := t\<rparr>, m_rqueue := RequestQueue_SetQueueTimeout t (m_rqueue n)\<rparr>"

definition IsMyOwnAddress :: "node \<Rightarrow> ipv4addr \<Rightarrow> bool" where
  "IsMyOwnAddress n src \<longleftrightarrow> (\<exists>j\<in>set (m_socketAddresses n). src = GetLocal (snd j))"

definition FindSocketWithInterfaceAddress :: "Ipv4InterfaceAddress \<Rightarrow> node \<Rightarrow> socket option" where
  "FindSocketWithInterfaceAddress addr n =
     map_option fst (List.find (\<lambda>j. snd j = addr) (m_socketAddresses n))"

text \<open>To all hosts if on a /32 address, subnet-directed otherwise.\<close>

definition broadcast_of :: "Ipv4InterfaceAddress \<Rightarrow> ipv4addr" where
  "broadcast_of iface = (if GetMask iface = 0xffffffff then Ipv4Address_broadcast else GetBroadcast iface)"

definition send_all :: "message \<Rightarrow> node \<Rightarrow> node" where
  "send_all m n =
     n\<lparr>out := out n @ map (\<lambda>j. SendTo (fst j) m (broadcast_of (snd j))) (m_socketAddresses n)\<rparr>"

definition send_on :: "Ipv4InterfaceAddress \<Rightarrow> message \<Rightarrow> ipv4addr \<Rightarrow> node \<Rightarrow> node option" where
  "send_on iface m dst n =
     (case FindSocketWithInterfaceAddress iface n of
        None \<Rightarrow> None
      | Some s \<Rightarrow> Some (emit (SendTo s m dst) n))"

text \<open>\<open>LookupRoute (a, rt)\<close>, \<open>LookupValidRoute (a, rt)\<close> and \<open>Update (rt)\<close> on the node's table.\<close>

definition lookup_route :: "time \<Rightarrow> ipv4addr \<Rightarrow> node \<Rightarrow> node \<times> RoutingTableEntry option" where
  "lookup_route now a n =
     (case LookupRoute now a (m_routingTable n) of (t, r) \<Rightarrow> (n\<lparr>m_routingTable := t\<rparr>, r))"

definition lookup_valid_route :: "time \<Rightarrow> ipv4addr \<Rightarrow> node \<Rightarrow> node \<times> RoutingTableEntry option" where
  "lookup_valid_route now a n =
     (case LookupValidRoute now a (m_routingTable n) of (t, r) \<Rightarrow> (n\<lparr>m_routingTable := t\<rparr>, r))"

definition update_route :: "RoutingTableEntry \<Rightarrow> node \<Rightarrow> node" where
  "update_route rt n = n\<lparr>m_routingTable := snd (RoutingTable_Update rt (m_routingTable n))\<rparr>"

definition add_route :: "time \<Rightarrow> RoutingTableEntry \<Rightarrow> node \<Rightarrow> node" where
  "add_route now rt n = n\<lparr>m_routingTable := snd (AddRoute now rt (m_routingTable n))\<rparr>"

text \<open>
  A variable passed to a lookup whose answer the code ignores keeps its value if nothing is found,
  the default entry if it was just declared.
\<close>

definition found :: "RoutingTableEntry option \<Rightarrow> RoutingTableEntry \<Rightarrow> RoutingTableEntry" where
  "found r old = (case r of Some rt \<Rightarrow> rt | None \<Rightarrow> old)"

definition entry_or_default :: "env \<Rightarrow> time \<Rightarrow> RoutingTableEntry option \<Rightarrow> RoutingTableEntry" where
  "entry_or_default E now r = found r (RoutingTableEntry_default (lib E) now)"

definition UpdateRouteLifeTime :: "time \<Rightarrow> ipv4addr \<Rightarrow> time \<Rightarrow> node \<Rightarrow> bool \<times> node" where
  "UpdateRouteLifeTime now addr lifetime n =
     (case lookup_route now addr n of
        (n, None) \<Rightarrow> (False, n)
      | (n, Some rt) \<Rightarrow>
          if rt_flag rt = VALID then
            (let rt = rt\<lparr>rt_reqCount := 0\<rparr>;
                 rt = SetLifeTime now (max lifetime (GetLifeTime now rt)) rt
             in (True, update_route rt n))
          else (False, n))"

text \<open>The interface of one of the node's own addresses: \<open>GetNetDevice\<close> and \<open>GetAddress (_, 0)\<close> of it.\<close>

definition device_of :: "env \<Rightarrow> ipv4addr \<Rightarrow> device" where
  "device_of E receiver = GetNetDevice E (GetInterfaceForAddress E receiver)"

definition iface_of :: "env \<Rightarrow> ipv4addr \<Rightarrow> Ipv4InterfaceAddress" where
  "iface_of E receiver = GetAddress E (GetInterfaceForAddress E receiver)"

definition UpdateRouteToNeighbor :: "env \<Rightarrow> time \<Rightarrow> ipv4addr \<Rightarrow> ipv4addr \<Rightarrow> node \<Rightarrow> node" where
  "UpdateRouteToNeighbor E now sender receiver n =
     (case lookup_route now sender n of
        (n, None) \<Rightarrow>
          add_route now (RoutingTableEntry_new now (device_of E receiver) sender False 0
            (iface_of E receiver) 1 sender (ActiveRouteTimeout (par n))) n
      | (n, Some toNeighbor) \<Rightarrow>
          if rt_validSeqNo toNeighbor \<and> rt_hops toNeighbor = 1 \<and> GetOutputDevice toNeighbor = device_of E receiver
          then n \<comment> \<open>the longer lifetime is set on the local copy only\<close>
          else update_route (RoutingTableEntry_new now (device_of E receiver) sender False 0
            (iface_of E receiver) 1 sender
            (max (ActiveRouteTimeout (par n)) (GetLifeTime now toNeighbor))) n)"

text \<open>The own address on the interface that leads to a neighbour, if there is an entry for it.\<close>

definition GetMyAddress :: "time \<Rightarrow> NeighborTuple \<Rightarrow> node \<Rightarrow> ipv4addr option \<times> node" where
  "GetMyAddress now node n =
     (case lookup_route now (neighborIfaceAddr node) n of
        (n, None) \<Rightarrow> (None, n)
      | (n, Some rt) \<Rightarrow> (Some (GetLocal (rt_iface rt)), n))"

section \<open>Route requests\<close>

definition RreqHeader_default :: "library \<Rightarrow> RreqHeader" where
  "RreqHeader_default L = RreqHeader_new 0 0 0 0 (Ipv4Address_default L) 0 (Ipv4Address_default L) 0"

definition ScheduleRreqRetry :: "env \<Rightarrow> time \<Rightarrow> ipv4addr \<Rightarrow> node \<Rightarrow> node" where
  "ScheduleRreqRetry E now dst n =
     (let (n, r) = lookup_route now dst n;
          rt = IncrementRreqCnt (entry_or_default E now r);
          n = update_route rt n
      in n\<lparr>m_addressReqTimer := map_assign dst (now + int (unat (rt_reqCount rt)) * NetTraversalTime (par n))
                                  (m_addressReqTimer n)\<rparr>)"

definition start_hello_timer :: "env \<Rightarrow> time \<Rightarrow> int \<Rightarrow> node \<Rightarrow> node" where
  "start_hello_timer E now hundredths n =
     (if EnableHello (par n) \<and> m_htimer n = None
      then n\<lparr>m_htimer := Some (now + (HelloInterval (par n) - Hundredths (lib E) hundredths (Milli (lib E) (draw E 0 10))))\<rparr>
      else n)"

text \<open>The broadcast of a RREQ on every interface, remembered in the RREQ cache under that interface.\<close>

fun send_rreqs :: "time \<Rightarrow> (socket \<times> Ipv4InterfaceAddress) list \<Rightarrow> RreqHeader \<Rightarrow> node \<Rightarrow> node" where
  "send_rreqs now [] rreqHeader n = n"
| "send_rreqs now (j # js) rreqHeader n =
     (let iface = snd j;
          rreqHeader = rreqHeader\<lparr>rreq_origin := GetLocal iface\<rparr>;
          n = n\<lparr>m_rreqIdCache := snd (IdCache_IsDuplicate now (GetLocal iface) (m_requestId n) (m_rreqIdCache n))\<rparr>;
          n = emit (SendTo (fst j) (Rreq rreqHeader) (broadcast_of iface)) n
      in send_rreqs now js rreqHeader n)"

definition SendRequest :: "env \<Rightarrow> time \<Rightarrow> ipv4addr \<Rightarrow> node \<Rightarrow> node" where
  "SendRequest E now dst n =
     (if m_rreqCount n = RreqRateLimit (par n)
      then schedule (now + (case m_rreqRateLimitTimer n of Some t \<Rightarrow> t - now | None \<Rightarrow> 0) + Micro (lib E) 100)
             (SendRequestCall dst) n
      else
        let n = n\<lparr>m_rreqCount := m_rreqCount n + 1\<rparr>;
            rreqHeader = (RreqHeader_default (lib E))\<lparr>rreq_dst := dst\<rparr>;
            (n, r) = lookup_route now dst n;
            (rreqHeader, n) =
              (case r of
                 Some rt \<Rightarrow>
                   (let rreqHeader = rreqHeader\<lparr>rreq_hopCount := ucast (rt_hops rt)\<rparr>;
                        rreqHeader = (if rt_validSeqNo rt then rreqHeader\<lparr>rreq_dstSeqNo := rt_seqNo rt\<rparr>
                                      else RreqHeader_SetUnknownSeqno True rreqHeader)
                    in (rreqHeader, update_route (rt\<lparr>rt_flag := IN_SEARCH\<rparr>) n))
               | None \<Rightarrow>
                   (let newEntry = (RoutingTableEntry_new now 0 dst False 0 (Ipv4InterfaceAddress_default (lib E))
                                      0 (Ipv4Address_default (lib E)) 0)\<lparr>rt_flag := IN_SEARCH\<rparr>
                    in (RreqHeader_SetUnknownSeqno True rreqHeader, add_route now newEntry n)));
            rreqHeader = (if GratuitousReply (par n) then RreqHeader_SetGratiousRrep True rreqHeader else rreqHeader);
            rreqHeader = (if DestinationOnly (par n) then RreqHeader_SetDestinationOnly True rreqHeader else rreqHeader);
            n = n\<lparr>m_seqNo := m_seqNo n + 1\<rparr>;
            rreqHeader = rreqHeader\<lparr>rreq_originSeqNo := m_seqNo n\<rparr>;
            n = n\<lparr>m_requestId := m_requestId n + 1\<rparr>;
            rreqHeader = rreqHeader\<lparr>rreq_requestID := m_requestId n, rreq_hopCount := 0\<rparr>;
            n = send_rreqs now (m_socketAddresses n) rreqHeader n;
            n = ScheduleRreqRetry E now dst n
        in start_hello_timer E now 1 n)"

section \<open>Route errors\<close>

definition rerr_add :: "ipv4addr \<Rightarrow> u32 \<Rightarrow> RerrHeader \<Rightarrow> RerrHeader option" where
  "rerr_add dst seqNo h = map_option snd (RerrHeader_AddUnDestination dst seqNo h)"

text \<open>The interfaces that lead to precursors with a valid route, each once, in order of appearance.\<close>

fun precursor_ifaces ::
  "time \<Rightarrow> ipv4addr list \<Rightarrow> Ipv4InterfaceAddress list \<Rightarrow> node \<Rightarrow> node \<times> Ipv4InterfaceAddress list" where
  "precursor_ifaces now [] ifaces n = (n, ifaces)"
| "precursor_ifaces now (i # is) ifaces n =
     (case lookup_valid_route now i n of
        (n, None) \<Rightarrow> precursor_ifaces now is ifaces n
      | (n, Some toPrecursor) \<Rightarrow>
          precursor_ifaces now is
            (if rt_iface toPrecursor \<notin> set ifaces then ifaces @ [rt_iface toPrecursor] else ifaces) n)"

fun broadcast_rerr :: "RerrHeader \<Rightarrow> Ipv4InterfaceAddress list \<Rightarrow> node \<Rightarrow> node option" where
  "broadcast_rerr h [] n = Some n"
| "broadcast_rerr h (i # is) n = do {
     n \<leftarrow> send_on i (Rerr h) (broadcast_of i) n;
     broadcast_rerr h is (n\<lparr>m_rerrCount := m_rerrCount n + 1\<rparr>)
   }"

definition SendRerrMessage :: "time \<Rightarrow> RerrHeader \<Rightarrow> ipv4addr list \<Rightarrow> node \<Rightarrow> node option" where
  "SendRerrMessage now h precursors n =
     (if precursors = [] then Some n
      else if m_rerrCount n = RerrRateLimit (par n)
      then (if m_rerrRateLimitTimer n = None then None else Some n)
      else if length precursors = 1 then
        (case lookup_valid_route now (hd precursors) n of
           (n, None) \<Rightarrow> Some n
         | (n, Some toPrecursor) \<Rightarrow> do {
             n \<leftarrow> send_on (rt_iface toPrecursor) (Rerr h) (hd precursors) n;
             Some (n\<lparr>m_rerrCount := m_rerrCount n + 1\<rparr>)
           })
      else
        let (n, ifaces) = precursor_ifaces now precursors [] n
        in broadcast_rerr h ifaces n)"

text \<open>
  The loop over the unreachable destinations: each is added to the header and its precursors are
  collected. \<open>AddUnDestination\<close> never answers false, so the branch that sends a full message is
  never taken; a full header stops at the assertion instead (\<open>None\<close>).
\<close>

fun collect_unreachable ::
  "env \<Rightarrow> time \<Rightarrow> (ipv4addr \<times> u32) list \<Rightarrow> RerrHeader \<Rightarrow> ipv4addr list \<Rightarrow> node
   \<Rightarrow> (RerrHeader \<times> ipv4addr list \<times> node) option" where
  "collect_unreachable E now [] h precursors n = Some (h, precursors, n)"
| "collect_unreachable E now (i # is) h precursors n = do {
     h \<leftarrow> rerr_add (fst i) (snd i) h;
     let (n, r) = lookup_route now (fst i) n;
     let precursors = GetPrecursors (entry_or_default E now r) precursors;
     collect_unreachable E now is h precursors n
   }"

definition invalidate_routes :: "time \<Rightarrow> (ipv4addr \<times> u32) list \<Rightarrow> node \<Rightarrow> node" where
  "invalidate_routes now us n = n\<lparr>m_routingTable := InvalidateRoutesWithDst now us (m_routingTable n)\<rparr>"

definition destinations_via :: "time \<Rightarrow> ipv4addr \<Rightarrow> node \<Rightarrow> node \<times> (ipv4addr \<times> u32) list" where
  "destinations_via now nextHop n =
     (case GetListOfDestinationWithNextHop now nextHop (m_routingTable n) of
        (t, us) \<Rightarrow> (n\<lparr>m_routingTable := t\<rparr>, us))"

definition SendRerrWhenBreaksLinkToNextHop :: "env \<Rightarrow> time \<Rightarrow> ipv4addr \<Rightarrow> node \<Rightarrow> node option" where
  "SendRerrWhenBreaksLinkToNextHop E now nextHop n =
     (case lookup_route now nextHop n of
        (n, None) \<Rightarrow> Some n
      | (n, Some toNextHop) \<Rightarrow> do {
          let precursors = GetPrecursors toNextHop [];
          h \<leftarrow> rerr_add nextHop (rt_seqNo toNextHop) RerrHeader_new;
          let (n, unreachable) = destinations_via now nextHop n;
          (h, precursors, n) \<leftarrow> collect_unreachable E now unreachable h precursors n;
          n \<leftarrow> (if RerrHeader_GetDestCount h \<noteq> 0 then SendRerrMessage now h precursors n else Some n);
          Some (invalidate_routes now (map_insert nextHop (rt_seqNo toNextHop) unreachable) n)
        })"

definition SendRerrWhenNoRouteToForward ::
  "env \<Rightarrow> time \<Rightarrow> ipv4addr \<Rightarrow> u32 \<Rightarrow> ipv4addr \<Rightarrow> node \<Rightarrow> node option" where
  "SendRerrWhenNoRouteToForward E now dst dstSeqNo origin n =
     (if m_rerrCount n = RerrRateLimit (par n)
      then (if m_rerrRateLimitTimer n = None then None else Some n)
      else do {
        h \<leftarrow> rerr_add dst dstSeqNo RerrHeader_new;
        (case lookup_valid_route now origin n of
           (n, Some toOrigin) \<Rightarrow> send_on (rt_iface toOrigin) (Rerr h) (GetNextHop toOrigin) n
         | (n, None) \<Rightarrow> Some (send_all (Rerr h) n))
      })"

text \<open>The link failures a neighbour operation reported, handled in order.\<close>

fun link_failures :: "env \<Rightarrow> time \<Rightarrow> ipv4addr list \<Rightarrow> node \<Rightarrow> node option" where
  "link_failures E now [] n = Some n"
| "link_failures E now (a # as) n = do {
     n \<leftarrow> SendRerrWhenBreaksLinkToNextHop E now a n;
     link_failures E now as n
   }"

definition nb_update :: "env \<Rightarrow> time \<Rightarrow> ipv4addr \<Rightarrow> time \<Rightarrow> node \<Rightarrow> node option" where
  "nb_update E now a expire n =
     (case Neighbors_Update (lib E) (arp E) now a expire (m_nb n) of
        (nb, failed) \<Rightarrow> link_failures E now failed (n\<lparr>m_nb := nb\<rparr>))"

definition nb_is_neighbor :: "env \<Rightarrow> time \<Rightarrow> ipv4addr \<Rightarrow> node \<Rightarrow> (bool \<times> node) option" where
  "nb_is_neighbor E now a n =
     (case Neighbors_IsNeighbor now a (m_nb n) of
        (b, nb, failed) \<Rightarrow> map_option (Pair b) (link_failures E now failed (n\<lparr>m_nb := nb\<rparr>)))"

section \<open>The packet queue\<close>

definition report_dropped :: "QueueEntry list \<Rightarrow> node \<Rightarrow> node" where
  "report_dropped es n = n\<lparr>out := out n @ map (\<lambda>e. ErrorReport (qe_ecb e) (qe_packet e) (qe_header e)) es\<rparr>"

text \<open>
  \<open>SendPacketFromQueue\<close>: the loop takes one packet per turn, so the length of the queue bounds its
  turns. A packet bound to another device is dropped without its error callback, and ends the loop.
\<close>

fun send_from_queue :: "nat \<Rightarrow> env \<Rightarrow> time \<Rightarrow> ipv4addr \<Rightarrow> Ipv4Route \<Rightarrow> node \<Rightarrow> node" where
  "send_from_queue 0 E now dst route n = n"
| "send_from_queue (Suc k) E now dst route n =
     (case RequestQueue_Dequeue now dst (m_rqueue n) of
        (r, q, dropped) \<Rightarrow>
          let n = report_dropped dropped (n\<lparr>m_rqueue := q\<rparr>)
          in (case r of
                None \<Rightarrow> n
              | Some queueEntry \<Rightarrow>
                  let p = qe_packet queueEntry;
                      tag = deferred_tag p;
                      p = p\<lparr>deferred_tag := None\<rparr>
                  in if (case tag of None \<Rightarrow> False
                         | Some oif \<Rightarrow> oif \<noteq> - 1 \<and> oif \<noteq> GetInterfaceForDevice E (route_device route))
                     then n
                     else let header = (qe_header queueEntry)\<lparr>GetSource := route_source route,
                                         GetTtl := GetTtl (qe_header queueEntry) + 1\<rparr>
                          in send_from_queue k E now dst route
                               (emit (UnicastForward (qe_ucb queueEntry) route p header) n)))"

definition SendPacketFromQueue :: "env \<Rightarrow> time \<Rightarrow> ipv4addr \<Rightarrow> Ipv4Route \<Rightarrow> node \<Rightarrow> node" where
  "SendPacketFromQueue E now dst route n =
     send_from_queue (Suc (length (m_queue (m_rqueue n)))) E now dst route n"

definition drop_packets_with_dst :: "time \<Rightarrow> ipv4addr \<Rightarrow> node \<Rightarrow> node" where
  "drop_packets_with_dst now dst n =
     (case RequestQueue_DropPacketWithDst now dst (m_rqueue n) of
        (q, dropped) \<Rightarrow> report_dropped dropped (n\<lparr>m_rqueue := q\<rparr>))"

end
