(* ===== verification/Handlers.thy ===== *)
theory Handlers
  imports Protocol_State
begin

text \<open>
  The handlers of control messages and timers of \<open>model/aodv-routing-protocol.cc\<close>: route replies,
  \<open>RecvAodv\<close> with the five kinds of message, and the expiry of each timer. A handler of the code
  that takes a packet is two definitions: reading the header (\<open>RecvRequest\<close>), and the rest
  (\<open>handle_request\<close>). Differences of sequence numbers, \<open>int32_t (a) - int32_t (b)\<close>, are the 32-bit
  difference read as a signed number, which is what the code's comparison with 0 is meant to be.
\<close>

section \<open>Sending replies\<close>

definition SendReply :: "env \<Rightarrow> RreqHeader \<Rightarrow> RoutingTableEntry \<Rightarrow> node \<Rightarrow> node option" where
  "SendReply E rreqHeader toOrigin n =
     (let n = (if \<not> RreqHeader_GetUnknownSeqno rreqHeader \<and> rreq_dstSeqNo rreqHeader = m_seqNo n + 1
               then n\<lparr>m_seqNo := m_seqNo n + 1\<rparr> else n);
          rrepHeader = RrepHeader_new (unit_of_time E) 0 0 (rreq_dst rreqHeader) (m_seqNo n)
                         (GetDestinationOf toOrigin) (MyRouteTimeout (par n))
      in send_on (rt_iface toOrigin) (Rrep rrepHeader) (GetNextHop toOrigin) n)"

text \<open>The acknowledgement timer set on the local copy of \<open>toNextHop\<close> has no effect; its lookup purges.\<close>

definition SendReplyByIntermediateNode ::
  "env \<Rightarrow> time \<Rightarrow> RoutingTableEntry \<Rightarrow> RoutingTableEntry \<Rightarrow> bool \<Rightarrow> node \<Rightarrow> node option" where
  "SendReplyByIntermediateNode E now toDst toOrigin gratRep n =
     (let rrepHeader = RrepHeader_new (unit_of_time E) 0 (ucast (rt_hops toDst)) (GetDestinationOf toDst)
                         (rt_seqNo toDst) (GetDestinationOf toOrigin) (GetLifeTime now toDst);
          rrepHeader = (if IsMalicious (par n) then rrepHeader\<lparr>rrep_hopCount := 1\<rparr> else rrepHeader);
          (rrepHeader, n) =
            (if rt_hops toDst = 1
             then (RrepHeader_SetAckRequired True rrepHeader, fst (lookup_route now (GetNextHop toOrigin) n))
             else (rrepHeader, n));
          toDst = snd (InsertPrecursor (GetNextHop toOrigin) toDst);
          toOrigin = snd (InsertPrecursor (GetNextHop toDst) toOrigin);
          n = update_route toOrigin (update_route toDst n)
      in do {
        n \<leftarrow> send_on (rt_iface toOrigin) (Rrep rrepHeader) (GetNextHop toOrigin) n;
        if gratRep
        then send_on (rt_iface toDst)
               (Rrep (RrepHeader_new (unit_of_time E) 0 (ucast (rt_hops toOrigin)) (GetDestinationOf toOrigin)
                  (rt_seqNo toOrigin) (GetDestinationOf toDst) (GetLifeTime now toOrigin)))
               (GetNextHop toDst) n
        else Some n
      })"

definition SendReplyAck :: "env \<Rightarrow> time \<Rightarrow> ipv4addr \<Rightarrow> node \<Rightarrow> node option" where
  "SendReplyAck E now neighbor n =
     (let (n, r) = lookup_route now neighbor n;
          toNeighbor = entry_or_default E now r
      in send_on (rt_iface toNeighbor) (RrepAck RrepAckHeader_new) neighbor n)"

section \<open>Route requests\<close>

definition seqno_diff :: "u32 \<Rightarrow> u32 \<Rightarrow> int" where
  "seqno_diff a b = sint (a - b)"

text \<open>The reverse route to the originator: the node, and what \<open>toOrigin\<close> holds afterwards.\<close>

definition reverse_lifetime :: "node \<Rightarrow> u8 \<Rightarrow> time" where
  "reverse_lifetime n hop =
     2 * NetTraversalTime (par n) - (2 * int (unat hop)) * NodeTraversalTime (par n)"

definition reverse_route ::
  "env \<Rightarrow> time \<Rightarrow> RreqHeader \<Rightarrow> ipv4addr \<Rightarrow> ipv4addr \<Rightarrow> node \<Rightarrow> node \<times> RoutingTableEntry" where
  "reverse_route E now rreqHeader receiver src n =
     (let hop = rreq_hopCount rreqHeader;
          origin = rreq_origin rreqHeader
      in case lookup_route now origin n of
           (n, None) \<Rightarrow>
             (add_route now (RoutingTableEntry_new now (device_of E receiver) origin True
                (rreq_originSeqNo rreqHeader) (iface_of E receiver) (ucast hop) src (reverse_lifetime n hop)) n,
              RoutingTableEntry_default (lib E) now)
         | (n, Some toOrigin) \<Rightarrow>
             (let toOrigin =
                    (if rt_validSeqNo toOrigin then
                       (if seqno_diff (rreq_originSeqNo rreqHeader) (rt_seqNo toOrigin) > 0
                        then toOrigin\<lparr>rt_seqNo := rreq_originSeqNo rreqHeader\<rparr> else toOrigin)
                     else toOrigin\<lparr>rt_seqNo := rreq_originSeqNo rreqHeader\<rparr>);
                  toOrigin = toOrigin\<lparr>rt_validSeqNo := True\<rparr>;
                  toOrigin = SetNextHop src toOrigin;
                  toOrigin = SetOutputDevice (device_of E receiver) toOrigin;
                  toOrigin = toOrigin\<lparr>rt_iface := iface_of E receiver, rt_hops := ucast hop\<rparr>;
                  toOrigin = SetLifeTime now (max (reverse_lifetime n hop) (GetLifeTime now toOrigin)) toOrigin
              in (update_route toOrigin n, toOrigin)))"

text \<open>
  The broadcast loop: its condition is evaluated again before every interface, and \<open>IsNeighbor\<close>
  purges the neighbours each time.
\<close>

fun rebroadcast ::
  "env \<Rightarrow> time \<Rightarrow> RreqHeader \<Rightarrow> (socket \<times> Ipv4InterfaceAddress) list \<Rightarrow> node \<Rightarrow> node option" where
  "rebroadcast E now rreqHeader [] n = Some n"
| "rebroadcast E now rreqHeader (j # js) n =
     (if m_localNodeStatus (cluster n) \<noteq> NEIGH_NODE then Some n
      else do {
        (known, n) \<leftarrow> nb_is_neighbor E now (rreq_origin rreqHeader) n;
        if \<not> known then Some n
        else do {
          nt \<leftarrow> FindNeighborTuple (rreq_origin rreqHeader) (m_nb n);
          if \<not> neighborClient nt then Some n
          else rebroadcast E now rreqHeader js
                 (emit (SendTo (fst j) (Rreq rreqHeader) (broadcast_of (snd j))) n)
        }
      })"

definition forward_request :: "env \<Rightarrow> time \<Rightarrow> RreqHeader \<Rightarrow> node \<Rightarrow> node option" where
  "forward_request E now rreqHeader n =
     map_option (start_hello_timer E now 10) (rebroadcast E now rreqHeader (m_socketAddresses n) n)"

text \<open>
  The reply of a node that has a route: \<open>nt\<close> was looked up before \<open>IsNeighbor\<close> purged, and so
  replaced, the list it points into; reading it afterwards gives \<open>freed_tuple\<close> of the old tuple.
\<close>

definition reply_with_route ::
  "env \<Rightarrow> time \<Rightarrow> RreqHeader \<Rightarrow> ipv4addr \<Rightarrow> RoutingTableEntry \<Rightarrow> RoutingTableEntry \<Rightarrow> node \<Rightarrow> node option" where
  "reply_with_route E now rreqHeader src toDst toOrigin n =
     (let nt = FindNeighborTuple src (m_nb n)
      in if m_localNodeStatus (cluster n) \<noteq> NEIGH_NODE then Some n
         else do {
           (known, n) \<leftarrow> nb_is_neighbor E now src n;
           if \<not> known then Some n
           else do {
             nt \<leftarrow> map_option (freed_tuple E) nt;
             if neighborClient nt \<or> neighborNodeStatus nt = NEIGH_NODE
             then SendReplyByIntermediateNode E now toDst toOrigin (RreqHeader_GetGratiousRrep rreqHeader) n
             else Some n
           }
         })"

definition false_route :: "env \<Rightarrow> time \<Rightarrow> RreqHeader \<Rightarrow> ipv4addr \<Rightarrow> node \<Rightarrow> RoutingTableEntry" where
  "false_route E now rreqHeader receiver n =
     RoutingTableEntry_new now (device_of E receiver) (rreq_dst rreqHeader) True
       (rreq_dstSeqNo rreqHeader + 100) (iface_of E receiver) 1 (rreq_dst rreqHeader)
       (ActiveRouteTimeout (par n))"

text \<open>What is done with a request that is neither from the blacklist nor a duplicate.\<close>

definition answer_request ::
  "env \<Rightarrow> time \<Rightarrow> RreqHeader \<Rightarrow> ipv4addr \<Rightarrow> ipv4addr \<Rightarrow> node \<Rightarrow> node option" where
  "answer_request E now rreqHeader receiver src n =
     (let rreqHeader = rreqHeader\<lparr>rreq_hopCount := rreq_hopCount rreqHeader + 1\<rparr>;
          (n, toOrigin) = reverse_route E now rreqHeader receiver src n
      in if IsMyOwnAddress n (rreq_dst rreqHeader)
         then (let (n, r) = lookup_route now (rreq_origin rreqHeader) n
               in SendReply E rreqHeader (found r toOrigin) n)
         else
           (case lookup_route now (rreq_dst rreqHeader) n of
              (n, None) \<Rightarrow> forward_request E now rreqHeader n
            | (n, Some toDst) \<Rightarrow>
                if GetNextHop toDst = src then Some n
                else if IsMalicious (par n)
                        \<or> (RreqHeader_GetUnknownSeqno rreqHeader
                           \<or> seqno_diff (rt_seqNo toDst) (rreq_dstSeqNo rreqHeader) \<ge> 0)
                          \<and> rt_validSeqNo toDst
                then (if IsMalicious (par n)
                         \<or> \<not> RreqHeader_GetDestinationOnly rreqHeader \<and> rt_flag toDst = VALID
                      then (let (n, r) = lookup_route now (rreq_origin rreqHeader) n;
                                toOrigin = found r toOrigin
                            in if IsMalicious (par n)
                               then SendReplyByIntermediateNode E now
                                      (false_route E now rreqHeader receiver n) toOrigin
                                      (RreqHeader_GetGratiousRrep rreqHeader) n
                               else reply_with_route E now rreqHeader src toDst toOrigin n)
                      else forward_request E now
                             (RreqHeader_SetUnknownSeqno False
                                (rreqHeader\<lparr>rreq_dstSeqNo := rt_seqNo toDst\<rparr>)) n)
                else forward_request E now rreqHeader n))"

definition handle_request ::
  "env \<Rightarrow> time \<Rightarrow> RreqHeader \<Rightarrow> ipv4addr \<Rightarrow> ipv4addr \<Rightarrow> node \<Rightarrow> node option" where
  "handle_request E now rreqHeader receiver src n =
     (let (n, toPrev) = lookup_route now src n
      in if (case toPrev of None \<Rightarrow> False | Some rt \<Rightarrow> rt_blackListState rt) then Some n
         else
           let (duplicate, cache) =
                 IdCache_IsDuplicate now (rreq_origin rreqHeader) (rreq_requestID rreqHeader) (m_rreqIdCache n);
               n = n\<lparr>m_rreqIdCache := cache\<rparr>
           in if duplicate then Some n else answer_request E now rreqHeader receiver src n)"

definition RecvRequest :: "env \<Rightarrow> time \<Rightarrow> u8 list \<Rightarrow> ipv4addr \<Rightarrow> ipv4addr \<Rightarrow> node \<Rightarrow> node option" where
  "RecvRequest E now p receiver src n = do {
     (rreqHeader, _) \<leftarrow> RreqHeader_Deserialize (buf E) p;
     handle_request E now rreqHeader receiver src n
   }"

section \<open>Route replies\<close>

text \<open>What a RREP does to the route to its destination; the node, and the entry \<open>toDst\<close> was filled with.\<close>

definition install_reply ::
  "time \<Rightarrow> RoutingTableEntry \<Rightarrow> RrepHeader \<Rightarrow> node \<Rightarrow> node \<times> RoutingTableEntry option" where
  "install_reply now newEntry rrepHeader n =
     (case lookup_route now (rrep_dst rrepHeader) n of
        (n, None) \<Rightarrow> (add_route now newEntry n, None)
      | (n, Some toDst) \<Rightarrow>
          (if \<not> rt_validSeqNo toDst then update_route newEntry n
           else if seqno_diff (rrep_dstSeqNo rrepHeader) (rt_seqNo toDst) > 0 then update_route newEntry n
           else if rrep_dstSeqNo rrepHeader = rt_seqNo toDst \<and> rt_flag toDst \<noteq> VALID then update_route newEntry n
           else if rrep_dstSeqNo rrepHeader = rt_seqNo toDst \<and> ucast (rrep_hopCount rrepHeader) < rt_hops toDst
           then update_route newEntry n
           else n, Some toDst))"

text \<open>The entries of a forwarded RREP learn each other's next hops as precursors.\<close>

definition add_precursor :: "env \<Rightarrow> time \<Rightarrow> ipv4addr \<Rightarrow> ipv4addr \<Rightarrow> node \<Rightarrow> node" where
  "add_precursor E now a precursor n =
     (let (n, r) = lookup_route now a n
      in update_route (snd (InsertPrecursor precursor (entry_or_default E now r))) n)"

definition forward_reply :: "env \<Rightarrow> time \<Rightarrow> RrepHeader \<Rightarrow> node \<Rightarrow> node option" where
  "forward_reply E now rrepHeader n =
     (case lookup_route now (rrep_origin rrepHeader) n of
        (n, None) \<Rightarrow> Some n
      | (n, Some toOrigin) \<Rightarrow>
          if rt_flag toOrigin = IN_SEARCH then Some n
          else
            let toOrigin = SetLifeTime now (max (ActiveRouteTimeout (par n)) (GetLifeTime now toOrigin)) toOrigin;
                n = update_route toOrigin n;
                (n, toOrigin) =
                  (case lookup_valid_route now (rrep_dst rrepHeader) n of
                     (n, None) \<Rightarrow> (n, toOrigin)
                   | (n, Some toDst) \<Rightarrow>
                       (let toDst = snd (InsertPrecursor (GetNextHop toOrigin) toDst);
                            n = update_route toDst n;
                            n = add_precursor E now (GetNextHop toDst) (GetNextHop toOrigin) n;
                            toOrigin = snd (InsertPrecursor (GetNextHop toDst) toOrigin);
                            n = update_route toOrigin n;
                            n = add_precursor E now (GetNextHop toOrigin) (GetNextHop toDst) n
                        in (n, toOrigin)))
            in send_on (rt_iface toOrigin) (Rrep rrepHeader) (GetNextHop toOrigin) n)"

definition handle_reply ::
  "env \<Rightarrow> time \<Rightarrow> RrepHeader \<Rightarrow> ipv4addr \<Rightarrow> ipv4addr \<Rightarrow> node \<Rightarrow> node option" where
  "handle_reply E now rrepHeader receiver sender n =
     (let dst = rrep_dst rrepHeader;
          rrepHeader = rrepHeader\<lparr>rrep_hopCount := rrep_hopCount rrepHeader + 1\<rparr>
      in if dst = rrep_origin rrepHeader then Some n
         else
           let newEntry = RoutingTableEntry_new now (device_of E receiver) dst True (rrep_dstSeqNo rrepHeader)
                            (iface_of E receiver) (ucast (rrep_hopCount rrepHeader)) sender
                            (RrepHeader_GetLifeTime (unit_of_time E) rrepHeader);
               (n, r) = install_reply now newEntry rrepHeader n;
               toDst = entry_or_default E now r
           in do {
             (rrepHeader, n) \<leftarrow>
               (if RrepHeader_GetAckRequired rrepHeader
                then map_option (Pair (RrepHeader_SetAckRequired False rrepHeader)) (SendReplyAck E now sender n)
                else Some (rrepHeader, n));
             if IsMyOwnAddress n (rrep_origin rrepHeader)
             then (let n = (if rt_flag toDst = IN_SEARCH
                            then (update_route newEntry n)
                                   \<lparr>m_addressReqTimer := map_erase dst (m_addressReqTimer n)\<rparr>
                            else n);
                       (n, r) = lookup_route now dst n
                   in Some (SendPacketFromQueue E now dst (rt_route (found r toDst)) n))
             else forward_reply E now rrepHeader n
           })"

definition RecvReply :: "env \<Rightarrow> time \<Rightarrow> u8 list \<Rightarrow> ipv4addr \<Rightarrow> ipv4addr \<Rightarrow> node \<Rightarrow> node option" where
  "RecvReply E now p receiver sender n = do {
     (rrepHeader, _) \<leftarrow> RrepHeader_Deserialize (buf E) p;
     handle_reply E now rrepHeader receiver sender n
   }"

definition RecvReplyAck :: "time \<Rightarrow> ipv4addr \<Rightarrow> node \<Rightarrow> node" where
  "RecvReplyAck now neighbor n =
     (case lookup_route now neighbor n of
        (n, None) \<Rightarrow> n
      | (n, Some rt) \<Rightarrow> update_route (rt\<lparr>rt_flag := VALID\<rparr>) n)"

section \<open>Hello messages\<close>

definition hello_lifetime :: "node \<Rightarrow> time" where
  "hello_lifetime n = int (unat (AllowedHelloLoss (par n) + 1)) * HelloInterval (par n)"

definition hello_route :: "env \<Rightarrow> time \<Rightarrow> HelloHeader \<Rightarrow> ipv4addr \<Rightarrow> node \<Rightarrow> node" where
  "hello_route E now helloHeader receiver n =
     (case lookup_route now (m_nodeIdentifier helloHeader) n of
        (n, None) \<Rightarrow>
          add_route now (RoutingTableEntry_new now (device_of E receiver) (m_nodeIdentifier helloHeader) True
            (ucast (m_helloSequenceNumber helloHeader)) (iface_of E receiver) 1
            (m_nodeIdentifier helloHeader) (LongInterval (par n))) n
      | (n, Some toNeighbor) \<Rightarrow>
          (let toNeighbor = SetLifeTime now (max (hello_lifetime n) (GetLifeTime now toNeighbor)) toNeighbor;
               toNeighbor = toNeighbor\<lparr>rt_seqNo := ucast (m_helloSequenceNumber helloHeader),
                                       rt_validSeqNo := True, rt_flag := VALID\<rparr>;
               toNeighbor = SetOutputDevice (device_of E receiver) toNeighbor;
               toNeighbor = toNeighbor\<lparr>rt_iface := iface_of E receiver\<rparr>
           in update_route toNeighbor n))"

definition handle_hello :: "env \<Rightarrow> time \<Rightarrow> HelloHeader \<Rightarrow> ipv4addr \<Rightarrow> ipv4addr \<Rightarrow> node \<Rightarrow> node option" where
  "handle_hello E now helloHeader receiver sender n =
     (let origin = m_nodeIdentifier helloHeader;
          (duplicate, cache) =
            IdCache_IsDuplicate now origin (ucast (m_helloSequenceNumber helloHeader)) (m_helloIdCache n);
          n = n\<lparr>m_helloIdCache := cache\<rparr>
      in if duplicate then Some n
         else do {
           let client = IsMyOwnAddress n (m_associatedBnIdentifier helloHeader);
           nb \<leftarrow> UpdateMulticastNeighborTuple now helloHeader (LongInterval (par n))
                  (UpdateNeighborTuple (lib E) now helloHeader client (m_nb n));
           let n = hello_route E now helloHeader receiver (n\<lparr>m_nb := nb\<rparr>);
           if EnableHello (par n) then nb_update E now origin (hello_lifetime n) n else Some n
         })"

definition RecvHello :: "env \<Rightarrow> time \<Rightarrow> u8 list \<Rightarrow> ipv4addr \<Rightarrow> ipv4addr \<Rightarrow> node \<Rightarrow> node option" where
  "RecvHello E now p receiver sender n = do {
     (helloHeader, _) \<leftarrow> HelloHeader_Deserialize (buf E) (Seconds (lib E) (InSeconds (lib E) now)) p;
     handle_hello E now helloHeader receiver sender n
   }"

section \<open>Route errors\<close>

text \<open>The destinations of a RERR reached through its sender; the loop empties the header's list.\<close>

definition lost_destinations :: "(ipv4addr \<times> u32) list \<Rightarrow> RerrHeader \<Rightarrow> (ipv4addr \<times> u32) list" where
  "lost_destinations dstWithNextHopSrc rerrHeader =
     fold (\<lambda>un u. if \<exists>i\<in>set dstWithNextHopSrc. fst i = fst un then map_insert (fst un) (snd un) u else u)
       (m_unreachableDstSeqNo rerrHeader) []"

definition handle_error :: "env \<Rightarrow> time \<Rightarrow> RerrHeader \<Rightarrow> ipv4addr \<Rightarrow> node \<Rightarrow> node option" where
  "handle_error E now rerrHeader src n =
     (let (n, dstWithNextHopSrc) = destinations_via now src n;
          unreachable = lost_destinations dstWithNextHopSrc rerrHeader;
          rerrHeader = rerrHeader\<lparr>m_unreachableDstSeqNo := []\<rparr>
      in do {
        (rerrHeader, precursors, n) \<leftarrow> collect_unreachable E now unreachable rerrHeader [] n;
        n \<leftarrow> (if RerrHeader_GetDestCount rerrHeader \<noteq> 0
              then SendRerrMessage now rerrHeader precursors n else Some n);
        Some (invalidate_routes now unreachable n)
      })"

definition RecvError :: "env \<Rightarrow> time \<Rightarrow> u8 list \<Rightarrow> ipv4addr \<Rightarrow> node \<Rightarrow> node option" where
  "RecvError E now p src n = do {
     (rerrHeader, _) \<leftarrow> RerrHeader_Deserialize (buf E) p;
     handle_error E now rerrHeader src n
   }"

section \<open>Receiving\<close>

text \<open>
  \<open>m_socketAddresses[socket]\<close> inserts the default interface address for a socket the map has lost,
  which happens when \<open>NotifyRemoveAddress\<close> has erased a socket that is still open.
\<close>

definition RecvAodv :: "env \<Rightarrow> time \<Rightarrow> socket \<Rightarrow> ipv4addr \<Rightarrow> u8 list \<Rightarrow> node \<Rightarrow> node option" where
  "RecvAodv E now socket sender packet n =
     (let n = n\<lparr>m_socketAddresses := map_insert socket (Ipv4InterfaceAddress_default (lib E)) (m_socketAddresses n)\<rparr>
      in do {
        iface \<leftarrow> map_of (m_socketAddresses n) socket;
        let receiver = GetLocal iface;
        let n = UpdateRouteToNeighbor E now sender receiver n;
        (tHeader, size) \<leftarrow> TypeHeader_Deserialize (buf E) (TypeHeader_new AODVTYPE_RREQ) packet;
        let p = drop (unat size) packet;
        if \<not> m_valid tHeader then Some n
        else (case m_type tHeader of
                TYPE_HELLO \<Rightarrow> RecvHello E now p receiver sender n
              | AODVTYPE_RREQ \<Rightarrow> RecvRequest E now p receiver sender n
              | AODVTYPE_RREP \<Rightarrow> RecvReply E now p receiver sender n
              | AODVTYPE_RERR \<Rightarrow> RecvError E now p sender n
              | AODVTYPE_RREP_ACK \<Rightarrow> Some (RecvReplyAck now sender n))
      })"

section \<open>Timers\<close>

definition stop_search :: "time \<Rightarrow> ipv4addr \<Rightarrow> node \<Rightarrow> node" where
  "stop_search now dst n =
     (let n = n\<lparr>m_addressReqTimer := map_erase dst (m_addressReqTimer n)\<rparr>;
          n = n\<lparr>m_routingTable := snd (DeleteRoute now dst (m_routingTable n))\<rparr>
      in drop_packets_with_dst now dst n)"

text \<open>\<open>LookupValidRoute\<close> fills \<open>toDst\<close> with the entry it finds even when the entry is not valid.\<close>

definition RouteRequestTimerExpire :: "env \<Rightarrow> time \<Rightarrow> ipv4addr \<Rightarrow> node \<Rightarrow> node" where
  "RouteRequestTimerExpire E now dst n =
     (let (n, r) = lookup_route now dst n;
          toDst = entry_or_default E now r
      in if (case r of None \<Rightarrow> False | Some rt \<Rightarrow> rt_flag rt = VALID)
         then SendPacketFromQueue E now dst (rt_route toDst) n
         else if ucast (rt_reqCount toDst) = RreqRetries (par n) then stop_search now dst n
         else if rt_flag toDst = IN_SEARCH then SendRequest E now dst n
         else stop_search now dst n)"

text \<open>One hello per interface, each with its own number.\<close>

fun send_hellos :: "(socket \<times> Ipv4InterfaceAddress) list \<Rightarrow> node \<Rightarrow> node" where
  "send_hellos [] n = n"
| "send_hellos (j # js) n =
     (let helloHeader = HelloHeader_new (m_messageSequenceNumber n) (m_localNodeStatus (cluster n))
            (m_localcore_noncoreIndicator (cluster n)) (m_mainAddress (cluster n))
            (m_localAssociatedCORE (cluster n)) (m_localWeightFunction (cluster n))
            (m_localWeight (cluster n)) (GetBnNeighbors (m_nb n));
          n = n\<lparr>m_messageSequenceNumber := m_messageSequenceNumber n + 1\<rparr>
      in send_hellos js (emit (SendTo (fst j) (Hello helloHeader) (broadcast_of (snd j))) n))"

definition SendHello :: "node \<Rightarrow> node" where
  "SendHello n = send_hellos (m_socketAddresses n) n"

definition ShortTimerExpire :: "time \<Rightarrow> node \<Rightarrow> node" where
  "ShortTimerExpire now n =
     (let n = n\<lparr>cluster := UpdateLocalWeight (m_nb n) (UpdateLocalLastBnNeighbors (m_nb n) (cluster n))\<rparr>;
          n = n\<lparr>m_htimer := None\<rparr>;
          n = SendHello n
      in n\<lparr>m_htimer := Some (now + m_htimer_delay n)\<rparr>)"

definition LongTimerExpire :: "env \<Rightarrow> time \<Rightarrow> node \<Rightarrow> node option" where
  "LongTimerExpire E now n = do {
     (changed, st, nb, failed) \<leftarrow> clustering_round now (IsMyOwnAddress n) (cluster n) (m_nb n);
     n \<leftarrow> link_failures E now failed (n\<lparr>cluster := st, m_nb := nb\<rparr>);
     let n = (if changed then emit (StatusChanged (m_localNodeStatus st)) n else n);
     Some (n\<lparr>m_ltimer := Some (now + m_ltimer_delay n)\<rparr>)
   }"

definition RreqRateLimitTimerExpire :: "env \<Rightarrow> time \<Rightarrow> node \<Rightarrow> node" where
  "RreqRateLimitTimerExpire E now n =
     n\<lparr>m_rreqCount := 0, m_rreqRateLimitTimer := Some (now + Seconds (lib E) 1)\<rparr>"

definition RerrRateLimitTimerExpire :: "env \<Rightarrow> time \<Rightarrow> node \<Rightarrow> node" where
  "RerrRateLimitTimerExpire E now n =
     n\<lparr>m_rerrCount := 0, m_rerrRateLimitTimer := Some (now + Seconds (lib E) 1)\<rparr>"

definition AckTimerExpire :: "ipv4addr \<Rightarrow> time \<Rightarrow> node \<Rightarrow> node" where
  "AckTimerExpire neighbor blacklistTimeout n =
     n\<lparr>m_routingTable := snd (MarkLinkAsUnidirectional neighbor blacklistTimeout (m_routingTable n))\<rparr>"

text \<open>The neighbours' own timer, and a transmission the wireless device reports as failed.\<close>

definition nb_timer_expire :: "env \<Rightarrow> time \<Rightarrow> node \<Rightarrow> node option" where
  "nb_timer_expire E now n =
     (case Neighbors_Purge now (m_nb n) of
        (nb, failed) \<Rightarrow> link_failures E now failed (n\<lparr>m_nb := nb\<rparr>))"

definition tx_error :: "env \<Rightarrow> time \<Rightarrow> mac48 \<Rightarrow> node \<Rightarrow> node option" where
  "tx_error E now mac n =
     (case ProcessTxError now mac (m_nb n) of
        (nb, failed) \<Rightarrow> link_failures E now failed (n\<lparr>m_nb := nb\<rparr>))"

end
