(* ===== verification/Data_Path.thy ===== *)
theory Data_Path
  imports Handlers
begin

text \<open>
  How data packets go through \<open>RoutingProtocol\<close> (\<open>model/aodv-routing-protocol.cc\<close>): routes for outgoing
  packets, the loopback detour of a packet that waits for a route, delivery and forwarding.
  \<open>RouteInput\<close> and \<open>Forwarding\<close> answer whether they took the packet. A device or callback 0 is null.
\<close>

datatype SocketErrno = ERROR_NOTERROR | ERROR_NOROUTETOHOST

text \<open>
  \<open>LoopbackRoute\<close>: without an output device the first socket's address is read, undefined if there
  is none; the route has the default address as source until one is found, which the assertion refuses.
\<close>

definition loopback_source :: "env \<Rightarrow> device \<Rightarrow> node \<Rightarrow> ipv4addr option" where
  "loopback_source E oif n =
     (if oif \<noteq> 0
      then (case List.find (\<lambda>j. oif = GetNetDevice E (GetInterfaceForAddress E (GetLocal (snd j))))
                   (m_socketAddresses n) of
              None \<Rightarrow> Some (Ipv4Address_default (lib E))
            | Some j \<Rightarrow> Some (GetLocal (snd j)))
      else (case m_socketAddresses n of
              [] \<Rightarrow> None
            | j # js \<Rightarrow> Some (GetLocal (snd j))))"

definition LoopbackRoute :: "env \<Rightarrow> Ipv4Header \<Rightarrow> device \<Rightarrow> node \<Rightarrow> Ipv4Route option" where
  "LoopbackRoute E hdr oif n =
     (if m_lo n = 0 then None
      else do {
        src \<leftarrow> loopback_source E oif n;
        if src = Ipv4Address_default (lib E) then None
        else Some \<lparr>route_destination = GetDestination hdr, route_gateway = Ipv4Address_loopback,
                   route_source = src, route_device = m_lo n\<rparr>
      })"

text \<open>
  \<open>RouteOutput\<close> returns the route (\<open>None\<close>: the null pointer), the error number if it sets it, and the
  packet, to which it may add its tag.
\<close>

record route_output =
  out_route :: "Ipv4Route option"
  out_sockerr :: "SocketErrno option"
  out_packet :: "packet option"

definition RouteOutput ::
  "env \<Rightarrow> time \<Rightarrow> packet option \<Rightarrow> Ipv4Header \<Rightarrow> device \<Rightarrow> node \<Rightarrow> (route_output \<times> node) option" where
  "RouteOutput E now p header oif n =
     (case p of
        None \<Rightarrow> do {
          route \<leftarrow> LoopbackRoute E header oif n;
          Some (\<lparr>out_route = Some route, out_sockerr = None, out_packet = None\<rparr>, n)
        }
      | Some pkt \<Rightarrow>
          let refuse = \<lparr>out_route = None, out_sockerr = Some ERROR_NOROUTETOHOST, out_packet = p\<rparr>
          in if m_socketAddresses n = [] then Some (refuse, n)
             else
               let dst = GetDestination header
               in if IsMulticast (lib E) dst then Some (refuse, n)
                  else (case lookup_valid_route now dst n of
                      (n, Some rt) \<Rightarrow>
                        let route = rt_route rt
                        in if oif \<noteq> 0 \<and> route_device route \<noteq> oif then Some (refuse, n)
                           else
                             let (_, n) = UpdateRouteLifeTime now dst (ActiveRouteTimeout (par n)) n;
                                 (_, n) = UpdateRouteLifeTime now (route_gateway route) (ActiveRouteTimeout (par n)) n
                             in Some (\<lparr>out_route = Some route, out_sockerr = Some ERROR_NOTERROR, out_packet = p\<rparr>, n)
                    | (n, None) \<Rightarrow>
                        let iif = (if oif \<noteq> 0 then GetInterfaceForDevice E oif else - 1);
                            pkt = (if deferred_tag pkt = None then pkt\<lparr>deferred_tag := Some iif\<rparr> else pkt)
                        in do {
                          route \<leftarrow> LoopbackRoute E header oif n;
                          Some (\<lparr>out_route = Some route, out_sockerr = Some ERROR_NOTERROR, out_packet = Some pkt\<rparr>, n)
                        }))"

definition DeferredRouteOutput ::
  "env \<Rightarrow> time \<Rightarrow> packet \<Rightarrow> Ipv4Header \<Rightarrow> callback \<Rightarrow> callback \<Rightarrow> node \<Rightarrow> node option" where
  "DeferredRouteOutput E now p header ucb ecb n = do {
     (result, q, dropped) \<leftarrow>
       RequestQueue_Enqueue now (QueueEntry_new now p header ucb ecb now) (m_rqueue n);
     let n = report_dropped dropped (n\<lparr>m_rqueue := q\<rparr>);
     if \<not> result then Some n
     else (case lookup_route now (GetDestination header) n of
             (n, r) \<Rightarrow>
               if (case r of None \<Rightarrow> True | Some rt \<Rightarrow> rt_flag rt \<noteq> IN_SEARCH)
               then Some (SendRequest E now (GetDestination header) n)
               else Some n)
   }"

definition Forwarding ::
  "env \<Rightarrow> time \<Rightarrow> packet \<Rightarrow> Ipv4Header \<Rightarrow> callback \<Rightarrow> callback \<Rightarrow> node \<Rightarrow> (bool \<times> node) option" where
  "Forwarding E now p header ucb ecb n =
     (let dst = GetDestination header;
          origin = GetSource header;
          n = n\<lparr>m_routingTable := RoutingTable_Purge now (m_routingTable n)\<rparr>
      in if IsMalicious (par n) then Some (False, n)
         else (case lookup_route now dst n of
             (n, None) \<Rightarrow> map_option (Pair False) (SendRerrWhenNoRouteToForward E now dst 0 origin n)
           | (n, Some toDst) \<Rightarrow>
               if rt_flag toDst = VALID then
                 let route = rt_route toDst;
                     active = ActiveRouteTimeout (par n);
                     (_, n) = UpdateRouteLifeTime now origin active n;
                     (_, n) = UpdateRouteLifeTime now dst active n;
                     (_, n) = UpdateRouteLifeTime now (route_gateway route) active n;
                     (n, r) = lookup_route now origin n;
                     toOrigin = entry_or_default E now r;
                     (_, n) = UpdateRouteLifeTime now (GetNextHop toOrigin) active n
                 in do {
                   n \<leftarrow> nb_update E now (route_gateway route) active n;
                   n \<leftarrow> nb_update E now (GetNextHop toOrigin) active n;
                   Some (True, emit (UnicastForward ucb route p header) n)
                 }
               else map_option (Pair False)
                      (SendRerrWhenNoRouteToForward E now dst
                        (if rt_validSeqNo toDst then rt_seqNo toDst else 0) origin n)))"

definition deliver ::
  "callback \<Rightarrow> callback \<Rightarrow> packet \<Rightarrow> Ipv4Header \<Rightarrow> u32 \<Rightarrow> node \<Rightarrow> node" where
  "deliver lcb ecb p header iif n =
     (if lcb \<noteq> 0 then emit (LocalDeliver lcb p header iif) n else emit (ErrorReport ecb p header) n)"

text \<open>The loop over the sockets ends in its first matching turn, the broadcast case.\<close>

definition broadcast_input ::
  "env \<Rightarrow> time \<Rightarrow> packet \<Rightarrow> Ipv4Header \<Rightarrow> u32 \<Rightarrow> callback \<Rightarrow> callback \<Rightarrow> callback \<Rightarrow> node \<Rightarrow> node" where
  "broadcast_input E now p header iif ucb lcb ecb n =
     (let (duplicate, dpd) = Dpd_IsDuplicate now p header (m_dpd n);
          n = n\<lparr>m_dpd := dpd\<rparr>
      in if duplicate then n
         else
           let (_, n) = UpdateRouteLifeTime now (GetSource header) (ActiveRouteTimeout (par n)) n;
               n = deliver lcb ecb p header iif n
           in if \<not> EnableBroadcast (par n) then n
              else if GetTtl header > 1
              then (case lookup_route now (GetDestination header) n of
                      (n, None) \<Rightarrow> n
                    | (n, Some toBroadcast) \<Rightarrow> emit (UnicastForward ucb (rt_route toBroadcast) p header) n)
              else n)"

definition RouteInput ::
  "env \<Rightarrow> time \<Rightarrow> packet \<Rightarrow> Ipv4Header \<Rightarrow> device \<Rightarrow> callback \<Rightarrow> callback \<Rightarrow> callback \<Rightarrow> node
   \<Rightarrow> (bool \<times> node) option" where
  "RouteInput E now p header idev ucb lcb ecb n =
     (if m_socketAddresses n = [] then Some (False, n)
      else if \<not> m_ipv4 n \<or> sint (GetInterfaceForDevice E idev) < 0 then None
      else
        let iif = GetInterfaceForDevice E idev;
            dst = GetDestination header;
            origin = GetSource header
        in if idev = m_lo n \<and> deferred_tag p \<noteq> None
           then map_option (Pair True) (DeferredRouteOutput E now p header ucb ecb n)
           else if IsMyOwnAddress n origin then Some (True, n)
           else if IsMulticast (lib E) dst then Some (False, n)
           else if \<exists>j\<in>set (m_socketAddresses n).
                     GetInterfaceForAddress E (GetLocal (snd j)) = iif
                     \<and> (dst = GetBroadcast (snd j) \<or> dst = Ipv4Address_broadcast)
           then Some (True, broadcast_input E now p header iif ucb lcb ecb n)
           else if IsDestinationAddress E dst iif
           then (let (_, n) = UpdateRouteLifeTime now origin (ActiveRouteTimeout (par n)) n
                 in do {
                   n \<leftarrow> (case lookup_valid_route now origin n of
                           (n, None) \<Rightarrow> Some n
                         | (n, Some toOrigin) \<Rightarrow>
                             (let (_, n) = UpdateRouteLifeTime now (GetNextHop toOrigin) (ActiveRouteTimeout (par n)) n
                              in nb_update E now (GetNextHop toOrigin) (ActiveRouteTimeout (par n)) n));
                   Some (True, deliver lcb ecb p header iif n)
                 })
           else Forwarding E now p header ucb ecb n)"

end
