(* ===== verification/Lifecycle.thy ===== *)
theory Lifecycle
  imports Handlers
begin

text \<open>
  Starting, stopping and the notifications of the IPv4 stack, of \<open>model/aodv-routing-protocol.cc\<close>.
  The interface, its device and its ARP cache are read from the environment. Closing a socket is an
  effect; \<open>NotifyRemoveAddress\<close> drops the socket without closing it.
\<close>

definition Start :: "env \<Rightarrow> time \<Rightarrow> node \<Rightarrow> node" where
  "Start E now n =
     (let n = (if EnableHello (par n) then n\<lparr>m_nb := Neighbors_ScheduleTimer now (m_nb n)\<rparr> else n);
          n = n\<lparr>m_rreqRateLimitTimer := Some (now + Seconds (lib E) 1),
                m_rerrRateLimitTimer := Some (now + Seconds (lib E) 1),
                m_messageSequenceNumber := word_of_int (draw E 99 91199),
                m_nb := Neighbors_SetMinHello (AllowedHelloLoss (par n)) (m_nb n),
                par := (par n)\<lparr>HelloInterval := ShortInterval (par n)\<rparr>\<rparr>
      in if m_localWeight (cluster n) = 0
         then n\<lparr>cluster := (cluster n)\<lparr>m_localWeight := word_of_int (draw E 1 100)\<rparr>\<rparr>
         else n)"

text \<open>The three assertions: no stack set before, only the loopback interface, and its device.\<close>

definition SetIpv4 :: "env \<Rightarrow> time \<Rightarrow> node \<Rightarrow> node option" where
  "SetIpv4 E now n =
     (if m_ipv4 n then None
      else
        let start = Milli (lib E) (draw E 1 1000);
            n = (if EnableHello (par n)
                 then schedule (now + start) ShortTimerCall (n\<lparr>m_htimer_delay := ShortInterval (par n)\<rparr>)
                 else n);
            n = n\<lparr>m_ltimer_delay := LongInterval (par n)\<rparr>;
            lstart = LongInterval (par n) + start - Milli (lib E) 1;
            n = schedule (now + lstart) LongTimerCall n;
            n = n\<lparr>m_ipv4 := True\<rparr>
        in if \<not> (GetNInterfaces E = 1 \<and> GetLocal (GetAddress E 0) = Ipv4Address_loopback) then None
           else if GetNetDevice E 0 = 0 then None
           else
             let n = n\<lparr>m_lo := GetNetDevice E 0\<rparr>;
                 rt = RoutingTableEntry_new now (m_lo n) Ipv4Address_loopback True 0
                        (Ipv4InterfaceAddress_of (lib E) Ipv4Address_loopback 0xff000000) 1
                        Ipv4Address_loopback (MaximumSimulationTime (lib E));
                 n = add_route now rt n
             in Some (schedule now StartCall n))"

text \<open>A new socket for an interface address, and the route to the interface's broadcast address.\<close>

definition open_socket :: "env \<Rightarrow> Ipv4InterfaceAddress \<Rightarrow> node \<Rightarrow> node option" where
  "open_socket E iface n =
     (if CreateSocket E = 0 then None
      else Some (n\<lparr>m_socketAddresses := map_insert (CreateSocket E) iface (m_socketAddresses n)\<rparr>))"

definition broadcast_route :: "env \<Rightarrow> time \<Rightarrow> Ipv4InterfaceAddress \<Rightarrow> node \<Rightarrow> node" where
  "broadcast_route E now iface n =
     add_route now (RoutingTableEntry_new now (device_of E (GetLocal iface)) (GetBroadcast iface) True 0
       iface 1 (GetBroadcast iface) (MaximumSimulationTime (lib E))) n"

definition NotifyInterfaceUp :: "env \<Rightarrow> time \<Rightarrow> u32 \<Rightarrow> node \<Rightarrow> node option" where
  "NotifyInterfaceUp E now i n =
     (let iface = GetAddress E i
      in if GetLocal iface = Ipv4Address_loopback then Some n
         else do {
           let n = (if m_mainAddress (cluster n) = Ipv4Address_any
                    then n\<lparr>cluster := (cluster n)\<lparr>m_mainAddress := GetLocal iface\<rparr>\<rparr> else n);
           n \<leftarrow> open_socket E iface n;
           let n = broadcast_route E now iface n;
           if \<not> has_wifi_mac E (device_of E (GetLocal iface)) then Some n
           else Some (n\<lparr>m_nb := AddArpCache (GetArpCache E i) (m_nb n)\<rparr>)
         })"

definition no_interfaces :: "node \<Rightarrow> node" where
  "no_interfaces n =
     n\<lparr>m_htimer := None, m_ltimer := None, m_nb := Neighbors_Clear (m_nb n),
       m_routingTable := RoutingTable_Clear (m_routingTable n)\<rparr>"

definition NotifyInterfaceDown :: "env \<Rightarrow> u32 \<Rightarrow> node \<Rightarrow> node option" where
  "NotifyInterfaceDown E i n =
     (let n = (if has_adhoc_mac E (GetNetDevice E i)
               then n\<lparr>m_nb := DelArpCache (GetArpCache E i) (m_nb n)\<rparr> else n)
      in do {
        socket \<leftarrow> FindSocketWithInterfaceAddress (GetAddress E i) n;
        let n = emit (CloseSocket socket) n;
        let n = n\<lparr>m_socketAddresses := map_erase socket (m_socketAddresses n)\<rparr>;
        if m_socketAddresses n = [] then Some (no_interfaces n)
        else Some (n\<lparr>m_routingTable := DeleteAllRoutesFromInterface (GetAddress E i) (m_routingTable n)\<rparr>)
      })"

definition NotifyAddAddress :: "env \<Rightarrow> time \<Rightarrow> u32 \<Rightarrow> node \<Rightarrow> node option" where
  "NotifyAddAddress E now i n =
     (if \<not> IsUp E i then Some n
      else if GetNAddresses E i = 1 then
        let iface = GetAddress E i
        in if FindSocketWithInterfaceAddress iface n \<noteq> None then Some n
           else if GetLocal iface = Ipv4Address_loopback then Some n
           else map_option (broadcast_route E now iface) (open_socket E iface n)
      else Some n)"

definition NotifyRemoveAddress ::
  "env \<Rightarrow> time \<Rightarrow> u32 \<Rightarrow> Ipv4InterfaceAddress \<Rightarrow> node \<Rightarrow> node option" where
  "NotifyRemoveAddress E now i address n =
     (case FindSocketWithInterfaceAddress address n of
        None \<Rightarrow> Some n
      | Some socket \<Rightarrow> do {
          let n = n\<lparr>m_routingTable := DeleteAllRoutesFromInterface address (m_routingTable n)\<rparr>;
          let n = n\<lparr>m_socketAddresses := map_erase socket (m_socketAddresses n)\<rparr>;
          n \<leftarrow> (if GetNAddresses E i \<noteq> 0
                then map_option (broadcast_route E now (GetAddress E i)) (open_socket E (GetAddress E i) n)
                else Some n);
          if m_socketAddresses n = [] then Some (no_interfaces n) else Some n
        })"

definition DoDispose :: "env \<Rightarrow> time \<Rightarrow> node \<Rightarrow> node option" where
  "DoDispose E now n = do {
     let n = n\<lparr>m_ipv4 := False\<rparr>;
     let n = n\<lparr>out := out n @ map (\<lambda>iter. CloseSocket (fst iter)) (m_socketAddresses n)\<rparr>;
     n \<leftarrow> nb_timer_expire E now n;
     Some (n\<lparr>m_socketAddresses := []\<rparr>)
   }"

end
