(* ===== verification/Events.thy ===== *)
theory Events
  imports Data_Path Lifecycle
begin

text \<open>
  \<open>RoutingProtocol\<close> as a state machine: the events that reach a node, what each does to it, and the runs
  of a node from its construction.
\<close>

section \<open>Events and runs\<close>

text \<open>
  What can happen to a node: a notification of the IPv4 stack, a control message or a data packet, a
  failed transmission, a call that \<open>Simulator::Schedule\<close> made due, the expiry of a timer.
  \<open>AckTimerExpire\<close> is not among them: no timer of the code is ever started with it.
\<close>

datatype event =
    StackSet
  | InterfaceUp u32
  | InterfaceDown u32
  | AddressAdded u32
  | AddressRemoved u32 Ipv4InterfaceAddress
  | Dispose
  | Receive socket ipv4addr "u8 list"
  | Output "packet option" Ipv4Header device
  | Input packet Ipv4Header device callback callback callback
  | TxError mac48
  | Scheduled call
  | HelloTimer
  | LongTimer
  | RreqLimitTimer
  | RerrLimitTimer
  | RequestTimer ipv4addr
  | NeighborTimer

fun run_call :: "env \<Rightarrow> time \<Rightarrow> call \<Rightarrow> node \<Rightarrow> node option" where
  "run_call E now StartCall n = Some (Start E now n)"
| "run_call E now ShortTimerCall n = Some (ShortTimerExpire now n)"
| "run_call E now LongTimerCall n = LongTimerExpire E now n"
| "run_call E now (SendRequestCall dst) n = Some (SendRequest E now dst n)"

inductive node_step :: "env \<Rightarrow> time \<Rightarrow> event \<Rightarrow> node \<Rightarrow> node \<Rightarrow> bool" for E now where
  stack: "SetIpv4 E now n = Some n' \<Longrightarrow> node_step E now StackSet n n'"
| up: "NotifyInterfaceUp E now i n = Some n' \<Longrightarrow> node_step E now (InterfaceUp i) n n'"
| down: "NotifyInterfaceDown E i n = Some n' \<Longrightarrow> node_step E now (InterfaceDown i) n n'"
| added: "NotifyAddAddress E now i n = Some n' \<Longrightarrow> node_step E now (AddressAdded i) n n'"
| removed: "NotifyRemoveAddress E now i a n = Some n' \<Longrightarrow> node_step E now (AddressRemoved i a) n n'"
| dispose: "DoDispose E now n = Some n' \<Longrightarrow> node_step E now Dispose n n'"
| receive: "RecvAodv E now s sender p n = Some n' \<Longrightarrow> node_step E now (Receive s sender p) n n'"
| outgoing: "RouteOutput E now p h oif n = Some (r, n') \<Longrightarrow> node_step E now (Output p h oif) n n'"
| incoming: "RouteInput E now p h idev ucb lcb ecb n = Some (b, n')
    \<Longrightarrow> node_step E now (Input p h idev ucb lcb ecb) n n'"
| error: "tx_error E now mac n = Some n' \<Longrightarrow> node_step E now (TxError mac) n n'"
| scheduled_call: "(now, c) \<in> set (scheduled n)
    \<Longrightarrow> run_call E now c (n\<lparr>scheduled := remove1 (now, c) (scheduled n)\<rparr>) = Some n'
    \<Longrightarrow> node_step E now (Scheduled c) n n'"
| hello_timer: "m_htimer n = Some now \<Longrightarrow> node_step E now HelloTimer n (ShortTimerExpire now n)"
| long_timer: "m_ltimer n = Some now \<Longrightarrow> LongTimerExpire E now n = Some n' \<Longrightarrow> node_step E now LongTimer n n'"
| rreq_limit_timer: "m_rreqRateLimitTimer n = Some now
    \<Longrightarrow> node_step E now RreqLimitTimer n (RreqRateLimitTimerExpire E now n)"
| rerr_limit_timer: "m_rerrRateLimitTimer n = Some now
    \<Longrightarrow> node_step E now RerrLimitTimer n (RerrRateLimitTimerExpire E now n)"
| request_timer: "map_of (m_addressReqTimer n) dst = Some now
    \<Longrightarrow> node_step E now (RequestTimer dst) n (RouteRequestTimerExpire E now dst
          (n\<lparr>m_addressReqTimer := map_erase dst (m_addressReqTimer n)\<rparr>))"
| neighbor_timer: "m_ntimer (m_nb n) = Some now \<Longrightarrow> nb_timer_expire E now n = Some n'
    \<Longrightarrow> node_step E now NeighborTimer n n'"

inductive_cases limit_timer_step: "node_step E now RreqLimitTimer n n'"
inductive_simps receive_step: "node_step E now (Receive s sender p) n n'"
inductive_simps stack_step: "node_step E now StackSet n n'"
inductive_simps up_step: "node_step E now (InterfaceUp i) n n'"

text \<open>
  A node is constructed, its attributes are set, the parameters to \<open>p\<close> and those of the clustering
  as its user likes, and then events happen at rising times; the environment may answer differently
  at every event, the library \<open>L\<close> stays the same.
\<close>

definition configure ::
  "params \<Rightarrow> NodeStatus \<Rightarrow> WeightFunction \<Rightarrow> u32 \<Rightarrow> bool \<Rightarrow> bool \<Rightarrow> node \<Rightarrow> node" where
  "configure p status f weight rule1 rule2 n =
     (let n = SetMaxQueueLen (MaxQueueLen p) (SetMaxQueueTime (MaxQueueTime p) (n\<lparr>par := p\<rparr>))
      in n\<lparr>cluster := (SetLocalNodeStatus status (cluster n))\<lparr>m_localWeightFunction := f,
             m_localWeight := weight, Rule1 := rule1, Rule2 := rule2\<rparr>\<rparr>)"

inductive reachable :: "library \<Rightarrow> params \<Rightarrow> time \<Rightarrow> node \<Rightarrow> bool" for L p where
  start: "reachable L p 0 (configure p status f weight rule1 rule2 (node_new L))"
| event: "reachable L p t n \<Longrightarrow> t \<le> now \<Longrightarrow> lib E = L \<Longrightarrow> node_step E now e n n' \<Longrightarrow> reachable L p now n'"

end
