(* ===== verification/Evolution.thy ===== *)
theory Evolution
  imports Events
begin

text \<open>
  The invariant of a node's state, and the proof that every operation keeps it. Every operation is
  shown to relate the state before to the state after it; the relation is an \<open>evolution\<close>, so it
  composes over the code's sequences of calls, over loops and over runs. The operations are treated
  once, for all relations of the locale \<open>node_relation\<close>.
\<close>

section \<open>Relations between successive states\<close>

locale evolution =
  fixes ok :: "'s \<Rightarrow> bool" and R :: "'s \<Rightarrow> 's \<Rightarrow> bool"
  assumes refl: "ok s \<Longrightarrow> R s s"
    and trans: "R a b \<Longrightarrow> R b c \<Longrightarrow> R a c"
    and ok_after: "R a b \<Longrightarrow> ok b"
begin

lemma along_fold:
  "ok s \<Longrightarrow> (\<And>x s. x \<in> set xs \<Longrightarrow> ok s \<Longrightarrow> R s (f x s)) \<Longrightarrow> R s (fold f xs s)"
proof (induction xs arbitrary: s)
  case (Cons x xs)
  have "R s (f x s)" using Cons.prems by simp
  moreover from this have "R (f x s) (fold f xs (f x s))"
    by (intro Cons.IH Cons.prems(2)) (auto intro: ok_after)
  ultimately show ?case using trans by simp
qed (simp add: refl)

lemma along_run:
  "step\<^sup>*\<^sup>* a b \<Longrightarrow> ok a \<Longrightarrow> (\<And>x y. step x y \<Longrightarrow> ok x \<Longrightarrow> R x y) \<Longrightarrow> R a b"
proof (induction rule: rtranclp_induct)
  case base
  then show ?case by (simp add: refl)
next
  case (step y z)
  then have "R a y" by blast
  with step.hyps(2) step.prems(2) ok_after trans show ?case by blast
qed

lemma along_calls:
  "f s = Some t \<Longrightarrow> g t = Some u \<Longrightarrow> ok s \<Longrightarrow> (\<And>s t. ok s \<Longrightarrow> f s = Some t \<Longrightarrow> R s t)
   \<Longrightarrow> (\<And>s t. ok s \<Longrightarrow> g s = Some t \<Longrightarrow> R s t) \<Longrightarrow> R s u"
  using ok_after trans by blast

end

section \<open>The invariant\<close>

definition node_wf :: "node \<Rightarrow> bool" where
  "node_wf n \<longleftrightarrow> RoutingTable_wf (m_routingTable n) \<and> Neighbors_wf (m_nb n) \<and> RequestQueue_wf (m_rqueue n)
     \<and> IdCache_wf (m_rreqIdCache n) \<and> IdCache_wf (m_helloIdCache n) \<and> IdCache_wf (m_dpd n)
     \<and> map_ok (m_socketAddresses n) \<and> map_ok (m_addressReqTimer n)
     \<and> m_rreqCount n \<le> RreqRateLimit (par n)"

lemma node_wf_parts:
  assumes "node_wf n"
  shows "RoutingTable_wf (m_routingTable n)" "Neighbors_wf (m_nb n)" "RequestQueue_wf (m_rqueue n)"
    "IdCache_wf (m_rreqIdCache n)" "IdCache_wf (m_helloIdCache n)" "IdCache_wf (m_dpd n)"
    "map_ok (m_socketAddresses n)" "map_ok (m_addressReqTimer n)" "m_rreqCount n \<le> RreqRateLimit (par n)"
  using assms unfolding node_wf_def by blast+

text \<open>Fields the invariant does not mention, and fields with an invariant of their own.\<close>

lemma node_wf_frame [simp]:
  "node_wf (n\<lparr>m_seqNo := a\<rparr>) = node_wf n"
  "node_wf (n\<lparr>m_ipv4 := b\<rparr>) = node_wf n"
  "node_wf (n\<lparr>m_lo := c\<rparr>) = node_wf n"
  "node_wf (n\<lparr>m_rerrCount := d\<rparr>) = node_wf n"
  "node_wf (n\<lparr>cluster := e\<rparr>) = node_wf n"
  "node_wf (n\<lparr>m_messageSequenceNumber := f\<rparr>) = node_wf n"
  "node_wf (n\<lparr>m_htimer_delay := g\<rparr>) = node_wf n"
  "node_wf (n\<lparr>m_htimer := h\<rparr>) = node_wf n"
  "node_wf (n\<lparr>m_ltimer_delay := g\<rparr>) = node_wf n"
  "node_wf (n\<lparr>m_ltimer := h\<rparr>) = node_wf n"
  "node_wf (n\<lparr>m_rreqRateLimitTimer := h\<rparr>) = node_wf n"
  "node_wf (n\<lparr>m_rerrRateLimitTimer := h\<rparr>) = node_wf n"
  "node_wf (n\<lparr>scheduled := i\<rparr>) = node_wf n"
  "node_wf (n\<lparr>out := es\<rparr>) = node_wf n"
  "node_wf (n\<lparr>par := (par n)\<lparr>HelloInterval := g\<rparr>\<rparr>) = node_wf n"
  by (simp_all add: node_wf_def)

lemma node_wf_field:
  "node_wf n \<Longrightarrow> RoutingTable_wf t \<Longrightarrow> node_wf (n\<lparr>m_routingTable := t\<rparr>)"
  "node_wf n \<Longrightarrow> Neighbors_wf nb \<Longrightarrow> node_wf (n\<lparr>m_nb := nb\<rparr>)"
  "node_wf n \<Longrightarrow> RequestQueue_wf q \<Longrightarrow> node_wf (n\<lparr>m_rqueue := q\<rparr>)"
  "node_wf n \<Longrightarrow> IdCache_wf c \<Longrightarrow> node_wf (n\<lparr>m_rreqIdCache := c\<rparr>)"
  "node_wf n \<Longrightarrow> IdCache_wf c \<Longrightarrow> node_wf (n\<lparr>m_helloIdCache := c\<rparr>)"
  "node_wf n \<Longrightarrow> IdCache_wf c \<Longrightarrow> node_wf (n\<lparr>m_dpd := c\<rparr>)"
  "node_wf n \<Longrightarrow> map_ok s \<Longrightarrow> node_wf (n\<lparr>m_socketAddresses := s\<rparr>)"
  "node_wf n \<Longrightarrow> map_ok r \<Longrightarrow> node_wf (n\<lparr>m_addressReqTimer := r\<rparr>)"
  by (simp_all add: node_wf_def)

lemma count_below:
  assumes "node_wf n" "m_rreqCount n \<noteq> RreqRateLimit (par n)"
  shows "unat (m_rreqCount n + 1) = unat (m_rreqCount n) + 1"
    and "node_wf (n\<lparr>m_rreqCount := m_rreqCount n + 1, m_requestId := m_requestId n + 1\<rparr>)"
proof -
  have "m_rreqCount n < RreqRateLimit (par n)" using node_wf_parts(9) [OF assms(1)] assms(2) by simp
  then have less: "unat (m_rreqCount n) < unat (RreqRateLimit (par n))" by (simp add: word_less_nat_alt)
  moreover have "unat (RreqRateLimit (par n)) < 2 ^ 16"
    using unsigned_less [of "RreqRateLimit (par n)", where 'a = nat] by simp
  ultimately show count: "unat (m_rreqCount n + 1) = unat (m_rreqCount n) + 1" by (simp add: unat_word_ariths)
  with less have "m_rreqCount n + 1 \<le> RreqRateLimit (par n)" by (simp add: word_le_nat_alt)
  then show "node_wf (n\<lparr>m_rreqCount := m_rreqCount n + 1, m_requestId := m_requestId n + 1\<rparr>)"
    using assms(1) by (simp add: node_wf_def)
qed

section \<open>The operations of the tables\<close>

lemma RoutingTable_wf_more:
  assumes "RoutingTable_wf t"
  shows "RoutingTable_wf (snd (DeleteRoute now dst t))"
    and "RoutingTable_wf (InvalidateRoutesWithDst now us t)"
    and "RoutingTable_wf (DeleteAllRoutesFromInterface iface t)"
    and "RoutingTable_wf (RoutingTable_Clear t)"
    and "RoutingTable_wf (snd (MarkLinkAsUnidirectional a b t))"
proof -
  have wf: "RoutingTable_wf (RoutingTable_Purge now t)" by (rule RoutingTable_wf_Purge [OF assms])
  then show "RoutingTable_wf (snd (DeleteRoute now dst t))"
    by (auto simp: DeleteRoute_def RoutingTable_wf_def map_ok_filter map_erase_def Let_def)
  show "RoutingTable_wf (InvalidateRoutesWithDst now us t)"
    using wf by (auto simp: InvalidateRoutesWithDst_def RoutingTable_wf_def Let_def map_ok_def comp_def
        fold_invalidate)
  show "RoutingTable_wf (DeleteAllRoutesFromInterface iface t)"
    using assms by (auto simp: DeleteAllRoutesFromInterface_def RoutingTable_wf_def map_ok_filter)
  show "RoutingTable_wf (RoutingTable_Clear t)"
    using assms by (simp add: RoutingTable_Clear_def RoutingTable_wf_def)
  have "GetDestinationOf rt = a" if "map_of (m_ipv4AddressEntry t) a = Some rt" for rt
    using assms that by (auto simp: RoutingTable_wf_def dest!: map_of_SomeD)
  then show "RoutingTable_wf (snd (MarkLinkAsUnidirectional a b t))"
    using assms
    by (auto simp: MarkLinkAsUnidirectional_def GetDestinationOf_def split: option.splits
        intro!: RoutingTable_wf_assign)
qed

text \<open>No operation changes the lifetime of a broken link.\<close>

lemma bad_link_lifetime [simp]:
  "m_badLinkLifetime (RoutingTable_Purge now t) = m_badLinkLifetime t"
  "m_badLinkLifetime (snd (AddRoute now rt t)) = m_badLinkLifetime t"
  "m_badLinkLifetime (snd (RoutingTable_Update rt t)) = m_badLinkLifetime t"
  "m_badLinkLifetime (snd (DeleteRoute now dst t)) = m_badLinkLifetime t"
  "m_badLinkLifetime (InvalidateRoutesWithDst now us t) = m_badLinkLifetime t"
  "m_badLinkLifetime (DeleteAllRoutesFromInterface iface t) = m_badLinkLifetime t"
  "m_badLinkLifetime (RoutingTable_Clear t) = m_badLinkLifetime t"
  "m_badLinkLifetime (snd (MarkLinkAsUnidirectional a b t)) = m_badLinkLifetime t"
  by (simp_all add: AddRoute_def RoutingTable_Update_def DeleteRoute_def InvalidateRoutesWithDst_def
      DeleteAllRoutesFromInterface_def RoutingTable_Clear_def MarkLinkAsUnidirectional_def frame_simps Let_def
      split: option.split prod.split)

text \<open>The node after a lookup purged its table.\<close>

definition aged :: "time \<Rightarrow> node \<Rightarrow> node" where
  "aged now n = n\<lparr>m_routingTable := RoutingTable_Purge now (m_routingTable n)\<rparr>"

definition route_of :: "node \<Rightarrow> ipv4addr \<Rightarrow> RoutingTableEntry option" where
  "route_of n a = table_map (m_routingTable n) a"

lemma lookup_route_eq: "lookup_route now a n = (aged now n, route_of (aged now n) a)"
  by (simp add: lookup_route_def LookupRoute_pair aged_def route_of_def)

lemma lookup_valid_route_eq:
  "lookup_valid_route now a n = (aged now n, case route_of (aged now n) a of None \<Rightarrow> None
     | Some rt \<Rightarrow> if rt_flag rt = VALID then Some rt else None)"
  by (simp add: lookup_valid_route_def LookupValidRoute_pair aged_def route_of_def)

lemma aged_frame [simp]:
  "par (aged now n) = par n" "m_nb (aged now n) = m_nb n" "cluster (aged now n) = cluster n"
  "m_socketAddresses (aged now n) = m_socketAddresses n" "out (aged now n) = out n"
  "m_rerrCount (aged now n) = m_rerrCount n" "m_rqueue (aged now n) = m_rqueue n"
  "m_lo (aged now n) = m_lo n" "m_seqNo (aged now n) = m_seqNo n"
  by (simp_all add: aged_def)

lemma destinations_via_eq:
  "fst (destinations_via now a n) = aged now n"
  by (simp add: destinations_via_def GetListOfDestinationWithNextHop_def aged_def Let_def)

lemma count_commutes:
  "aged now (n\<lparr>m_rreqCount := c\<rparr>) = (aged now n)\<lparr>m_rreqCount := c\<rparr>"
  "update_route rt (n\<lparr>m_rreqCount := c\<rparr>) = (update_route rt n)\<lparr>m_rreqCount := c\<rparr>"
  "add_route now rt (n\<lparr>m_rreqCount := c\<rparr>) = (add_route now rt n)\<lparr>m_rreqCount := c\<rparr>"
  "route_of (n\<lparr>m_rreqCount := c\<rparr>) = route_of n"
  by (simp_all add: aged_def update_route_def add_route_def route_of_def fun_eq_iff)

lemma table_frame [simp]:
  "m_rreqCount (aged now n) = m_rreqCount n" "m_requestId (aged now n) = m_requestId n"
  "m_rreqCount (update_route rt n) = m_rreqCount n" "m_requestId (update_route rt n) = m_requestId n"
  "m_rreqCount (add_route now rt n) = m_rreqCount n" "m_requestId (add_route now rt n) = m_requestId n"
  "par (update_route rt n) = par n" "par (add_route now rt n) = par n"
  "m_seqNo (update_route rt n) = m_seqNo n" "m_seqNo (add_route now rt n) = m_seqNo n"
  "m_socketAddresses (update_route rt n) = m_socketAddresses n"
  "m_socketAddresses (add_route now rt n) = m_socketAddresses n"
  "m_nb (update_route rt n) = m_nb n" "m_nb (add_route now rt n) = m_nb n"
  "cluster (update_route rt n) = cluster n" "cluster (add_route now rt n) = cluster n"
  "out (update_route rt n) = out n" "out (add_route now rt n) = out n"
  "m_rerrCount (update_route rt n) = m_rerrCount n" "m_rerrCount (add_route now rt n) = m_rerrCount n"
  by (simp_all add: aged_def update_route_def add_route_def)

lemma Neighbors_wf_frame:
  assumes "Neighbors_wf nb"
  shows "Neighbors_wf (Neighbors_ScheduleTimer now nb)" "Neighbors_wf (Neighbors_SetMinHello k nb)"
    "Neighbors_wf (AddArpCache a nb)" "Neighbors_wf (DelArpCache a nb)"
  using assms by (simp_all add: Neighbors_wf_def Neighbors_ScheduleTimer_def Neighbors_SetMinHello_def
      AddArpCache_def DelArpCache_def)

section \<open>What a node sends\<close>

text \<open>
  A hello is always the constructor's, a RERR always lists at least one and at most 255 destinations,
  each once; a RREQ, a RREP or an acknowledgement may be any.
\<close>

fun message_ok :: "message \<Rightarrow> bool" where
  "message_ok (Hello h) = (\<exists>k status ind origin bn f weight ts.
     h = HelloHeader_new k status ind origin bn f weight ts)"
| "message_ok (Rerr h) = (RerrHeader_wf h \<and> m_unreachableDstSeqNo h \<noteq> [])"
| "message_ok _ = True"

fun effect_ok :: "effect \<Rightarrow> bool" where
  "effect_ok (SendTo s m a) = message_ok m"
| "effect_ok _ = True"

lemma rerr_add_wf:
  assumes "rerr_add a k h = Some h'" "RerrHeader_wf h"
  shows "RerrHeader_wf h'" "m_unreachableDstSeqNo h' \<noteq> []"
proof -
  obtain b where b: "RerrHeader_AddUnDestination a k h = Some (b, h')"
    using assms(1) by (auto simp: rerr_add_def)
  show "RerrHeader_wf h'" by (rule RerrHeader_wf_Add [OF assms(2) b])
  have "map_insert a k m \<noteq> []" for m :: "(ipv4addr \<times> u32) list"
    using keys_map_insert [of a k m] by auto
  with b show "m_unreachableDstSeqNo h' \<noteq> []"
    by (auto simp: RerrHeader_AddUnDestination_def split: if_splits option.splits)
qed

lemma collect_wf:
  "collect_unreachable E now us h ps n = Some (h', ps', n') \<Longrightarrow> RerrHeader_wf h
   \<Longrightarrow> RerrHeader_wf h' \<and> (m_unreachableDstSeqNo h \<noteq> [] \<longrightarrow> m_unreachableDstSeqNo h' \<noteq> [])"
proof (induction us arbitrary: h ps n)
  case (Cons u us)
  then obtain h1 ps1 n1 where 1: "rerr_add (fst u) (snd u) h = Some h1"
    and 2: "collect_unreachable E now us h1 ps1 n1 = Some (h', ps', n')"
    by (auto simp: lookup_route_eq Let_def split: Option.bind_splits)
  from rerr_add_wf [OF 1 Cons.prems(2)] Cons.IH [OF 2] show ?case by blast
qed simp

lemma hello_ok [simp]: "message_ok (Hello (HelloHeader_new k status ind origin bn f weight ts))"
  by simp blast

declare message_ok.simps(1,2) [simp del]

text \<open>The three ways the code comes by a RERR: one destination, a collected list, a received one emptied.\<close>

lemma rerr_ok:
  "rerr_add a k RerrHeader_new = Some h \<Longrightarrow> message_ok (Rerr h)"
  "collect_unreachable E now us h ps n = Some (h', ps', n') \<Longrightarrow> rerr_add a k RerrHeader_new = Some h
   \<Longrightarrow> message_ok (Rerr h')"
  "collect_unreachable E now us (h\<lparr>m_unreachableDstSeqNo := []\<rparr>) ps n = Some (h', ps', n')
   \<Longrightarrow> RerrHeader_GetDestCount h' \<noteq> 0 \<Longrightarrow> message_ok (Rerr h')"
proof -
  show 1: "message_ok (Rerr h)" if "rerr_add a k RerrHeader_new = Some h" for h
    using rerr_add_wf [OF that RerrHeader_wf_new] by (simp add: message_ok.simps)
  show "message_ok (Rerr h')" if "collect_unreachable E now us h ps n = Some (h', ps', n')"
    "rerr_add a k RerrHeader_new = Some h"
    using collect_wf [OF that(1)] 1 [OF that(2)] by (simp add: message_ok.simps)
  have "RerrHeader_wf (h\<lparr>m_unreachableDstSeqNo := []\<rparr>)" by (simp add: RerrHeader_wf_def)
  with collect_wf show "message_ok (Rerr h')"
    if "collect_unreachable E now us (h\<lparr>m_unreachableDstSeqNo := []\<rparr>) ps n = Some (h', ps', n')"
      "RerrHeader_GetDestCount h' \<noteq> 0"
    using that by (auto simp: message_ok.simps RerrHeader_GetDestCount_def)
qed

section \<open>Relations every handler keeps\<close>

text \<open>
  A relation between an earlier and a later state of a node that survives a change of each field, as
  long as the new value keeps its own invariant: then every operation, handler and event of the code
  keeps it. \<open>timely\<close> restricts the times at which the caches may be used.
\<close>

named_theorems evolves \<open>an operation keeps the relation to an earlier state\<close>
named_theorems evolves_opt \<open>the same for operations that may fail\<close>

locale node_relation = evolution node_wf R
  for R :: "node \<Rightarrow> node \<Rightarrow> bool" +
  fixes timely :: "time \<Rightarrow> bool"
  assumes table: "R n0 n \<Longrightarrow> RoutingTable_wf t
      \<Longrightarrow> m_badLinkLifetime t = m_badLinkLifetime (m_routingTable n) \<Longrightarrow> R n0 (n\<lparr>m_routingTable := t\<rparr>)"
    and neighbors: "R n0 n \<Longrightarrow> Neighbors_wf nb \<Longrightarrow> R n0 (n\<lparr>m_nb := nb\<rparr>)"
    and packets: "R n0 n \<Longrightarrow> RequestQueue_wf q \<Longrightarrow> R n0 (n\<lparr>m_rqueue := q\<rparr>)"
    and sockets: "R n0 n \<Longrightarrow> map_ok s \<Longrightarrow> R n0 (n\<lparr>m_socketAddresses := s\<rparr>)"
    and request_timers: "R n0 n \<Longrightarrow> map_ok r \<Longrightarrow> R n0 (n\<lparr>m_addressReqTimer := r\<rparr>)"
    and effects: "R n0 n \<Longrightarrow> \<forall>e\<in>set es. effect_ok e \<Longrightarrow> R n0 (n\<lparr>out := out n @ es\<rparr>)"
    and request_cache: "R n0 n \<Longrightarrow> timely now
      \<Longrightarrow> R n0 (n\<lparr>m_rreqIdCache := snd (IdCache_IsDuplicate now addr ident (m_rreqIdCache n))\<rparr>)"
    and hello_cache: "R n0 n \<Longrightarrow> timely now
      \<Longrightarrow> R n0 (n\<lparr>m_helloIdCache := snd (IdCache_IsDuplicate now addr ident (m_helloIdCache n))\<rparr>)"
    and packet_cache: "R n0 n \<Longrightarrow> timely now
      \<Longrightarrow> R n0 (n\<lparr>m_dpd := snd (IdCache_IsDuplicate now addr ident (m_dpd n))\<rparr>)"
    and count: "R n0 n \<Longrightarrow> m_rreqCount n \<noteq> RreqRateLimit (par n)
      \<Longrightarrow> R n0 (n\<lparr>m_rreqCount := m_rreqCount n + 1, m_requestId := m_requestId n + 1\<rparr>)"
    and free_seqNo: "R n0 (n\<lparr>m_seqNo := v0\<rparr>) = R n0 n"
    and free_ipv4: "R n0 (n\<lparr>m_ipv4 := v1\<rparr>) = R n0 n"
    and free_lo: "R n0 (n\<lparr>m_lo := v2\<rparr>) = R n0 n"
    and free_rerrCount: "R n0 (n\<lparr>m_rerrCount := v3\<rparr>) = R n0 n"
    and free_cluster: "R n0 (n\<lparr>cluster := v4\<rparr>) = R n0 n"
    and free_messageSequenceNumber: "R n0 (n\<lparr>m_messageSequenceNumber := v5\<rparr>) = R n0 n"
    and free_htimer_delay: "R n0 (n\<lparr>m_htimer_delay := v6\<rparr>) = R n0 n"
    and free_htimer: "R n0 (n\<lparr>m_htimer := v7\<rparr>) = R n0 n"
    and free_ltimer_delay: "R n0 (n\<lparr>m_ltimer_delay := v8\<rparr>) = R n0 n"
    and free_ltimer: "R n0 (n\<lparr>m_ltimer := v9\<rparr>) = R n0 n"
    and free_rreqRateLimitTimer: "R n0 (n\<lparr>m_rreqRateLimitTimer := v10\<rparr>) = R n0 n"
    and free_rerrRateLimitTimer: "R n0 (n\<lparr>m_rerrRateLimitTimer := v11\<rparr>) = R n0 n"
    and free_scheduled: "R n0 (n\<lparr>scheduled := v12\<rparr>) = R n0 n"
    and free_interval: "R n0 (n\<lparr>par := (par n)\<lparr>HelloInterval := iv\<rparr>\<rparr>) = R n0 n"
begin

lemmas field = table neighbors packets sockets request_timers effects

lemmas R_frame [simp] = free_seqNo free_ipv4 free_lo free_rerrCount free_cluster free_messageSequenceNumber free_htimer_delay free_htimer free_ltimer_delay free_ltimer free_rreqRateLimitTimer free_rerrRateLimitTimer free_scheduled free_interval

lemmas R_wf = node_wf_parts [OF ok_after]

lemma R_small [evolves]:
  "R n0 n \<Longrightarrow> R n0 (aged now n)"
  "R n0 n \<Longrightarrow> effect_ok e \<Longrightarrow> R n0 (emit e n)"
  "R n0 n \<Longrightarrow> R n0 (schedule t c n)"
  "R n0 n \<Longrightarrow> message_ok m \<Longrightarrow> R n0 (send_all m n)"
  "R n0 n \<Longrightarrow> R n0 (update_route rt n)"
  "R n0 n \<Longrightarrow> R n0 (add_route now rt n)"
  "R n0 n \<Longrightarrow> R n0 (report_dropped es n)"
  "R n0 n \<Longrightarrow> R n0 (invalidate_routes now us n)"
  "R n0 n \<Longrightarrow> R n0 (start_hello_timer E now k n)"
  using R_wf [of n0 n]
  by (auto simp: aged_def emit_def schedule_def send_all_def update_route_def add_route_def report_dropped_def
      invalidate_routes_def start_hello_timer_def
      intro!: field RoutingTable_wf_Purge RoutingTable_wf_AddRoute RoutingTable_wf_Update RoutingTable_wf_more)

lemma R_send_on [evolves_opt]: "send_on iface m dst n = Some n' \<Longrightarrow> message_ok m \<Longrightarrow> R n0 n \<Longrightarrow> R n0 n'"
  by (auto simp: send_on_def split: option.splits intro: evolves)

lemma R_lifetime [evolves]: "R n0 n \<Longrightarrow> R n0 (snd (UpdateRouteLifeTime now a lt n))"
  by (auto simp: UpdateRouteLifeTime_def lookup_route_eq Let_def split: option.splits intro!: evolves)

lemma R_neighbor_route [evolves]: "R n0 n \<Longrightarrow> R n0 (UpdateRouteToNeighbor E now s r n)"
  by (auto simp: UpdateRouteToNeighbor_def lookup_route_eq Let_def split: option.splits intro!: evolves)

lemma R_precursor_ifaces [evolves]: "R n0 n \<Longrightarrow> R n0 (fst (precursor_ifaces now is ifaces n))"
  by (induction now "is" ifaces n rule: precursor_ifaces.induct)
    (auto simp: lookup_valid_route_eq R_small(1) split: option.splits if_splits)

lemma R_broadcast_rerr [evolves_opt]: "broadcast_rerr h is n = Some n' \<Longrightarrow> message_ok (Rerr h) \<Longrightarrow> R n0 n \<Longrightarrow> R n0 n'"
proof (induction "is" arbitrary: n)
  case (Cons i "is")
  then obtain n1 where 1: "send_on i (Rerr h) (broadcast_of i) n = Some n1"
    and 2: "broadcast_rerr h is (n1\<lparr>m_rerrCount := m_rerrCount n1 + 1\<rparr>) = Some n'"
    by (auto split: Option.bind_splits)
  from Cons.IH [OF 2 Cons.prems(2)] R_send_on [OF 1 Cons.prems(2,3)] show ?case by simp
qed simp

lemma R_SendRerrMessage [evolves_opt]:
  "SendRerrMessage now h ps n = Some n' \<Longrightarrow> message_ok (Rerr h) \<Longrightarrow> R n0 n \<Longrightarrow> R n0 n'"
  using R_precursor_ifaces [of n0 n now ps "[]"]
  by (auto simp: SendRerrMessage_def lookup_valid_route_eq
      split: Option.bind_splits option.splits if_splits prod.splits intro!: evolves elim!: evolves_opt)

lemma R_collect [evolves_opt]:
  "collect_unreachable E now us h ps n = Some (h', ps', n') \<Longrightarrow> R n0 n \<Longrightarrow> R n0 n'"
proof (induction us arbitrary: h ps n)
  case (Cons u us)
  then obtain h1 ps1 where "collect_unreachable E now us h1 ps1 (aged now n) = Some (h', ps', n')"
    by (auto simp: lookup_route_eq Let_def split: Option.bind_splits)
  from Cons.IH [OF this] Cons.prems show ?case by (simp add: evolves)
qed simp

lemma R_SendRerrWhenBreaks [evolves_opt]:
  assumes "SendRerrWhenBreaksLinkToNextHop E now a n = Some n'" "R n0 n"
  shows "R n0 n'"
proof -
  obtain us where d: "destinations_via now a (aged now n) = (aged now (aged now n), us)"
    by (metis destinations_via_eq prod.collapse)
  show ?thesis
    using assms
    by (auto simp: SendRerrWhenBreaksLinkToNextHop_def lookup_route_eq d Let_def
        split: Option.bind_splits option.splits if_splits intro: rerr_ok intro!: evolves elim!: evolves_opt)
qed

lemma R_SendRerrNoRoute [evolves_opt]:
  "SendRerrWhenNoRouteToForward E now d s a n = Some n' \<Longrightarrow> R n0 n \<Longrightarrow> R n0 n'"
  by (auto simp: SendRerrWhenNoRouteToForward_def lookup_valid_route_eq
      split: Option.bind_splits option.splits if_splits intro: rerr_ok intro!: evolves elim!: evolves_opt)

lemma R_link_failures [evolves_opt]: "link_failures E now as n = Some n' \<Longrightarrow> R n0 n \<Longrightarrow> R n0 n'"
proof (induction "as" arbitrary: n)
  case (Cons a "as")
  then obtain n1 where 1: "SendRerrWhenBreaksLinkToNextHop E now a n = Some n1"
    and 2: "link_failures E now as n1 = Some n'"
    by (auto split: Option.bind_splits)
  from Cons.IH [OF 2] R_SendRerrWhenBreaks [OF 1 Cons.prems(2)] show ?case by simp
qed simp

lemma R_nb_update [evolves_opt]: "nb_update E now a t n = Some n' \<Longrightarrow> R n0 n \<Longrightarrow> R n0 n'"
  using Update_wf [of "m_nb n" "lib E" "arp E" now a t]
  by (auto simp: nb_update_def split: prod.splits intro!: field elim!: evolves_opt dest: R_wf)

lemma R_nb_is_neighbor [evolves_opt]:
  "nb_is_neighbor E now a n = Some (b, n') \<Longrightarrow> R n0 n \<Longrightarrow> R n0 n'"
  using Purge_wf [of "m_nb n" now]
  by (auto simp: nb_is_neighbor_def Neighbors_IsNeighbor_def split: prod.splits
      intro!: field elim!: evolves_opt dest: R_wf)

lemma R_nb_timer [evolves_opt]: "nb_timer_expire E now n = Some n' \<Longrightarrow> R n0 n \<Longrightarrow> R n0 n'"
  using Purge_wf [of "m_nb n" now]
  by (auto simp: nb_timer_expire_def split: prod.splits intro!: field elim!: evolves_opt dest: R_wf)

lemma R_tx_error [evolves_opt]: "tx_error E now mac n = Some n' \<Longrightarrow> R n0 n \<Longrightarrow> R n0 n'"
  using TxError_wf [of "m_nb n" now mac]
  by (auto simp: tx_error_def split: prod.splits intro!: field elim!: evolves_opt dest: R_wf)

lemma R_send_from_queue [evolves]: "R n0 n \<Longrightarrow> R n0 (send_from_queue k E now dst route n)"
proof (induction k arbitrary: n)
  case (Suc k)
  obtain r q d where q: "RequestQueue_Dequeue now dst (m_rqueue n) = (r, q, d)" by (cases rule: prod_cases3)
  then have "RequestQueue_wf q"
    using Dequeue_wf [of "m_rqueue n" now dst] R_wf(3) [OF Suc.prems] by simp
  then have "R n0 (report_dropped d (n\<lparr>m_rqueue := q\<rparr>))"
    using Suc.prems by (intro R_small field)
  with Suc.IH show ?case by (simp add: q Let_def R_small split: option.split)
qed simp

lemma R_queue [evolves]:
  "R n0 n \<Longrightarrow> R n0 (SendPacketFromQueue E now dst route n)"
  "R n0 n \<Longrightarrow> R n0 (drop_packets_with_dst now dst n)"
  using DropPacketWithDst_wf [of "m_rqueue n" now dst]
  by (auto simp: SendPacketFromQueue_def drop_packets_with_dst_def split: prod.split
      simp del: send_from_queue.simps intro!: evolves field dest: R_wf)

lemma R_send_rreqs [evolves]: "timely now \<Longrightarrow> R n0 n \<Longrightarrow> R n0 (send_rreqs now js h n)"
  by (induction js arbitrary: h n) (simp_all add: Let_def R_small request_cache)

lemma R_retry [evolves]: "R n0 n \<Longrightarrow> R n0 (ScheduleRreqRetry E now dst n)"
  by (auto simp: ScheduleRreqRetry_def lookup_route_eq Let_def
      intro!: field evolves map_ok_assign R_wf(8) [of n0])

lemma R_SendRequest [evolves]:
  assumes now: "timely now" and n: "R n0 n"
  shows "R n0 (SendRequest E now dst n)"
proof -
  define pre where "pre = (case route_of (aged now n) dst of
      Some rt \<Rightarrow> update_route (rt\<lparr>rt_flag := IN_SEARCH\<rparr>) (aged now n)
    | None \<Rightarrow> add_route now ((RoutingTableEntry_new now 0 dst False 0 (Ipv4InterfaceAddress_default (lib E))
                 0 (Ipv4Address_default (lib E)) 0)\<lparr>rt_flag := IN_SEARCH\<rparr>) (aged now n))"
  have pre: "R n0 pre" "m_rreqCount pre = m_rreqCount n" "par pre = par n" "m_requestId pre = m_requestId n"
    using n by (auto simp: pre_def split: option.splits intro!: evolves)
  show ?thesis
  proof (cases "m_rreqCount n = RreqRateLimit (par n)")
    case True
    with n show ?thesis by (simp add: SendRequest_def R_small)
  next
    case False
    define m where "m = pre\<lparr>m_rreqCount := m_rreqCount pre + 1, m_requestId := m_requestId pre + 1\<rparr>"
    have "R n0 m" unfolding m_def by (rule count) (use pre False in simp_all)
    have "\<exists>h s. SendRequest E now dst n = start_hello_timer E now 1 (ScheduleRreqRetry E now dst
        (send_rreqs now (m_socketAddresses n) h
          (pre\<lparr>m_rreqCount := m_rreqCount n + 1, m_seqNo := s, m_requestId := m_requestId n + 1\<rparr>)))"
      using False by (cases "route_of (aged now n) dst")
        (simp_all add: SendRequest_def lookup_route_eq count_commutes Let_def pre_def, blast+)
    moreover have "pre\<lparr>m_rreqCount := m_rreqCount n + 1, m_seqNo := s, m_requestId := m_requestId n + 1\<rparr>
        = m\<lparr>m_seqNo := s\<rparr>" for s
      by (simp add: m_def pre)
    ultimately show ?thesis using \<open>R n0 m\<close> now by (auto simp: evolves)
  qed
qed

subsection \<open>The handlers\<close>

lemma R_SendReply [evolves_opt]: "SendReply E h rt n = Some n' \<Longrightarrow> R n0 n \<Longrightarrow> R n0 n'"
  by (auto simp: SendReply_def Let_def split: if_splits elim!: evolves_opt)

lemma R_intermediate [evolves_opt]:
  "SendReplyByIntermediateNode E now a b g n = Some n' \<Longrightarrow> R n0 n \<Longrightarrow> R n0 n'"
  by (auto simp: SendReplyByIntermediateNode_def lookup_route_eq Let_def
      split: if_splits Option.bind_splits intro!: evolves elim!: evolves_opt)

lemma R_ack [evolves_opt]: "SendReplyAck E now a n = Some n' \<Longrightarrow> R n0 n \<Longrightarrow> R n0 n'"
  by (auto simp: SendReplyAck_def lookup_route_eq Let_def intro!: evolves elim!: evolves_opt)

lemma R_reverse [evolves]: "R n0 n \<Longrightarrow> R n0 (fst (reverse_route E now h r s n))"
  by (auto simp: reverse_route_def lookup_route_eq Let_def split: option.splits intro!: evolves)

lemma R_rebroadcast [evolves_opt]: "rebroadcast E now h js n = Some n' \<Longrightarrow> R n0 n \<Longrightarrow> R n0 n'"
proof (induction js arbitrary: n)
  case (Cons j js)
  show ?case
  proof (cases "m_localNodeStatus (cluster n) \<noteq> NEIGH_NODE")
    case True
    with Cons.prems show ?thesis by simp
  next
    case False
    with Cons.prems(1) obtain b n1 where 1: "nb_is_neighbor E now (rreq_origin h) n = Some (b, n1)"
      by (auto split: Option.bind_splits)
    from R_nb_is_neighbor [OF 1 Cons.prems(2)] have "R n0 n1" .
    with Cons.prems(1) False 1 Cons.IH show ?thesis
      by (auto simp: R_small split: Option.bind_splits if_splits)
  qed
qed simp

lemma R_forward_request [evolves_opt]: "forward_request E now h n = Some n' \<Longrightarrow> R n0 n \<Longrightarrow> R n0 n'"
  by (auto simp: forward_request_def intro!: evolves elim!: evolves_opt)

lemma R_reply_with_route [evolves_opt]:
  "reply_with_route E now h s a b n = Some n' \<Longrightarrow> R n0 n \<Longrightarrow> R n0 n'"
  by (auto simp: reply_with_route_def Let_def split: if_splits Option.bind_splits elim!: evolves_opt)

lemma R_answer_request [evolves_opt]:
  assumes "answer_request E now h r s n = Some n'" "R n0 n"
  shows "R n0 n'"
proof -
  let ?h = "h\<lparr>rreq_hopCount := rreq_hopCount h + 1\<rparr>"
  obtain m old where rev: "reverse_route E now ?h r s n = (m, old)" by fastforce
  with R_reverse [OF assms(2), of E now ?h r s] have m: "R n0 m" by simp
  show ?thesis
    using assms m unfolding answer_request_def lookup_route_eq Let_def prod.case rev
    by (auto split: if_splits option.splits intro!: evolves elim!: evolves_opt)
qed

lemma R_handle_request [evolves_opt]:
  assumes "handle_request E now h r s n = Some n'" "timely now" "R n0 n"
  shows "R n0 n'"
proof -
  let ?dup = "IdCache_IsDuplicate now (rreq_origin h) (rreq_requestID h) (m_rreqIdCache (aged now n))"
  obtain d c where dc: "?dup = (d, c)" by fastforce
  with request_cache [where addr = "rreq_origin h" and ident = "rreq_requestID h",
      OF R_small(1) [where now = now, OF assms(3)] assms(2)]
  have "R n0 ((aged now n)\<lparr>m_rreqIdCache := c\<rparr>)" by simp
  then show ?thesis
    using assms unfolding handle_request_def lookup_route_eq Let_def prod.case dc
    by (auto split: if_splits option.splits intro!: evolves elim!: evolves_opt)
qed

lemma R_install [evolves]: "R n0 n \<Longrightarrow> R n0 (fst (install_reply now e h n))"
  by (auto simp: install_reply_def lookup_route_eq split: option.splits intro!: evolves)

lemma R_precursor [evolves]: "R n0 n \<Longrightarrow> R n0 (add_precursor E now a p n)"
  by (auto simp: add_precursor_def lookup_route_eq intro!: evolves)

lemma R_forward_reply [evolves_opt]: "forward_reply E now h n = Some n' \<Longrightarrow> R n0 n \<Longrightarrow> R n0 n'"
  by (auto simp: forward_reply_def lookup_route_eq lookup_valid_route_eq Let_def
      split: option.splits if_splits intro!: evolves elim!: evolves_opt)

lemma R_erase_timer:
  "R n0 n \<Longrightarrow> R n0 m \<Longrightarrow> R n0 (n\<lparr>m_addressReqTimer := map_erase d (m_addressReqTimer m)\<rparr>)"
  by (simp add: field map_ok_erase R_wf(8))

lemma R_handle_reply [evolves_opt]:
  "handle_reply E now h r s n = Some n' \<Longrightarrow> R n0 n \<Longrightarrow> R n0 n'"
  by (auto simp: handle_reply_def lookup_route_eq Let_def prod.case_eq_if
      split: option.splits if_splits Option.bind_splits
      intro!: evolves R_erase_timer elim!: evolves_opt)

lemma R_RecvReplyAck [evolves]: "R n0 n \<Longrightarrow> R n0 (RecvReplyAck now a n)"
  by (auto simp: RecvReplyAck_def lookup_route_eq split: option.splits intro!: evolves)

lemma R_hello_route [evolves]: "R n0 n \<Longrightarrow> R n0 (hello_route E now h r n)"
  by (auto simp: hello_route_def lookup_route_eq Let_def split: option.splits intro!: evolves)

lemma R_handle_hello [evolves_opt]:
  assumes "handle_hello E now h r s n = Some n'" "timely now" "R n0 n"
  shows "R n0 n'"
proof -
  obtain d c where dc: "IdCache_IsDuplicate now (m_nodeIdentifier h) (ucast (m_helloSequenceNumber h))
      (m_helloIdCache n) = (d, c)" by fastforce
  then have "R n0 (n\<lparr>m_helloIdCache := c\<rparr>)"
    using hello_cache [where addr = "m_nodeIdentifier h" and ident = "ucast (m_helloSequenceNumber h)",
        OF assms(3,2)] by simp
  then show ?thesis
    using assms(1) UpdateNeighborTuple_wf [OF R_wf(2) [OF assms(3)]] unfolding handle_hello_def Let_def dc
    by (auto split: if_splits Option.bind_splits intro!: evolves field
        elim!: evolves_opt UpdateMulticast_wf [rotated])
qed

lemma R_handle_error [evolves_opt]:
  assumes "handle_error E now h s n = Some n'" "R n0 n"
  shows "R n0 n'"
proof -
  obtain us where d: "destinations_via now s n = (aged now n, us)"
    by (metis destinations_via_eq prod.collapse)
  show ?thesis
    using assms
    by (auto simp: handle_error_def d Let_def split: Option.bind_splits if_splits
        intro: rerr_ok intro!: evolves elim!: evolves_opt)
qed

lemma R_RecvAodv [evolves_opt]:
  assumes "RecvAodv E now sk s p n = Some n'" "timely now" "R n0 n"
  shows "R n0 n'"
proof -
  have "R n0 (n\<lparr>m_socketAddresses := map_insert sk i (m_socketAddresses n)\<rparr>)" for i
    using assms(3) by (intro field map_ok_insert R_wf(7))
  then show ?thesis
    using assms(1,2)
    by (auto simp: RecvAodv_def RecvHello_def RecvRequest_def RecvReply_def RecvError_def Let_def
        split: Option.bind_splits if_splits MessageType.splits intro!: evolves elim!: evolves_opt)
qed

lemma R_stop_search [evolves]: "R n0 n \<Longrightarrow> R n0 (stop_search now dst n)"
  using R_wf [of n0 n]
  by (auto simp: stop_search_def Let_def intro!: evolves field map_ok_erase RoutingTable_wf_more)

lemma R_request_timer [evolves]: "timely now \<Longrightarrow> R n0 n \<Longrightarrow> R n0 (RouteRequestTimerExpire E now dst n)"
  by (auto simp: RouteRequestTimerExpire_def lookup_route_eq Let_def split: option.splits intro!: evolves)

lemma R_send_hellos [evolves]: "R n0 n \<Longrightarrow> R n0 (send_hellos js n)"
  by (induction js arbitrary: n) (simp_all add: Let_def R_small)

lemma R_ShortTimer [evolves]: "R n0 n \<Longrightarrow> R n0 (ShortTimerExpire now n)"
  by (simp add: ShortTimerExpire_def SendHello_def Let_def R_send_hellos)

lemma R_LongTimer [evolves_opt]:
  assumes "LongTimerExpire E now n = Some n'" "R n0 n"
  shows "R n0 n'"
proof -
  obtain b st nb fl where r: "clustering_round now (IsMyOwnAddress n) (cluster n) (m_nb n) = Some (b, st, nb, fl)"
      "Neighbors_wf nb"
    using clustering_round_ok [OF R_wf(2) [OF assms(2)], of now "IsMyOwnAddress n" "cluster n"] by blast
  have "R n0 (n\<lparr>cluster := st, m_nb := nb\<rparr>)"
    using assms(2) r(2) by (intro field) simp_all
  then show ?thesis
    using assms(1) r(1) by (auto simp: LongTimerExpire_def Let_def split: Option.bind_splits
        intro!: evolves elim!: evolves_opt)
qed

lemma R_rerr_timer [evolves]: "R n0 n \<Longrightarrow> R n0 (RerrRateLimitTimerExpire E now n)"
  by (simp add: RerrRateLimitTimerExpire_def)

lemma R_ack_timer [evolves]: "R n0 n \<Longrightarrow> R n0 (AckTimerExpire a t n)"
  by (simp add: AckTimerExpire_def field RoutingTable_wf_more R_wf)

subsection \<open>Data packets and notifications\<close>

lemma R_RouteOutput [evolves_opt]:
  "RouteOutput E now p h oif n = Some (r, n') \<Longrightarrow> R n0 n \<Longrightarrow> R n0 n'"
  by (auto simp: RouteOutput_def lookup_valid_route_eq Let_def prod.case_eq_if
      split: option.splits if_splits Option.bind_splits intro!: evolves)

lemma R_Deferred [evolves_opt]:
  assumes "DeferredRouteOutput E now p h u e n = Some n'" "timely now" "R n0 n"
  shows "R n0 n'"
proof -
  obtain b q d where q: "RequestQueue_Enqueue now (QueueEntry_new now p h u e now) (m_rqueue n) = Some (b, q, d)"
      "RequestQueue_wf q"
    using Enqueue_wf [OF R_wf(3) [OF assms(3)]] by blast
  then have "R n0 (report_dropped d (n\<lparr>m_rqueue := q\<rparr>))"
    using assms(3) by (intro R_small field)
  then show ?thesis
    using assms(1,2) q(1) by (auto simp: DeferredRouteOutput_def lookup_route_eq Let_def
        split: if_splits option.splits intro!: evolves)
qed

lemma R_Forwarding [evolves_opt]:
  assumes "Forwarding E now p h u e n = Some (b, n')" "R n0 n"
  shows "R n0 n'"
  using assms unfolding Forwarding_def aged_def [symmetric]
  by (auto simp: lookup_route_eq Let_def prod.case_eq_if
      split: option.splits if_splits Option.bind_splits intro!: evolves elim!: evolves_opt)

lemma R_deliver [evolves]: "R n0 n \<Longrightarrow> R n0 (deliver l e p h i n)"
  by (auto simp: deliver_def intro!: evolves)

lemma R_broadcast [evolves]:
  assumes "timely now" "R n0 n"
  shows "R n0 (broadcast_input E now p h i u l e n)"
proof -
  obtain d c where dc: "Dpd_IsDuplicate now p h (m_dpd n) = (d, c)" by fastforce
  then have "R n0 (n\<lparr>m_dpd := c\<rparr>)"
    using packet_cache [where addr = "GetSource h" and ident = "ucast (GetUid p)", OF assms(2,1)]
    by (simp add: Dpd_IsDuplicate_def)
  then show ?thesis
    by (auto simp: broadcast_input_def dc lookup_route_eq Let_def prod.case_eq_if
        split: option.splits intro!: evolves)
qed

lemma R_RouteInput [evolves_opt]:
  assumes "RouteInput E now p h idev u l e n = Some (b, n')" "timely now" "R n0 n"
  shows "R n0 n'"
  using assms
  by (auto simp: RouteInput_def lookup_valid_route_eq Let_def prod.case_eq_if
      split: option.splits if_splits Option.bind_splits intro!: evolves elim!: evolves_opt)

lemma R_Start [evolves]:
  assumes "R n0 n"
  shows "R n0 (Start E now n)"
proof -
  define m where "m = (if EnableHello (par n) then n\<lparr>m_nb := Neighbors_ScheduleTimer now (m_nb n)\<rparr> else n)"
  have m: "R n0 m" using assms by (simp add: m_def neighbors Neighbors_wf_frame R_wf)
  define k where "k = m\<lparr>m_rreqRateLimitTimer := Some (now + Seconds (lib E) 1),
    m_rerrRateLimitTimer := Some (now + Seconds (lib E) 1), m_messageSequenceNumber := word_of_int (draw E 99 91199),
    m_nb := Neighbors_SetMinHello (AllowedHelloLoss (par m)) (m_nb m)\<rparr>"
  have k: "R n0 k" using m by (simp add: k_def neighbors Neighbors_wf_frame R_wf)
  have "Start E now n = (let l = k\<lparr>par := (par k)\<lparr>HelloInterval := ShortInterval (par k)\<rparr>\<rparr>
      in if m_localWeight (cluster l) = 0
         then l\<lparr>cluster := (cluster l)\<lparr>m_localWeight := word_of_int (draw E 1 100)\<rparr>\<rparr> else l)"
    by (simp add: Start_def m_def k_def Let_def)
  with k show ?thesis by (simp add: Let_def)
qed

lemma R_SetIpv4 [evolves_opt]: "SetIpv4 E now n = Some n' \<Longrightarrow> R n0 n \<Longrightarrow> R n0 n'"
  by (auto simp: SetIpv4_def Let_def schedule_def split: if_splits intro!: evolves)

lemma R_open_socket [evolves_opt]: "open_socket E i n = Some n' \<Longrightarrow> R n0 n \<Longrightarrow> R n0 n'"
  by (auto simp: open_socket_def split: if_splits intro!: field map_ok_insert R_wf(7) [of n0])

lemma R_broadcast_route [evolves]: "R n0 n \<Longrightarrow> R n0 (broadcast_route E now i n)"
  by (simp add: broadcast_route_def R_small)

lemma R_no_interfaces [evolves]: "R n0 n \<Longrightarrow> R n0 (no_interfaces n)"
  using R_wf [of n0 n] by (simp add: no_interfaces_def field Clear_wf RoutingTable_wf_more)

lemma R_arp:
  "R n0 n \<Longrightarrow> R n0 (n\<lparr>m_nb := AddArpCache a (m_nb n)\<rparr>)"
  "R n0 n \<Longrightarrow> R n0 (n\<lparr>m_nb := DelArpCache a (m_nb n)\<rparr>)"
  by (simp_all add: field Neighbors_wf_frame R_wf)

lemma R_InterfaceUp [evolves_opt]: "NotifyInterfaceUp E now i n = Some n' \<Longrightarrow> R n0 n \<Longrightarrow> R n0 n'"
  by (auto simp: NotifyInterfaceUp_def Let_def split: if_splits Option.bind_splits
      intro!: evolves R_arp elim!: evolves_opt)

lemma R_drop_socket:
  "R n0 n \<Longrightarrow> R n0 (n\<lparr>m_socketAddresses := map_erase s (m_socketAddresses n)\<rparr>)"
  by (simp add: field map_ok_erase R_wf(7))

lemma R_drop_routes:
  "R n0 n \<Longrightarrow> R n0 (n\<lparr>m_routingTable := DeleteAllRoutesFromInterface i (m_routingTable n)\<rparr>)"
  by (simp add: field RoutingTable_wf_more R_wf(1))

lemma R_InterfaceDown [evolves_opt]:
  assumes "NotifyInterfaceDown E i n = Some n'" "R n0 n"
  shows "R n0 n'"
proof -
  define m where "m = (if has_adhoc_mac E (GetNetDevice E i)
    then n\<lparr>m_nb := DelArpCache (GetArpCache E i) (m_nb n)\<rparr> else n)"
  have "R n0 m" using assms(2) by (simp add: m_def R_arp)
  obtain s where s: "FindSocketWithInterfaceAddress (GetAddress E i) m = Some s"
    using assms(1) unfolding NotifyInterfaceDown_def m_def [symmetric] Let_def
    by (auto split: Option.bind_splits)
  define m2 where "m2 = emit (CloseSocket s) m\<lparr>m_socketAddresses :=
    map_erase s (m_socketAddresses (emit (CloseSocket s) m))\<rparr>"
  have "R n0 m2"
    unfolding m2_def by (intro R_drop_socket R_small) (fact, simp)
  with assms(1) s show ?thesis
    unfolding NotifyInterfaceDown_def m_def [symmetric] Let_def s bind.bind_lunit
    unfolding m2_def [symmetric]
    by (auto split: if_splits intro!: evolves R_drop_routes)
qed

lemma R_AddAddress [evolves_opt]: "NotifyAddAddress E now i n = Some n' \<Longrightarrow> R n0 n \<Longrightarrow> R n0 n'"
  by (auto simp: NotifyAddAddress_def Let_def split: if_splits intro!: evolves elim!: evolves_opt)

lemma R_RemoveAddress [evolves_opt]:
  assumes "NotifyRemoveAddress E now i a n = Some n'" "R n0 n"
  shows "R n0 n'"
proof (cases "FindSocketWithInterfaceAddress a n")
  case None
  with assms show ?thesis by (simp add: NotifyRemoveAddress_def)
next
  case (Some s)
  define m1 where "m1 = n\<lparr>m_routingTable := DeleteAllRoutesFromInterface a (m_routingTable n)\<rparr>"
  define m2 where "m2 = m1\<lparr>m_socketAddresses := map_erase s (m_socketAddresses m1)\<rparr>"
  have "R n0 m2"
    unfolding m2_def by (rule R_drop_socket) (simp add: m1_def R_drop_routes assms(2))
  with assms(1) show ?thesis
    unfolding NotifyRemoveAddress_def Some option.case Let_def
    unfolding m1_def [symmetric] unfolding m2_def [symmetric]
    by (auto split: if_splits Option.bind_splits intro!: evolves elim!: evolves_opt)
qed

lemma R_Dispose [evolves_opt]:
  assumes "DoDispose E now n = Some n'" "R n0 n"
  shows "R n0 n'"
proof -
  have 1: "R n0 ((n\<lparr>m_ipv4 := False\<rparr>)\<lparr>out := out (n\<lparr>m_ipv4 := False\<rparr>) @ map (\<lambda>i. CloseSocket (fst i)) js\<rparr>)"
    for js :: "(socket \<times> Ipv4InterfaceAddress) list"
    using assms(2) by (intro field) simp_all
  show ?thesis
    using assms(1) R_nb_timer [OF _ 1]
    by (auto simp: DoDispose_def Let_def split: Option.bind_splits intro!: field)
qed

subsection \<open>Events\<close>

lemma R_run_call [evolves_opt]: "run_call E now c n = Some n' \<Longrightarrow> timely now \<Longrightarrow> R n0 n \<Longrightarrow> R n0 n'"
  by (cases c) (auto intro: evolves elim!: evolves_opt)

lemma step:
  assumes "node_step E now e n n'" "timely now" "node_wf n" "e \<noteq> RreqLimitTimer"
  shows "R n n'"
  using assms refl [of n]
  by (induction rule: node_step.induct)
    (auto intro!: evolves R_erase_timer elim!: evolves_opt)

end

end
