(* ===== verification/Protocol.thy ===== *)
theory Protocol
  imports Evolution
begin

text \<open>
  Three relations between an earlier and a later state of a node: \<open>grows\<close> (the request counter and
  number move together), \<open>remembers\<close> (what a cache knows it keeps knowing) and \<open>rerr_only\<close> (nothing
  but route errors is sent). The first two are kept by every event.
\<close>

lemma node_wf_asked:
  assumes "node_wf n"
  shows "node_wf (n\<lparr>m_rreqIdCache := snd (IdCache_IsDuplicate now a i (m_rreqIdCache n))\<rparr>)"
    and "node_wf (n\<lparr>m_helloIdCache := snd (IdCache_IsDuplicate now a i (m_helloIdCache n))\<rparr>)"
    and "node_wf (n\<lparr>m_dpd := snd (IdCache_IsDuplicate now a i (m_dpd n))\<rparr>)"
  using assms by (auto intro!: node_wf_field IsDuplicate_abs(3) node_wf_parts)

section \<open>The request counter and the request number\<close>

text \<open>
  The request counter and the request number only move together, the limit stays, and effects are
  only appended, sound ones.
\<close>

definition grows :: "node \<Rightarrow> node \<Rightarrow> bool" where
  "grows n0 n \<longleftrightarrow> node_wf n \<and> RreqRateLimit (par n) = RreqRateLimit (par n0)
     \<and> (\<exists>k. m_requestId n = m_requestId n0 + of_nat k \<and> unat (m_rreqCount n) = unat (m_rreqCount n0) + k)
     \<and> (\<exists>es. out n = out n0 @ es \<and> (\<forall>e\<in>set es. effect_ok e))"

lemma grows_change:
  assumes "grows n0 n" "node_wf n'" "par n' = par n" "m_requestId n' = m_requestId n"
    "m_rreqCount n' = m_rreqCount n" "out n' = out n"
  shows "grows n0 n'"
  using assms by (simp add: grows_def)

lemma grows_count:
  assumes "grows n0 n" "m_rreqCount n \<noteq> RreqRateLimit (par n)"
  shows "grows n0 (n\<lparr>m_rreqCount := m_rreqCount n + 1, m_requestId := m_requestId n + 1\<rparr>)"
proof -
  obtain k where "m_requestId n = m_requestId n0 + of_nat k" "unat (m_rreqCount n) = unat (m_rreqCount n0) + k"
    and wf: "node_wf n"
    using assms(1) by (auto simp: grows_def)
  with assms(1) count_below [OF wf assms(2)] show ?thesis
    by (auto simp: grows_def intro!: exI [of _ "Suc k"])
qed

interpretation growth: node_relation grows "\<lambda>_. True"
proof
  show "grows s s" if "node_wf s" for s
    using that by (auto simp: grows_def intro!: exI [of _ "0::nat"])
  show "grows a c" if ab: "grows a b" and bc: "grows b c" for a b c
  proof -
    obtain k where k: "m_requestId b = m_requestId a + of_nat k" "unat (m_rreqCount b) = unat (m_rreqCount a) + k"
      using ab by (auto simp: grows_def)
    obtain l where l: "m_requestId c = m_requestId b + of_nat l" "unat (m_rreqCount c) = unat (m_rreqCount b) + l"
      using bc by (auto simp: grows_def)
    have "m_requestId c = m_requestId a + of_nat (k + l) \<and> unat (m_rreqCount c) = unat (m_rreqCount a) + (k + l)"
      using k l by simp
    moreover have "\<exists>es. out c = out a @ es \<and> (\<forall>e\<in>set es. effect_ok e)"
    proof -
      obtain es fs where "out b = out a @ es" "\<forall>e\<in>set es. effect_ok e" "out c = out b @ fs" "\<forall>e\<in>set fs. effect_ok e"
        using ab bc by (auto simp: grows_def)
      then show ?thesis by (intro exI [of _ "es @ fs"]) auto
    qed
    ultimately show ?thesis using ab bc by (auto simp: grows_def)
  qed
  show "node_wf b" if "grows a b" for a b using that by (simp add: grows_def)
  show "grows n0 (n\<lparr>m_rreqCount := m_rreqCount n + 1, m_requestId := m_requestId n + 1\<rparr>)"
    if "grows n0 n" "m_rreqCount n \<noteq> RreqRateLimit (par n)" for n0 n
    using that by (rule grows_count)
qed (auto simp: node_wf_field node_wf_asked grows_def)

text \<open>Every event only appends effects, and everything it sends is sound.\<close>

lemma step_effects:
  assumes "node_step E now e n n'" "node_wf n"
  shows "\<exists>es. out n' = out n @ es \<and> (\<forall>e\<in>set es. effect_ok e)"
proof (cases "e = RreqLimitTimer")
  case True
  with assms show ?thesis by (auto elim!: limit_timer_step simp: RreqRateLimitTimerExpire_def)
next
  case False
  with growth.step [OF assms(1) _ assms(2)] show ?thesis by (simp add: grows_def)
qed

lemma limit_timer_wf: "node_step E now RreqLimitTimer n n' \<Longrightarrow> node_wf n \<Longrightarrow> node_wf n'"
  by (auto elim!: limit_timer_step simp: RreqRateLimitTimerExpire_def node_wf_def)

lemma step_wf: "node_step E now e n n' \<Longrightarrow> node_wf n \<Longrightarrow> node_wf n'"
  by (cases "e = RreqLimitTimer") (auto intro: limit_timer_wf dest: growth.step growth.ok_after)

lemma start_wf: "0 < MaxQueueLen p \<Longrightarrow> 0 \<le> Seconds L 3 \<Longrightarrow> node_wf (configure p status f weight rule1 rule2 (node_new L))"
  by (simp add: node_wf_def configure_def node_new_def params_default_def Let_def SetMaxQueueLen_def
      SetMaxQueueTime_def RequestQueue_SetMaxQueueLen_def RequestQueue_SetQueueTimeout_def
      RequestQueue_new_def RequestQueue_wf_def RoutingTable_wf_def RoutingTable_new_def Neighbors_wf_def
      Neighbors_new_def Neighbors_SetCallback_def IdCache_wf_def IdCache_new_def)

lemma reachable_node_wf:
  "reachable L p t n \<Longrightarrow> 0 < MaxQueueLen p \<Longrightarrow> 0 \<le> Seconds L 3 \<Longrightarrow> node_wf n"
  by (induction rule: reachable.induct) (auto intro: start_wf step_wf)

section \<open>What the caches know\<close>

text \<open>What the caches know until \<open>T\<close> or longer they still know after whatever happens up to \<open>T\<close>.\<close>

definition keeps :: "time \<Rightarrow> IdCache \<Rightarrow> IdCache \<Rightarrow> bool" where
  "keeps T c0 c \<longleftrightarrow> (\<forall>k e. T \<le> e \<longrightarrow> known c0 k = Some e \<longrightarrow> known c k = Some e)"

lemma keeps_refl [simp]: "keeps T c c"
  by (simp add: keeps_def)

lemma keeps_trans: "keeps T a b \<Longrightarrow> keeps T b c \<Longrightarrow> keeps T a c"
  by (simp add: keeps_def)

lemma keeps_asked:
  "keeps T c0 c \<Longrightarrow> IdCache_wf c \<Longrightarrow> now \<le> T \<Longrightarrow> keeps T c0 (snd (IdCache_IsDuplicate now a i c))"
  by (auto simp: keeps_def IsDuplicate_abs)

definition remembers :: "time \<Rightarrow> node \<Rightarrow> node \<Rightarrow> bool" where
  "remembers T n0 n \<longleftrightarrow> node_wf n \<and> keeps T (m_rreqIdCache n0) (m_rreqIdCache n)
     \<and> keeps T (m_helloIdCache n0) (m_helloIdCache n) \<and> keeps T (m_dpd n0) (m_dpd n)"

interpretation memory: node_relation "remembers T" "\<lambda>now. now \<le> T" for T
proof
qed (auto simp: remembers_def node_wf_field node_wf_asked count_below node_wf_parts keeps_asked
    intro: keeps_trans)

lemma step_remembers:
  assumes "node_step E now e n n'" "now \<le> T" "node_wf n"
  shows "remembers T n n'"
proof (cases "e = RreqLimitTimer")
  case True
  with assms limit_timer_wf show ?thesis
    by (auto elim!: limit_timer_step simp: RreqRateLimitTimerExpire_def remembers_def)
next
  case False
  from memory.step [OF assms this] show ?thesis .
qed

section \<open>Operations that only report broken links\<close>

definition rerr_only :: "node \<Rightarrow> node \<Rightarrow> bool" where
  "rerr_only n0 n \<longleftrightarrow> m_nb n = m_nb n0 \<and> cluster n = cluster n0 \<and> par n = par n0
     \<and> m_socketAddresses n = m_socketAddresses n0 \<and> m_rqueue n = m_rqueue n0
     \<and> (\<exists>es. out n = out n0 @ es \<and> (\<forall>e\<in>set es. \<exists>s h a. e = SendTo s (Rerr h) a))"

interpretation quiet: evolution "\<lambda>n::node. True" rerr_only
proof
  show "rerr_only s s" for s by (auto simp: rerr_only_def)
  show "rerr_only a c" if "rerr_only a b" "rerr_only b c" for a b c
    using that by (fastforce simp: rerr_only_def)
qed simp

named_theorems quiets \<open>an operation only reports broken links\<close>

lemma quiet_small [quiets]:
  "rerr_only n0 n \<Longrightarrow> rerr_only n0 (aged now n)"
  "rerr_only n0 n \<Longrightarrow> rerr_only n0 (invalidate_routes now us n)"
  "rerr_only n0 n \<Longrightarrow> rerr_only n0 (update_route rt n)"
  "rerr_only n0 n \<Longrightarrow> rerr_only n0 (n\<lparr>m_rerrCount := k\<rparr>)"
  "rerr_only n0 n \<Longrightarrow> rerr_only n0 (emit (SendTo s (Rerr h) a) n)"
  "rerr_only n0 n \<Longrightarrow> rerr_only n0 (send_all (Rerr h) n)"
  by (auto simp: rerr_only_def aged_def invalidate_routes_def update_route_def emit_def send_all_def)

lemma quiet_send_on: "send_on i (Rerr h) a n = Some n' \<Longrightarrow> rerr_only n0 n \<Longrightarrow> rerr_only n0 n'"
  by (auto simp: send_on_def split: option.splits intro: quiets)

lemma quiet_lifetime [quiets]: "rerr_only n0 n \<Longrightarrow> rerr_only n0 (snd (UpdateRouteLifeTime now a lt n))"
  by (auto simp: UpdateRouteLifeTime_def lookup_route_eq Let_def split: option.splits intro!: quiets)

lemma quiet_precursor_ifaces [quiets]:
  "rerr_only n0 n \<Longrightarrow> rerr_only n0 (fst (precursor_ifaces now is ifaces n))"
  by (induction now "is" ifaces n rule: precursor_ifaces.induct)
    (auto simp: lookup_valid_route_eq quiet_small(1) split: option.splits if_splits)

lemma quiet_broadcast: "broadcast_rerr h is n = Some n' \<Longrightarrow> rerr_only n0 n \<Longrightarrow> rerr_only n0 n'"
proof (induction "is" arbitrary: n)
  case (Cons i "is")
  then obtain n1 where 1: "send_on i (Rerr h) (broadcast_of i) n = Some n1"
    and 2: "broadcast_rerr h is (n1\<lparr>m_rerrCount := m_rerrCount n1 + 1\<rparr>) = Some n'"
    by (auto split: Option.bind_splits)
  from Cons.IH [OF 2] quiet_send_on [OF 1 Cons.prems(2)] show ?case by (simp add: quiet_small)
qed simp

lemma quiet_SendRerrMessage: "SendRerrMessage now h ps n = Some n' \<Longrightarrow> rerr_only n0 n \<Longrightarrow> rerr_only n0 n'"
  using quiet_precursor_ifaces [of n0 n now ps "[]"]
  by (auto simp: SendRerrMessage_def lookup_valid_route_eq
      split: Option.bind_splits option.splits if_splits prod.splits
      intro!: quiets elim!: quiet_send_on quiet_broadcast)

lemma quiet_collect:
  "collect_unreachable E now us h ps n = Some (h', ps', n') \<Longrightarrow> rerr_only n0 n \<Longrightarrow> rerr_only n0 n'"
proof (induction us arbitrary: h ps n)
  case (Cons u us)
  then obtain h1 ps1 where "collect_unreachable E now us h1 ps1 (aged now n) = Some (h', ps', n')"
    by (auto simp: lookup_route_eq Let_def split: Option.bind_splits)
  from Cons.IH [OF this] Cons.prems show ?case by (simp add: quiets)
qed simp

lemma quiet_breaks:
  assumes "SendRerrWhenBreaksLinkToNextHop E now a n = Some n'" "rerr_only n0 n"
  shows "rerr_only n0 n'"
proof -
  obtain us where d: "destinations_via now a (aged now n) = (aged now (aged now n), us)"
    by (metis destinations_via_eq prod.collapse)
  show ?thesis
    using assms
    by (auto simp: SendRerrWhenBreaksLinkToNextHop_def lookup_route_eq d Let_def
        split: Option.bind_splits option.splits if_splits
        intro!: quiets elim!: quiet_SendRerrMessage quiet_collect)
qed

lemma quiet_no_route:
  "SendRerrWhenNoRouteToForward E now d s a n = Some n' \<Longrightarrow> rerr_only n0 n \<Longrightarrow> rerr_only n0 n'"
  by (auto simp: SendRerrWhenNoRouteToForward_def lookup_valid_route_eq
      split: Option.bind_splits option.splits if_splits intro!: quiets elim!: quiet_send_on)

lemma quiet_link_failures: "link_failures E now as n = Some n' \<Longrightarrow> rerr_only n0 n \<Longrightarrow> rerr_only n0 n'"
proof (induction "as" arbitrary: n)
  case (Cons a "as")
  then obtain n1 where 1: "SendRerrWhenBreaksLinkToNextHop E now a n = Some n1"
    and 2: "link_failures E now as n1 = Some n'"
    by (auto split: Option.bind_splits)
  from Cons.IH [OF 2] quiet_breaks [OF 1 Cons.prems(2)] show ?case by simp
qed simp

text \<open>\<open>IsNeighbor\<close> and \<open>Update\<close> as the handlers call them: the new neighbours, and quiet otherwise.\<close>

lemma nb_is_neighbor_spec:
  assumes "nb_is_neighbor E now a n = Some (b, n')"
  shows "m_nb n' = fst (Neighbors_Purge now (m_nb n))"
    and "b \<longleftrightarrow> FindNeighborTuple a (m_nb n') \<noteq> None"
    and "rerr_only (n\<lparr>m_nb := m_nb n'\<rparr>) n'"
proof -
  obtain nb fl where p: "Neighbors_Purge now (m_nb n) = (nb, fl)" by fastforce
  with assms have l: "link_failures E now fl (n\<lparr>m_nb := nb\<rparr>) = Some n'"
    and b: "b \<longleftrightarrow> (\<exists>i\<in>set (localNeighborList nb). neighborIfaceAddr i = a)"
    by (auto simp: nb_is_neighbor_def Neighbors_IsNeighbor_def)
  have q: "rerr_only (n\<lparr>m_nb := nb\<rparr>) n'"
    by (rule quiet_link_failures [OF l]) (simp add: quiet.refl)
  then have nb: "m_nb n' = nb" by (simp add: rerr_only_def)
  show "m_nb n' = fst (Neighbors_Purge now (m_nb n))" "rerr_only (n\<lparr>m_nb := m_nb n'\<rparr>) n'"
    using nb p q by simp_all
  show "b \<longleftrightarrow> FindNeighborTuple a (m_nb n') \<noteq> None"
    using b nb by (auto simp: find_None_notin image_iff)
qed

lemma nb_update_spec:
  assumes "nb_update E now a t n = Some n'"
  shows "rerr_only (n\<lparr>m_nb := m_nb n'\<rparr>) n'"
proof -
  obtain nb fl where p: "Neighbors_Update (lib E) (arp E) now a t (m_nb n) = (nb, fl)" by fastforce
  with assms have l: "link_failures E now fl (n\<lparr>m_nb := nb\<rparr>) = Some n'" by (simp add: nb_update_def)
  have q: "rerr_only (n\<lparr>m_nb := nb\<rparr>) n'"
    by (rule quiet_link_failures [OF l]) (simp add: quiet.refl)
  then have "m_nb n' = nb" by (simp add: rerr_only_def)
  with q show ?thesis by simp
qed

end
