(* ===== verification/Protocol_Correct.thy ===== *)
theory Protocol_Correct
  imports Protocol
begin

text \<open>
  Properties of \<open>RoutingProtocol\<close> as a whole: the invariant over every run, the limit on route requests,
  the dispatch of what arrives, the freshness of routes, the end of a route discovery, and what happens
  to the route requests and data packets of others. \<open>test_env\<close> is an environment for concrete runs:
  a loopback interface 0 and an interface 1 with address 10.0.0.1/8.
\<close>

definition test_env :: env where
  "test_env = \<lparr>lib = ns3_library, buf = net_buffer, unit_of_time = nanoseconds, arp = (\<lambda>i a. None),
     GetInterfaceForAddress = (\<lambda>a. if a = Ipv4Address_loopback then 0 else 1),
     GetNetDevice = (\<lambda>i. if i = 0 then 7 else 1),
     GetAddress = (\<lambda>i. if i = 0 then \<lparr>GetLocal = Ipv4Address_loopback, GetMask = 0xff000000,
                        GetBroadcast = 0x7fffffff\<rparr> else test_iface),
     GetInterfaceForDevice = (\<lambda>d. if d = 7 then 0 else 1),
     IsDestinationAddress = (\<lambda>a i. a = 0x0a000001),
     GetNInterfaces = 1, GetNAddresses = (\<lambda>i. 1), IsUp = (\<lambda>i. True), has_wifi_mac = (\<lambda>d. False),
     has_adhoc_mac = (\<lambda>d. False), GetArpCache = (\<lambda>i. 0), CreateSocket = 3, draw = (\<lambda>l h. l),
     freed_tuple = (\<lambda>nt. nt)\<rparr>"

definition test_params :: params where
  "test_params = attribute_defaults ns3_library (params_default ns3_library)"

lemmas env_eval = test_env_def ns3_library_def test_iface_def

lemma test_params_simps [simp]:
  "MaxQueueLen test_params = 64" "RreqRateLimit test_params = 10" "EnableHello test_params = True"
  "IsMalicious test_params = False"
  by (simp_all add: test_params_def attribute_defaults_def)

text \<open>A node with its stack set and interface 1 up, at time 0.\<close>

definition test_node0 :: node where
  "test_node0 = the (SetIpv4 test_env 0 (configure test_params CORE W_NODE_DEGREE 0 True True (node_new ns3_library)))"

definition test_node :: node where
  "test_node = the (NotifyInterfaceUp test_env 0 1 test_node0)"

lemma test_node_runs:
  "SetIpv4 test_env 0 (configure test_params CORE W_NODE_DEGREE 0 True True (node_new ns3_library)) = Some test_node0"
  "NotifyInterfaceUp test_env 0 1 test_node0 = Some test_node"
proof -
  show "SetIpv4 test_env 0 (configure test_params CORE W_NODE_DEGREE 0 True True (node_new ns3_library)) = Some test_node0"
    by (simp add: test_node0_def SetIpv4_def env_eval Let_def configure_def SetMaxQueueLen_def
        SetMaxQueueTime_def node_new_def)
  show "NotifyInterfaceUp test_env 0 1 test_node0 = Some test_node"
    by (simp add: test_node_def NotifyInterfaceUp_def env_eval Let_def open_socket_def Ipv4Address_loopback_def)
qed

lemma test_node_reachable: "reachable ns3_library test_params 0 test_node"
proof -
  have lib: "lib test_env = ns3_library" by (simp add: test_env_def)
  have "reachable ns3_library test_params 0 test_node0"
    by (rule reachable.event [OF reachable.start order_refl lib node_step.stack [OF test_node_runs(1)]])
  from reachable.event [OF this order_refl lib node_step.up [OF test_node_runs(2)]]
  show ?thesis .
qed

text \<open>A packet whose first byte names no message type can reach any node.\<close>

lemma unknown_type_step: "\<exists>n'. node_step test_env now (Receive s sender [9]) n n'"
proof -
  let ?m = "map_insert s (Ipv4InterfaceAddress_default ns3_library) (m_socketAddresses n)"
  have "map_of ?m s \<noteq> None" by (simp add: map_of_eq_None_iff keys_map_insert)
  then obtain i where "map_of ?m s = Some i" by blast
  then have "\<exists>n'. RecvAodv test_env now s sender [9] n = Some n'"
    by (simp add: RecvAodv_def TypeHeader_Deserialize_def test_env_def net_buffer_def MessageType_of_def
        distance_from_def TypeHeader_GetSerializedSize_def Let_def)
  then show ?thesis by (auto simp: receive_step)
qed

section \<open>Over every run\<close>

text \<open>C1: The invariant of the whole protocol. Whatever events reach a node in whatever order and at
  whatever times, its routing table has one entry per destination, filed under that destination,
  its neighbours are distinct, its packet queue is within its capacity and holds no packet twice for
  a destination, none of the three caches knows a pair twice, and the route requests counted since
  the last reset are at most the limit.\<close>

theorem node_invariant:
  assumes "reachable L p t n" and "0 < MaxQueueLen p" and "0 \<le> Seconds L 3"
  shows "distinct (map fst (m_ipv4AddressEntry (m_routingTable n)))
    \<and> (\<forall>(a, rt)\<in>set (m_ipv4AddressEntry (m_routingTable n)). GetDestinationOf rt = a)
    \<and> distinct (map neighborIfaceAddr (localNeighborList (m_nb n)))
    \<and> length (m_queue (m_rqueue n)) \<le> unat (m_maxLen (m_rqueue n))
    \<and> distinct (map qe_key (m_queue (m_rqueue n)))
    \<and> distinct (map uid_key (m_idCache (m_rreqIdCache n)))
    \<and> distinct (map uid_key (m_idCache (m_helloIdCache n)))
    \<and> distinct (map uid_key (m_idCache (m_dpd n)))
    \<and> distinct (map fst (m_socketAddresses n))
    \<and> m_rreqCount n \<le> RreqRateLimit (par n)"
  using reachable_node_wf [OF assms]
  by (simp add: node_wf_def RoutingTable_wf_def Neighbors_wf_def RequestQueue_wf_def IdCache_wf_def map_ok_distinct)

theorem node_invariant_witness:
  "m_rreqCount test_node \<le> RreqRateLimit (par test_node)"
  using node_invariant [OF test_node_reachable] by (simp add: ns3_library_def)

text \<open>C12: The RREQ rate limit. In any run between two expiries of the rate limit timer, whatever else
  happens, the node numbers at most \<open>RreqRateLimit\<close> route requests: the identifier advances by at
  most what was left of the limit, and the counter by exactly as much.\<close>

theorem rreq_rate_limited:
  assumes "reachable L p t n" and "0 < MaxQueueLen p" and "0 \<le> Seconds L 3"
    and "(\<lambda>x y. \<exists>E now e. e \<noteq> RreqLimitTimer \<and> node_step E now e x y)\<^sup>*\<^sup>* n n'"
  shows "\<exists>k. m_requestId n' = m_requestId n + of_nat k \<and> unat (m_rreqCount n') = unat (m_rreqCount n) + k
    \<and> k \<le> unat (RreqRateLimit (par n)) - unat (m_rreqCount n)"
proof -
  have wf: "node_wf n" by (rule reachable_node_wf [OF assms(1-3)])
  have "grows n n'"
    by (rule growth.along_run [OF assms(4) wf]) (auto dest: growth.step)
  then obtain k where k: "m_requestId n' = m_requestId n + of_nat k" "unat (m_rreqCount n') = unat (m_rreqCount n) + k"
    and le: "m_rreqCount n' \<le> RreqRateLimit (par n)"
    by (auto simp: grows_def node_wf_def)
  moreover have "k \<le> unat (RreqRateLimit (par n)) - unat (m_rreqCount n)"
    using le k(2) by (simp add: word_le_nat_alt)
  ultimately show ?thesis by blast
qed

theorem rreq_rate_limited_witness:
  "\<exists>n' k. node_step test_env 1 (Receive 3 9 [9]) test_node n'
     \<and> m_requestId n' = m_requestId test_node + of_nat k \<and> k \<le> 10"
proof -
  have par: "RreqRateLimit (par test_node) = 10"
  proof -
    have "grows (configure test_params CORE W_NODE_DEGREE 0 True True (node_new ns3_library)) test_node"
      by (rule growth.R_InterfaceUp [OF test_node_runs(2)], rule growth.R_SetIpv4 [OF test_node_runs(1)],
          rule growth.refl, rule start_wf) (simp_all add: ns3_library_def)
    then show ?thesis by (simp add: grows_def configure_def SetMaxQueueLen_def SetMaxQueueTime_def)
  qed
  obtain n' where step: "node_step test_env 1 (Receive 3 9 [9]) test_node n'"
    using unknown_type_step by blast
  then have "(\<lambda>x y. \<exists>E now e. e \<noteq> RreqLimitTimer \<and> node_step E now e x y)\<^sup>*\<^sup>* test_node n'"
    by blast
  from rreq_rate_limited [OF test_node_reachable _ _ this] par obtain k
    where "m_requestId n' = m_requestId test_node + of_nat k" "k \<le> 10 - unat (m_rreqCount test_node)"
    by (auto simp: ns3_library_def)
  with step show ?thesis by (intro exI [of _ n'] exI [of _ k]) simp
qed

section \<open>Receiving control messages\<close>

text \<open>The packet a \<open>SendTo\<close> hands to the socket: the message header under the type header.\<close>

fun wire :: "buffer_ops \<Rightarrow> message \<Rightarrow> u8 list" where
  "wire B (Hello h) = TypeHeader_Serialize B (TypeHeader_new TYPE_HELLO) @ HelloHeader_Serialize B h"
| "wire B (Rreq h) = TypeHeader_Serialize B (TypeHeader_new AODVTYPE_RREQ) @ RreqHeader_Serialize B h"
| "wire B (Rrep h) = TypeHeader_Serialize B (TypeHeader_new AODVTYPE_RREP) @ RrepHeader_Serialize B h"
| "wire B (RrepAck h) = TypeHeader_Serialize B (TypeHeader_new AODVTYPE_RREP_ACK) @ RrepAckHeader_Serialize B h"
| "wire B (Rerr h) = TypeHeader_Serialize B (TypeHeader_new AODVTYPE_RERR) @ RerrHeader_Serialize B h"

fun message_wf :: "message \<Rightarrow> bool" where
  "message_wf (Hello h) = HelloHeader_wf h"
| "message_wf (Rerr h) = RerrHeader_wf h"
| "message_wf _ = True"

text \<open>What the receiver does with the message the sender meant.\<close>

fun handle_message :: "env \<Rightarrow> time \<Rightarrow> message \<Rightarrow> ipv4addr \<Rightarrow> ipv4addr \<Rightarrow> node \<Rightarrow> node option" where
  "handle_message E now (Hello h) receiver sender n =
     handle_hello E now (restamp (Seconds (lib E) (InSeconds (lib E) now)) h) receiver sender n"
| "handle_message E now (Rreq h) receiver sender n = handle_request E now h receiver sender n"
| "handle_message E now (Rrep h) receiver sender n = handle_reply E now h receiver sender n"
| "handle_message E now (RrepAck h) receiver sender n = Some (RecvReplyAck now sender n)"
| "handle_message E now (Rerr h) receiver sender n = handle_error E now h sender n"

lemma type_header_read:
  "buffer_laws B \<Longrightarrow> TypeHeader_Deserialize B t (TypeHeader_Serialize B (TypeHeader_new m) @ r)
     = Some (\<lparr>m_type = m, m_valid = True\<rparr>, 1)"
  "buffer_laws B \<Longrightarrow> length (TypeHeader_Serialize B (TypeHeader_new m)) = 1"
  using type_codec.de_ser [of B t "TypeHeader_new m" r] fixed_ser_length [of B]
  by (simp_all add: TypeHeader_new_def TypeHeader_GetSerializedSize_def TypeHeader_Serialize_def buffer_laws_def)

lemma map_insert_known: "map_ok m \<Longrightarrow> map_of m k = Some w \<Longrightarrow> map_insert k v m = m"
proof (induction m)
  case (Cons p m)
  obtain a b where p: "p = (a, b)" by fastforce
  have "map_of (p # m) k \<noteq> None" using Cons.prems(2) by simp
  then have "k \<in> fst ` set (p # m)" by (simp only: map_of_eq_None_iff not_not)
  then have "\<not> k < a" using Cons.prems(1) p by (auto simp: map_ok_Cons)
  with Cons p show ?case by (auto simp: map_ok_Cons split: if_splits)
qed simp

lemma receive_typed:
  assumes "buffer_laws (buf E)" "map_ok (m_socketAddresses n)" "map_of (m_socketAddresses n) s = Some iface"
  shows "RecvAodv E now s sender (TypeHeader_Serialize (buf E) (TypeHeader_new t) @ p) n =
    (let n = UpdateRouteToNeighbor E now sender (GetLocal iface) n
     in case t of
          TYPE_HELLO \<Rightarrow> RecvHello E now p (GetLocal iface) sender n
        | AODVTYPE_RREQ \<Rightarrow> RecvRequest E now p (GetLocal iface) sender n
        | AODVTYPE_RREP \<Rightarrow> RecvReply E now p (GetLocal iface) sender n
        | AODVTYPE_RERR \<Rightarrow> RecvError E now p sender n
        | AODVTYPE_RREP_ACK \<Rightarrow> Some (RecvReplyAck now sender n))"
  using assms
  by (cases t) (simp_all add: RecvAodv_def map_insert_known type_header_read Let_def)

lemma receive_message:
  assumes "buffer_laws (buf E)" "map_ok (m_socketAddresses n)"
    "map_of (m_socketAddresses n) s = Some iface" "message_wf m"
    "routed = UpdateRouteToNeighbor E now sender (GetLocal iface) n"
  shows "RecvAodv E now s sender (wire (buf E) m @ padding) n
    = handle_message E now m (GetLocal iface) sender routed"
  using assms(4,5) hello_codec.de_ser [OF assms(1)] rreq_codec.de_ser [OF assms(1)] rrep_codec.de_ser [OF assms(1)]
    ack_codec.de_ser [OF assms(1)] rerr_codec.de_ser [OF assms(1)]
  by (cases m) (simp_all add: receive_typed [OF assms(1-3)] RecvHello_def RecvRequest_def RecvReply_def
      RecvError_def Let_def)

text \<open>C25: What is sent is what is handled. A message of any kind, serialised under its type header and
  followed by whatever padding the packet carries, reaches exactly the handler of its kind at the
  receiver, with the header the sender wrote (a hello's list stamped with the receiver's clock),
  after the receiver has refreshed its route to the sender; a byte that names no message type leaves
  only that refresh.\<close>

theorem message_dispatch:
  assumes "buffer_laws (buf E)" and "map_ok (m_socketAddresses n)"
    and "map_of (m_socketAddresses n) s = Some iface" and "message_wf m"
    and "routed = UpdateRouteToNeighbor E now sender (GetLocal iface) n"
  shows "RecvAodv E now s sender (wire (buf E) m @ padding) n
      = handle_message E now m (GetLocal iface) sender routed
    \<and> (MessageType_of b = None \<longrightarrow>
        RecvAodv E now s sender (WriteU8 (buf E) b @ padding) n = Some routed)"
proof -
  note B = assms(1)
  have "RecvAodv E now s sender (WriteU8 (buf E) b @ padding) n = Some routed" if "MessageType_of b = None"
    using assms that buffer_rw(1,2) [OF B]
    by (simp add: RecvAodv_def map_insert_known TypeHeader_Deserialize_def distance_from_def
        TypeHeader_GetSerializedSize_def Let_def)
  moreover have "RecvAodv E now s sender (wire (buf E) m @ padding) n
      = handle_message E now m (GetLocal iface) sender routed"
    by (rule receive_message [OF assms])
  ultimately show ?thesis by blast
qed

theorem message_dispatch_witness:
  "RecvAodv test_env 0 3 9 (wire net_buffer (RrepAck RrepAckHeader_new) @ [])
     ((node_new ns3_library)\<lparr>m_socketAddresses := [(3, test_iface)]\<rparr>)
   = Some (RecvReplyAck 0 9 (UpdateRouteToNeighbor test_env 0 9 0x0a000001
       ((node_new ns3_library)\<lparr>m_socketAddresses := [(3, test_iface)]\<rparr>)))"
  using message_dispatch [of test_env "(node_new ns3_library)\<lparr>m_socketAddresses := [(3, test_iface)]\<rparr>" 3
      test_iface "RrepAck RrepAckHeader_new" _ 0 9 "[]" 0]
  by (simp add: test_env_def net_buffer_laws map_ok_Cons test_iface_def)

section \<open>Route replies\<close>

lemma aged_wf: "RoutingTable_wf (m_routingTable n) \<Longrightarrow> RoutingTable_wf (m_routingTable (aged now n))"
  by (simp add: aged_def RoutingTable_wf_Purge)

lemma route_of_update:
  "RoutingTable_wf (m_routingTable n) \<Longrightarrow> route_of (update_route e n) =
     (case route_of n (GetDestinationOf e) of None \<Rightarrow> route_of n
      | Some _ \<Rightarrow> (route_of n)(GetDestinationOf e \<mapsto> reset_rreq e))"
  using rt.raw_upd [of "m_routingTable n" e] by (auto simp: route_of_def update_route_def fun_eq_iff split: option.splits)

lemma route_of_aged_twice:
  "RoutingTable_wf (m_routingTable n) \<Longrightarrow> route_of (aged now (aged now n)) = route_of (aged now n)"
  using rt.purge_twice [of "m_routingTable n" now] by (simp add: route_of_def aged_def fun_eq_iff)

lemma route_of_add:
  "RoutingTable_wf (m_routingTable n) \<Longrightarrow> route_of (add_route now e (aged now n)) =
     (case route_of (aged now n) (GetDestinationOf e) of
        None \<Rightarrow> (route_of (aged now n))(GetDestinationOf e \<mapsto> reset_rreq e)
      | Some _ \<Rightarrow> route_of (aged now n))"
  using rt.raw_add [where t = "m_routingTable (aged now n)" and n = now and e = e] aged_wf [of n now] rt.purge_twice [of "m_routingTable n" now]
  by (auto simp: route_of_def aged_def add_route_def fun_eq_iff split: option.splits)

lemma new_entry [simp]:
  "GetDestinationOf (RoutingTableEntry_new now d a v s i h nh l) = a"
  "GetNextHop (RoutingTableEntry_new now d a v s i h nh l) = nh"
  "reset_rreq (RoutingTableEntry_new now d a v s i h nh l) = RoutingTableEntry_new now d a v s i h nh l"
  "rt_seqNo (RoutingTableEntry_new now d a v s i h nh l) = s"
  "rt_hops (RoutingTableEntry_new now d a v s i h nh l) = h"
  "rt_flag (RoutingTableEntry_new now d a v s i h nh l) = VALID"
  "rt_lifeTime (RoutingTableEntry_new now d a v s i h nh l) = l + now"
  "rt_iface (RoutingTableEntry_new now d a v s i h nh l) = i"
  "route_device (rt_route (RoutingTableEntry_new now d a v s i h nh l)) = d"
  by (simp_all add: GetDestinationOf_def GetNextHop_def reset_rreq_def RoutingTableEntry_new_def)

lemma install_reply_route:
  assumes "RoutingTable_wf (m_routingTable n)"
    and "newEntry = RoutingTableEntry_new now dev (rrep_dst h) True (rrep_dstSeqNo h) iface
      (ucast (rrep_hopCount h)) sender lt"
  shows "snd (install_reply now newEntry h n) = route_of (aged now n) (rrep_dst h)"
    and "route_of (fst (install_reply now newEntry h n)) = (route_of (aged now n))(rrep_dst h \<mapsto>
      (case route_of (aged now n) (rrep_dst h) of
         None \<Rightarrow> newEntry
       | Some rt \<Rightarrow>
           if \<not> rt_validSeqNo rt \<or> seqno_diff (rrep_dstSeqNo h) (rt_seqNo rt) > 0
              \<or> rrep_dstSeqNo h = rt_seqNo rt
                \<and> (rt_flag rt \<noteq> VALID \<or> ucast (rrep_hopCount h) < rt_hops rt)
           then newEntry else rt))"
proof -
  note wf = aged_wf [OF assms(1), of now]
  have dst: "GetDestinationOf newEntry = rrep_dst h" "reset_rreq newEntry = newEntry" by (simp_all add: assms(2))
  show "snd (install_reply now newEntry h n) = route_of (aged now n) (rrep_dst h)"
    by (simp add: install_reply_def lookup_route_eq split: option.splits)
  show "route_of (fst (install_reply now newEntry h n)) = (route_of (aged now n))(rrep_dst h \<mapsto>
      (case route_of (aged now n) (rrep_dst h) of
         None \<Rightarrow> newEntry
       | Some rt \<Rightarrow>
           if \<not> rt_validSeqNo rt \<or> seqno_diff (rrep_dstSeqNo h) (rt_seqNo rt) > 0
              \<or> rrep_dstSeqNo h = rt_seqNo rt
                \<and> (rt_flag rt \<noteq> VALID \<or> ucast (rrep_hopCount h) < rt_hops rt)
           then newEntry else rt))"
  proof (cases "route_of (aged now n) (rrep_dst h)")
    case None
    then show ?thesis
      using route_of_add [OF assms(1), of now newEntry] by (simp add: install_reply_def lookup_route_eq dst)
  next
    case (Some rt)
    then show ?thesis
      using route_of_update [OF wf, of newEntry]
      by (auto simp: install_reply_def lookup_route_eq dst fun_upd_idem)
  qed
qed

text \<open>C13: When a RREP replaces a route. With no entry for its destination the RREP's route is added; an
  entry is replaced exactly when it has no valid sequence number, an older one, or the same one while it
  is not valid or takes more hops, and is otherwise left as the purge leaves it. So where the old number was
  valid, the new one is not older, and a valid route with the same number gets no longer. No other
  destination and no other part of the node is touched.\<close>

theorem reply_freshness:
  assumes "RoutingTable_wf (m_routingTable n)"
    and "newEntry = RoutingTableEntry_new now dev (rrep_dst h) True (rrep_dstSeqNo h) iface
      (ucast (rrep_hopCount h)) sender lt"
    and "install_reply now newEntry h n = (n', r)"
    and "old = route_of (aged now n) (rrep_dst h)"
  shows "r = old \<and> n' = n\<lparr>m_routingTable := m_routingTable n'\<rparr>
    \<and> (\<forall>a. a \<noteq> rrep_dst h \<longrightarrow> route_of n' a = route_of (aged now n) a)
    \<and> (old = None \<longrightarrow> route_of n' (rrep_dst h) = Some newEntry)
    \<and> (\<forall>rt. old = Some rt \<longrightarrow> (\<exists>rt'. route_of n' (rrep_dst h) = Some rt'
        \<and> rt' = (if \<not> rt_validSeqNo rt \<or> seqno_diff (rrep_dstSeqNo h) (rt_seqNo rt) > 0
                  \<or> rrep_dstSeqNo h = rt_seqNo rt
                    \<and> (rt_flag rt \<noteq> VALID \<or> ucast (rrep_hopCount h) < rt_hops rt)
                 then newEntry else rt)
        \<and> (rt_validSeqNo rt \<longrightarrow> seqno_diff (rt_seqNo rt') (rt_seqNo rt) \<ge> 0)
        \<and> (rt_validSeqNo rt \<and> rt_flag rt = VALID \<and> rt_seqNo rt' = rt_seqNo rt
            \<longrightarrow> rt_hops rt' \<le> rt_hops rt)))"
proof -
  have fst: "n' = fst (install_reply now newEntry h n)" and snd: "r = snd (install_reply now newEntry h n)"
    by (simp_all add: assms(3))
  have same: "seqno_diff x x = 0" for x by (simp add: seqno_diff_def)
  have fresh: "rt_seqNo newEntry = rrep_dstSeqNo h" "rt_hops newEntry = ucast (rrep_hopCount h)"
    by (simp_all add: assms(2))
  have frame: "n' = n\<lparr>m_routingTable := m_routingTable n'\<rparr>"
    using assms(3) by (auto simp: install_reply_def lookup_route_eq aged_def update_route_def add_route_def
        split: option.splits if_splits)
  note spec = install_reply_route [OF assms(1,2), folded fst snd]
  have "r = old" "\<forall>a. a \<noteq> rrep_dst h \<longrightarrow> route_of n' a = route_of (aged now n) a"
    "old = None \<longrightarrow> route_of n' (rrep_dst h) = Some newEntry"
    unfolding spec assms(4) by simp_all
  moreover have "\<exists>rt'. route_of n' (rrep_dst h) = Some rt'
        \<and> rt' = (if \<not> rt_validSeqNo rt \<or> seqno_diff (rrep_dstSeqNo h) (rt_seqNo rt) > 0
                  \<or> rrep_dstSeqNo h = rt_seqNo rt
                    \<and> (rt_flag rt \<noteq> VALID \<or> ucast (rrep_hopCount h) < rt_hops rt)
                 then newEntry else rt)
        \<and> (rt_validSeqNo rt \<longrightarrow> seqno_diff (rt_seqNo rt') (rt_seqNo rt) \<ge> 0)
        \<and> (rt_validSeqNo rt \<and> rt_flag rt = VALID \<and> rt_seqNo rt' = rt_seqNo rt
            \<longrightarrow> rt_hops rt' \<le> rt_hops rt)" if "old = Some rt" for rt
    using that unfolding spec assms(4) by (auto simp: same fresh)
  ultimately show ?thesis using frame by blast
qed

theorem reply_freshness_witness:
  "route_of (fst (install_reply 0 (RoutingTableEntry_new 0 1 5 True 9 test_iface 3 8 100)
      \<lparr>rrep_flags = 0, rrep_prefixSize = 0, rrep_hopCount = 3, rrep_dst = 5, rrep_dstSeqNo = 9,
       rrep_origin = 1, rrep_lifeTime = 100\<rparr> ((node_new ns3_library)\<lparr>m_routingTable := test_table\<rparr>))) 5
   = Some (RoutingTableEntry_new 0 1 5 True 9 test_iface 3 8 100)"
proof -
  let ?h = "\<lparr>rrep_flags = 0, rrep_prefixSize = 0, rrep_hopCount = 3, rrep_dst = 5, rrep_dstSeqNo = 9,
       rrep_origin = 1, rrep_lifeTime = 100\<rparr>"
  let ?n = "(node_new ns3_library)\<lparr>m_routingTable := test_table\<rparr>"
  let ?e = "RoutingTableEntry_new 0 1 5 True 9 test_iface 3 8 100"
  have old: "route_of (aged 0 ?n) 5 = Some (RoutingTableEntry_new 0 1 5 True 7 test_iface 2 4 10)"
    by (simp add: route_of_def aged_def table_map_Purge [OF test_table_wf] test_table_map age_entry_def
        GetLifeTime_def)
  obtain n' r where i: "install_reply 0 ?e ?h ?n = (n', r)" by fastforce
  have "sint ((9 :: u32) - 7) = 2" by simp
  with reply_freshness [of ?n ?e 0 1 ?h test_iface 8 100 n' r _] i old show ?thesis
    by (auto simp: test_table_wf seqno_diff_def)
qed

section \<open>The end of a route discovery\<close>

definition tag_allows :: "env \<Rightarrow> Ipv4Route \<Rightarrow> QueueEntry \<Rightarrow> bool" where
  "tag_allows E route e \<longleftrightarrow> (case deferred_tag (qe_packet e) of None \<Rightarrow> True
     | Some oif \<Rightarrow> oif = - 1 \<or> oif = GetInterfaceForDevice E (route_device route))"

definition handed_over :: "Ipv4Route \<Rightarrow> QueueEntry \<Rightarrow> effect" where
  "handed_over route e = UnicastForward (qe_ucb e) route ((qe_packet e)\<lparr>deferred_tag := None\<rparr>)
     ((qe_header e)\<lparr>GetSource := route_source route, GetTtl := GetTtl (qe_header e) + 1\<rparr>)"

definition dropped_report :: "QueueEntry \<Rightarrow> effect" where
  "dropped_report e = ErrorReport (qe_ecb e) (qe_packet e) (qe_header e)"

lemma report_dropped_eq: "report_dropped es n = n\<lparr>out := out n @ map dropped_report es\<rparr>"
  by (simp add: report_dropped_def dropped_report_def)

text \<open>With enough turns the loop hands over every live packet for the destination, in order.\<close>

lemma send_from_queue_all:
  assumes "length (filter (\<lambda>e. GetDestination (qe_header e) = dst)
      (filter (\<lambda>e. \<not> QueueEntry_IsExpired now e) (m_queue (m_rqueue n)))) < k"
    and "\<forall>e\<in>set (m_queue (m_rqueue n)). GetDestination (qe_header e) = dst \<longrightarrow> tag_allows E route e"
  shows "send_from_queue k E now dst route n =
    n\<lparr>m_rqueue := (m_rqueue n)\<lparr>m_queue := filter (\<lambda>e. GetDestination (qe_header e) \<noteq> dst)
         (filter (\<lambda>e. \<not> QueueEntry_IsExpired now e) (m_queue (m_rqueue n)))\<rparr>,
      out := out n @ map dropped_report (filter (QueueEntry_IsExpired now) (m_queue (m_rqueue n)))
        @ map (handed_over route) (filter (\<lambda>e. GetDestination (qe_header e) = dst)
            (filter (\<lambda>e. \<not> QueueEntry_IsExpired now e) (m_queue (m_rqueue n))))\<rparr>"
  using assms
proof (induction k arbitrary: n)
  case (Suc k)
  let ?hit = "\<lambda>e. GetDestination (qe_header e) = dst"
  let ?live = "filter (\<lambda>e. \<not> QueueEntry_IsExpired now e) (m_queue (m_rqueue n))"
  let ?dead = "filter (QueueEntry_IsExpired now) (m_queue (m_rqueue n))"
  show ?case
  proof (cases "List.find ?hit ?live")
    case None
    then have "\<forall>x\<in>set ?live. \<not> ?hit x" by (auto simp: find_None_iff)
    then have "filter ?hit ?live = []" "filter (\<lambda>e. \<not> ?hit e) ?live = ?live"
      by (blast intro: filter_False, blast intro: filter_True)
    with None show ?thesis
      by (simp add: RequestQueue_Dequeue_def RequestQueue_Purge_def report_dropped_eq Let_def)
  next
    case (Some e)
    from erase_first_split [OF Some] obtain ys zs where l: "?live = ys @ e # zs" and er: "erase_first ?hit ?live = ys @ zs"
      and ys: "\<forall>y\<in>set ys. \<not> ?hit y" and e: "?hit e"
      by blast
    define m where "m = emit (handed_over route e)
      ((n\<lparr>m_rqueue := (m_rqueue n)\<lparr>m_queue := ys @ zs\<rparr>\<rparr>)\<lparr>out := out n @ map dropped_report ?dead\<rparr>)"
    have hits: "filter ?hit ys = []" using ys by (blast intro: filter_False)
    have mem: "set (ys @ zs) \<subseteq> set (m_queue (m_rqueue n))" "e \<in> set (m_queue (m_rqueue n))"
      using arg_cong [OF l, of set] by auto
    have alive: "filter (\<lambda>e. \<not> QueueEntry_IsExpired now e) (ys @ zs) = ys @ zs"
      "filter (QueueEntry_IsExpired now) (ys @ zs) = []"
    proof -
      have "\<forall>x\<in>set (ys @ zs). \<not> QueueEntry_IsExpired now x"
        using arg_cong [OF l, of set] by auto
      then show "filter (\<lambda>e. \<not> QueueEntry_IsExpired now e) (ys @ zs) = ys @ zs"
        "filter (QueueEntry_IsExpired now) (ys @ zs) = []"
        by (simp_all only: filter_id_conv filter_empty_iff not_not simp_thms)
    qed
    have "tag_allows E route e" using Suc.prems(2) mem(2) e by blast
    then have "send_from_queue (Suc k) E now dst route n = send_from_queue k E now dst route m"
      using Some er
      by (auto simp: RequestQueue_Dequeue_def RequestQueue_Purge_def report_dropped_eq Let_def m_def
          tag_allows_def handed_over_def split: option.splits)
    also have "\<dots> = m\<lparr>m_rqueue := (m_rqueue m)\<lparr>m_queue := filter (\<lambda>e. \<not> ?hit e) (ys @ zs)\<rparr>,
        out := out m @ map (handed_over route) (filter ?hit (ys @ zs))\<rparr>"
    proof -
      have q: "m_queue (m_rqueue m) = ys @ zs" by (simp add: m_def emit_def)
      have "length (filter ?hit (ys @ zs)) < k"
        using Suc.prems(1) e unfolding l by simp
      then show ?thesis
        using Suc.IH [of m] Suc.prems(2) mem(1) unfolding q alive by auto
    qed
    finally show ?thesis
      using e hits unfolding l by (simp add: m_def emit_def)
  qed
qed simp

lemma SendPacketFromQueue_all:
  "\<forall>e\<in>set (m_queue (m_rqueue n)). GetDestination (qe_header e) = dst \<longrightarrow> tag_allows E route e \<Longrightarrow>
   SendPacketFromQueue E now dst route n =
    n\<lparr>m_rqueue := (m_rqueue n)\<lparr>m_queue := filter (\<lambda>e. GetDestination (qe_header e) \<noteq> dst)
         (filter (\<lambda>e. \<not> QueueEntry_IsExpired now e) (m_queue (m_rqueue n)))\<rparr>,
      out := out n @ map dropped_report (filter (QueueEntry_IsExpired now) (m_queue (m_rqueue n)))
        @ map (handed_over route) (filter (\<lambda>e. GetDestination (qe_header e) = dst)
            (filter (\<lambda>e. \<not> QueueEntry_IsExpired now e) (m_queue (m_rqueue n))))\<rparr>"
  unfolding SendPacketFromQueue_def
  by (rule send_from_queue_all)
    (auto intro: le_imp_less_Suc order_trans [OF length_filter_le length_filter_le])

lemma install_frame [simp]:
  "m_socketAddresses (fst (install_reply now e h n)) = m_socketAddresses n"
  "m_rqueue (fst (install_reply now e h n)) = m_rqueue n"
  "out (fst (install_reply now e h n)) = out n"
  "m_addressReqTimer (fst (install_reply now e h n)) = m_addressReqTimer n"
  by (auto simp: install_reply_def lookup_route_eq aged_def update_route_def add_route_def split: option.splits)

lemma install_wf:
  "RoutingTable_wf (m_routingTable n) \<Longrightarrow> RoutingTable_wf (m_routingTable (fst (install_reply now e h n)))"
  by (auto simp: install_reply_def lookup_route_eq aged_def update_route_def add_route_def
      RoutingTable_wf_Purge RoutingTable_wf_Update RoutingTable_wf_AddRoute split: option.splits)

lemma search_answered:
  assumes "RoutingTable_wf (m_routingTable n)"
    and "IsMyOwnAddress n (rrep_origin h)" and "rrep_dst h \<noteq> rrep_origin h" and "\<not> RrepHeader_GetAckRequired h"
    and "route_of (aged now n) (rrep_dst h) = Some rt" and "rt_flag rt = IN_SEARCH"
    and "newEntry = RoutingTableEntry_new now (device_of E receiver) (rrep_dst h) True (rrep_dstSeqNo h)
      (iface_of E receiver) (ucast (rrep_hopCount h + 1)) sender (RrepHeader_GetLifeTime (unit_of_time E) h)"
    and "0 \<le> RrepHeader_GetLifeTime (unit_of_time E) h"
    and "\<forall>e\<in>set (m_queue (m_rqueue n)).
      GetDestination (qe_header e) = rrep_dst h \<longrightarrow> tag_allows E (rt_route newEntry) e"
  shows "\<exists>n'. handle_reply E now h receiver sender n = Some n'
    \<and> route_of n' (rrep_dst h) = Some newEntry
    \<and> m_addressReqTimer n' = map_erase (rrep_dst h) (m_addressReqTimer n)
    \<and> \<not> RequestQueue_Find (rrep_dst h) (m_rqueue n')
    \<and> out n' = out n @ map dropped_report (filter (QueueEntry_IsExpired now) (m_queue (m_rqueue n)))
        @ map (handed_over (rt_route newEntry)) (filter (\<lambda>e. GetDestination (qe_header e) = rrep_dst h)
            (filter (\<lambda>e. \<not> QueueEntry_IsExpired now e) (m_queue (m_rqueue n))))"
proof -
  let ?h = "h\<lparr>rrep_hopCount := rrep_hopCount h + 1\<rparr>"
  have h: "RrepHeader_GetLifeTime (unit_of_time E) ?h = RrepHeader_GetLifeTime (unit_of_time E) h"
    "RrepHeader_GetAckRequired ?h = RrepHeader_GetAckRequired h"
    by (simp_all add: RrepHeader_GetLifeTime_def RrepHeader_GetAckRequired_def)
  obtain n1 r where i: "install_reply now newEntry ?h n = (n1, r)" by fastforce
  have n1: "n1 = fst (install_reply now newEntry ?h n)" and "r = snd (install_reply now newEntry ?h n)"
    using i by simp_all
  then have r: "r = Some rt"
    using install_reply_route(1) [OF assms(1), of newEntry now "device_of E receiver" ?h] assms(5,7) by simp
  have wf1: "RoutingTable_wf (m_routingTable n1)" unfolding n1 by (rule install_wf [OF assms(1)])
  have known: "route_of n1 (rrep_dst h) \<noteq> None"
    using install_reply_route(2) [OF assms(1), of newEntry now "device_of E receiver" ?h "iface_of E receiver" sender
        "RrepHeader_GetLifeTime (unit_of_time E) h"] assms(7)
    unfolding n1 by simp
  define n2 where "n2 = (update_route newEntry n1)\<lparr>m_addressReqTimer := map_erase (rrep_dst h) (m_addressReqTimer n1)\<rparr>"
  have "route_of n2 (rrep_dst h) = Some newEntry"
  proof -
    have "route_of n2 = route_of (update_route newEntry n1)" by (simp add: n2_def route_of_def fun_eq_iff)
    with known show ?thesis by (auto simp: route_of_update [OF wf1] assms(7))
  qed
  moreover have "RoutingTable_wf (m_routingTable n2)"
    using RoutingTable_wf_Update [OF wf1] by (simp add: n2_def update_route_def)
  moreover have "\<not> GetLifeTime now newEntry < 0" using assms(7,8) by (simp add: GetLifeTime_def)
  ultimately have route: "route_of (aged now n2) (rrep_dst h) = Some newEntry"
    by (simp add: route_of_def aged_def table_map_Purge age_entry_def)
  have own: "IsMyOwnAddress n1 (rrep_origin h)" using assms(2) n1 by (simp add: IsMyOwnAddress_def)
  have queue: "m_rqueue (aged now n2) = m_rqueue n" and out: "out (aged now n2) = out n"
    and timers: "m_addressReqTimer (aged now n2) = map_erase (rrep_dst h) (m_addressReqTimer n)"
    by (simp_all add: n2_def n1 update_route_def aged_def)
  have "handle_reply E now h receiver sender n =
      Some (SendPacketFromQueue E now (rrep_dst h) (rt_route newEntry) (aged now n2))"
    using assms(3,4,6) own route i unfolding handle_reply_def Let_def
    by (simp add: h assms(7) [symmetric] lookup_route_eq r entry_or_default_def found_def n2_def)
  moreover have "\<forall>e\<in>set (m_queue (m_rqueue (aged now n2))).
      GetDestination (qe_header e) = rrep_dst h \<longrightarrow> tag_allows E (rt_route newEntry) e"
    using assms(9) queue by simp
  note SendPacketFromQueue_all [OF this]
  ultimately show ?thesis
    using route timers unfolding queue out
    by (auto simp: RequestQueue_Find_def route_of_def)
qed

text \<open>C6: A RREP for a search of this node ends it. When the node itself asked for the destination and the
  entry is still being searched, the entry becomes the RREP's route whatever its sequence number (the
  freshness test does not hold it back), the retry timer is gone, and the waiting packets are served
  at once: the expired ones are reported to their error callbacks, every live packet for the
  destination is handed over in the order of arrival with the route's source address and its TTL
  raised by one, and none of them stays in the queue.\<close>

theorem reply_completes_discovery:
  assumes "RoutingTable_wf (m_routingTable n)"
    and "IsMyOwnAddress n (rrep_origin h)" and "rrep_dst h \<noteq> rrep_origin h" and "\<not> RrepHeader_GetAckRequired h"
    and "route_of (aged now n) (rrep_dst h) = Some rt" and "rt_flag rt = IN_SEARCH"
    and "newEntry = RoutingTableEntry_new now (device_of E receiver) (rrep_dst h) True (rrep_dstSeqNo h)
      (iface_of E receiver) (ucast (rrep_hopCount h + 1)) sender (RrepHeader_GetLifeTime (unit_of_time E) h)"
    and "0 \<le> RrepHeader_GetLifeTime (unit_of_time E) h"
    and "\<forall>e\<in>set (m_queue (m_rqueue n)).
      GetDestination (qe_header e) = rrep_dst h \<longrightarrow> tag_allows E (rt_route newEntry) e"
  shows "\<exists>n'. handle_reply E now h receiver sender n = Some n'
    \<and> route_of n' (rrep_dst h) = Some newEntry
    \<and> map_of (m_addressReqTimer n') (rrep_dst h) = None
    \<and> \<not> RequestQueue_Find (rrep_dst h) (m_rqueue n')
    \<and> out n' = out n @ map dropped_report (filter (QueueEntry_IsExpired now) (m_queue (m_rqueue n)))
        @ map (handed_over (rt_route newEntry)) (filter (\<lambda>e. GetDestination (qe_header e) = rrep_dst h)
            (filter (\<lambda>e. \<not> QueueEntry_IsExpired now e) (m_queue (m_rqueue n))))"
  using search_answered [OF assms] by (auto simp: map_of_erase)

definition searching_node :: node where
  "searching_node = (node_new ns3_library)\<lparr>m_socketAddresses := [(3, test_iface)],
     m_routingTable := \<lparr>m_ipv4AddressEntry =
       [(5, (RoutingTableEntry_new 0 0 5 True 20 test_iface 0 0 100)\<lparr>rt_flag := IN_SEARCH\<rparr>)], m_badLinkLifetime = 15\<rparr>,
     m_rqueue := \<lparr>m_queue = [test_entry 1 5, test_entry 2 6], m_maxLen = 8, m_queueTimeout = 30\<rparr>,
     m_addressReqTimer := [(5, 50)]\<rparr>"

theorem reply_completes_discovery_witness:
  "\<exists>n' rt'. handle_reply test_env 0 \<lparr>rrep_flags = 0, rrep_prefixSize = 0, rrep_hopCount = 2, rrep_dst = 5,
       rrep_dstSeqNo = 9, rrep_origin = 0x0a000001, rrep_lifeTime = 100\<rparr> 0x0a000001 8 searching_node = Some n'
     \<and> route_of n' 5 = Some rt' \<and> rt_seqNo rt' = 9 \<and> \<not> RequestQueue_Find 5 (m_rqueue n')
     \<and> length (out n') = 1"
proof -
  let ?h = "\<lparr>rrep_flags = 0, rrep_prefixSize = 0, rrep_hopCount = 2, rrep_dst = 5,
       rrep_dstSeqNo = 9, rrep_origin = 0x0a000001, rrep_lifeTime = 100\<rparr> :: RrepHeader"
  let ?rt = "(RoutingTableEntry_new 0 0 5 True 20 test_iface 0 0 100)\<lparr>rt_flag := IN_SEARCH\<rparr>"
  have wf: "RoutingTable_wf (m_routingTable searching_node)"
    by (simp add: searching_node_def RoutingTable_wf_def map_ok_Cons GetDestinationOf_def RoutingTableEntry_new_def)
  have own: "IsMyOwnAddress searching_node (rrep_origin ?h)"
    by (simp add: searching_node_def IsMyOwnAddress_def test_iface_def)
  have route: "route_of (aged 0 searching_node) (rrep_dst ?h) = Some ?rt"
    using wf by (simp add: route_of_def aged_def table_map_Purge age_entry_def GetLifeTime_def)
      (simp add: searching_node_def table_map_def age_entry_def GetLifeTime_def)
  have tags: "\<forall>e\<in>set (m_queue (m_rqueue searching_node)). tag_allows test_env r e" for r
    by (simp add: searching_node_def tag_allows_def test_entry_def QueueEntry_new_def)
  have queue: "filter (QueueEntry_IsExpired 0) (m_queue (m_rqueue searching_node)) = []"
    "length (filter (\<lambda>e. GetDestination (qe_header e) = 5)
        (filter (\<lambda>e. \<not> QueueEntry_IsExpired 0 e) (m_queue (m_rqueue searching_node)))) = 1"
    "out searching_node = []"
    by (simp_all add: searching_node_def test_entry_def QueueEntry_new_def QueueEntry_IsExpired_def
        QueueEntry_GetExpireTime_def node_new_def Let_def)
  have "\<not> RrepHeader_GetAckRequired ?h" "0 \<le> RrepHeader_GetLifeTime (unit_of_time test_env) ?h"
    by (simp_all add: RrepHeader_GetAckRequired_def get_flag_def RrepHeader_GetLifeTime_def test_env_def nanoseconds_def)
  from reply_completes_discovery [where receiver = "0x0a000001" and sender = 8, OF wf own _ this(1) route _ refl this(2)]
    tags queue show ?thesis
    by fastforce
qed

section \<open>The requests of others\<close>

text \<open>The RREQ messages among the new effects all satisfy a predicate.\<close>

definition rreqs :: "(socket \<Rightarrow> RreqHeader \<Rightarrow> ipv4addr \<Rightarrow> bool) \<Rightarrow> node \<Rightarrow> node \<Rightarrow> bool" where
  "rreqs Q n0 n \<longleftrightarrow> (\<exists>es. out n = out n0 @ es \<and> (\<forall>s h a. SendTo s (Rreq h) a \<in> set es \<longrightarrow> Q s h a))"

interpretation requests: evolution "\<lambda>n::node. True" "rreqs Q" for Q
proof
  show "rreqs Q s s" for s by (simp add: rreqs_def)
  show "rreqs Q a c" if "rreqs Q a b" "rreqs Q b c" for a b c
    using that by (fastforce simp: rreqs_def)
qed simp

lemma rreqs_frame [simp]:
  "rreqs Q n0 (n\<lparr>m_seqNo := v\<rparr>) = rreqs Q n0 n"
  "rreqs Q n0 (n\<lparr>m_rreqIdCache := c\<rparr>) = rreqs Q n0 n"
  "rreqs Q n0 (n\<lparr>m_nb := nb\<rparr>) = rreqs Q n0 n"
  "rreqs Q n0 (aged now n) = rreqs Q n0 n"
  "rreqs Q n0 (update_route rt n) = rreqs Q n0 n"
  "rreqs Q n0 (add_route now rt n) = rreqs Q n0 n"
  "rreqs Q n0 (start_hello_timer E now k n) = rreqs Q n0 n"
  by (simp_all add: rreqs_def start_hello_timer_def)

lemma rreqs_quiet: "rerr_only n m \<Longrightarrow> rreqs Q n0 n \<Longrightarrow> rreqs Q n0 m"
  by (fastforce simp: rerr_only_def rreqs_def)

lemma rreqs_emit: "rreqs Q n0 n \<Longrightarrow> (\<And>s h a. e = SendTo s (Rreq h) a \<Longrightarrow> Q s h a) \<Longrightarrow> rreqs Q n0 (emit e n)"
  by (fastforce simp: rreqs_def emit_def)

lemma rreqs_send_on:
  "send_on i m a n = Some n' \<Longrightarrow> rreqs Q n0 n \<Longrightarrow> (\<And>s h. m = Rreq h \<Longrightarrow> Q s h a) \<Longrightarrow> rreqs Q n0 n'"
  by (auto simp: send_on_def split: option.splits intro!: rreqs_emit)

lemma rreqs_SendReply: "SendReply E h rt n = Some n' \<Longrightarrow> rreqs Q n0 n \<Longrightarrow> rreqs Q n0 n'"
  by (auto simp: SendReply_def Let_def split: if_splits elim!: rreqs_send_on)

lemma rreqs_intermediate:
  "SendReplyByIntermediateNode E now a b g n = Some n' \<Longrightarrow> rreqs Q n0 n \<Longrightarrow> rreqs Q n0 n'"
  by (auto simp: SendReplyByIntermediateNode_def lookup_route_eq Let_def
      split: if_splits Option.bind_splits elim!: rreqs_send_on)

text \<open>When a RREQ from \<open>origin\<close> may be repeated: by a backbone node, for a live client neighbour.\<close>

definition may_repeat :: "time \<Rightarrow> ipv4addr \<Rightarrow> node \<Rightarrow> bool" where
  "may_repeat now origin n \<longleftrightarrow> m_localNodeStatus (cluster n) = NEIGH_NODE
     \<and> (\<exists>nt. FindNeighborTuple origin (m_nb n) = Some nt \<and> neighborClient nt \<and> \<not> CloseOneHopNeighbor now nt)"

lemma rreqs_rebroadcast:
  assumes "rebroadcast E now h js n = Some n'" "Neighbors_wf (m_nb n)" "rreqs Q n0 n"
    and "\<forall>j\<in>set js. may_repeat now (rreq_origin h) n \<longrightarrow> Q (fst j) h (broadcast_of (snd j))"
  shows "rreqs Q n0 n'"
  using assms
proof (induction js arbitrary: n)
  case (Cons j js)
  show ?case
  proof (cases "m_localNodeStatus (cluster n) = NEIGH_NODE")
    case False
    with Cons.prems show ?thesis by simp
  next
    case True
    with Cons.prems(1) obtain b n1 where 1: "nb_is_neighbor E now (rreq_origin h) n = Some (b, n1)"
      by (auto split: Option.bind_splits)
    note spec = nb_is_neighbor_spec [OF 1]
    have n1: "rreqs Q n0 n1" "cluster n1 = cluster n"
      using rreqs_quiet [OF spec(3)] Cons.prems(3) spec(3)
      by (auto simp: rerr_only_def)
    show ?thesis
    proof (cases "b \<and> neighborClient (the (FindNeighborTuple (rreq_origin h) (m_nb n1)))")
      case False
      with Cons.prems(1) True 1 n1 show ?thesis by (auto split: Option.bind_splits if_splits)
    next
      case client: True
      then obtain nt where nt: "FindNeighborTuple (rreq_origin h) (m_nb n1) = Some nt" "neighborClient nt"
        using spec(2) by auto
      have "FindNeighborTuple (rreq_origin h) (m_nb n) = Some nt \<and> \<not> CloseOneHopNeighbor now nt"
        using nt(1) unfolding spec(1) find_Purge [OF Cons.prems(2)] by (auto split: option.splits if_splits)
      then have gate: "may_repeat now (rreq_origin h) n" using nt(2) True by (auto simp: may_repeat_def)
      let ?n = "emit (SendTo (fst j) (Rreq h) (broadcast_of (snd j))) n1"
      have "rebroadcast E now h js ?n = Some n'"
        using Cons.prems(1) True 1 client nt by (auto split: if_splits)
      moreover have "Neighbors_wf (m_nb ?n)"
        using Purge_wf [OF Cons.prems(2)] spec(1) by (simp add: emit_def)
      ultimately show ?thesis
        using gate Cons.prems(4) n1(1) by (intro Cons.IH [of ?n]) (auto intro!: rreqs_emit)
    qed
  qed
qed simp

lemma rreqs_reply_with_route:
  assumes "reply_with_route E now h s a b n = Some n'" "rreqs Q n0 n"
  shows "rreqs Q n0 n'"
proof -
  have "rreqs Q n0 n1" if "nb_is_neighbor E now s n = Some (known, n1)" for known n1
    by (rule rreqs_quiet [OF nb_is_neighbor_spec(3) [OF that]]) (simp add: assms(2))
  with assms show ?thesis
    by (auto simp: reply_with_route_def Let_def split: if_splits Option.bind_splits elim!: rreqs_intermediate)
qed

lemma rreqs_forward:
  "forward_request E now h n = Some n' \<Longrightarrow> Neighbors_wf (m_nb n) \<Longrightarrow> rreqs Q n0 n
   \<Longrightarrow> \<forall>j\<in>set (m_socketAddresses n). may_repeat now (rreq_origin h) n \<longrightarrow> Q (fst j) h (broadcast_of (snd j)) \<Longrightarrow> rreqs Q n0 n'"
  by (auto simp: forward_request_def elim!: rreqs_rebroadcast)

lemma reverse_frame:
  assumes "reverse_route E now h r s n = (m, old)"
  shows "m_nb m = m_nb n" "cluster m = cluster n" "rreqs Q n0 m = rreqs Q n0 n" "par m = par n"
    "m_socketAddresses m = m_socketAddresses n" "out m = out n"
  using assms by (auto simp: reverse_route_def lookup_route_eq Let_def split: option.splits)

text \<open>Ageing keeps an entry's interface and next hop, and never removes an entry that is valid.\<close>

lemma route_of_aged:
  "RoutingTable_wf (m_routingTable n) \<Longrightarrow> route_of (aged now n) a =
     Option.bind (route_of n a) (age_entry (m_badLinkLifetime (m_routingTable n)) now)"
  by (simp add: route_of_def aged_def table_map_Purge)

text \<open>The entry a request leaves for the way back, new or changed.\<close>

lemma reverse_route_entry:
  assumes "RoutingTable_wf (m_routingTable n)" and "reverse_route E now h receiver src n = (m, old)"
  shows "\<exists>e. GetDestinationOf e = rreq_origin h \<and> rt_iface e = iface_of E receiver \<and> GetNextHop e = src
      \<and> route_of m = (route_of (aged now n))(rreq_origin h \<mapsto> reset_rreq e) \<and> (rt_flag e = VALID \<or> old = e)"
proof (cases "route_of (aged now n) (rreq_origin h)")
  case None
  define e where "e = RoutingTableEntry_new now (device_of E receiver) (rreq_origin h) True
    (rreq_originSeqNo h) (iface_of E receiver) (ucast (rreq_hopCount h)) src (reverse_lifetime n (rreq_hopCount h))"
  from None assms(2) have "m = add_route now e (aged now n)"
    by (auto simp: reverse_route_def lookup_route_eq e_def Let_def reverse_lifetime_def)
  with None show ?thesis using route_of_add [OF assms(1), of now e] by (intro exI [of _ e]) (simp add: e_def)
next
  case (Some rt)
  note wf = aged_wf [OF assms(1), of now]
  from Some have d: "GetDestinationOf rt = rreq_origin h"
    using wf by (auto simp: route_of_def table_map_def RoutingTable_wf_def dest!: map_of_SomeD)
  from Some assms(2) have m: "m = update_route old (aged now n)"
    by (simp add: reverse_route_def lookup_route_eq Let_def) blast
  have "GetDestinationOf old = rreq_origin h" "rt_iface old = iface_of E receiver" "GetNextHop old = src"
    using Some assms(2) d by (auto simp: reverse_route_def lookup_route_eq Let_def SetLifeTime_def SetOutputDevice_def
        SetNextHop_def GetDestinationOf_def GetNextHop_def)
  with Some m show ?thesis using route_of_update [OF wf, of old] by (intro exI [of _ old]) simp
qed

lemma reverse_route_spec:
  assumes wf: "RoutingTable_wf (m_routingTable n)" and rev: "reverse_route E now h receiver src n = (m, old)"
  shows "RoutingTable_wf (m_routingTable m)"
    and "a \<noteq> rreq_origin h \<Longrightarrow> route_of (aged now m) a = route_of (aged now n) a"
    and "rt = found (route_of (aged now m) (rreq_origin h)) old \<Longrightarrow>
      rt_iface rt = iface_of E receiver \<and> GetNextHop rt = src \<and> GetDestinationOf rt = rreq_origin h"
proof -
  note wf1 = aged_wf [OF wf, of now]
  show wfm: "RoutingTable_wf (m_routingTable m)"
    using rev wf1 by (auto simp: reverse_route_def lookup_route_eq Let_def add_route_def update_route_def
        RoutingTable_wf_AddRoute RoutingTable_wf_Update split: option.splits)
  obtain e where e: "rt_iface e = iface_of E receiver" "GetNextHop e = src"
    "route_of m = (route_of (aged now n))(rreq_origin h \<mapsto> reset_rreq e)"
    "rt_flag e = VALID \<or> old = e" "GetDestinationOf e = rreq_origin h"
    using reverse_route_entry [OF wf rev] by blast
  have bad: "m_badLinkLifetime (m_routingTable m) = m_badLinkLifetime (m_routingTable n)"
    using rev by (auto simp: reverse_route_def lookup_route_eq Let_def aged_def add_route_def update_route_def
        AddRoute_def RoutingTable_Update_def RTable_Purge_frame split: option.splits)
  show "a \<noteq> rreq_origin h \<Longrightarrow> route_of (aged now m) a = route_of (aged now n) a"
  proof -
    assume "a \<noteq> rreq_origin h"
    then have "route_of (aged now m) a =
        Option.bind (route_of (aged now n) a) (age_entry (m_badLinkLifetime (m_routingTable (aged now n))) now)"
      by (simp add: route_of_aged [OF wfm] e(3) bad) (simp add: aged_def RTable_Purge_frame)
    then show ?thesis
      using route_of_aged [OF wf1, of now a] route_of_aged_twice [OF wf, of now] by simp
  qed
  have reset: "rt_iface (reset_rreq e) = rt_iface e" "rt_route (reset_rreq e) = rt_route e"
    "rt_flag (reset_rreq e) = rt_flag e"
    by (simp_all add: reset_rreq_def)
  assume rt: "rt = found (route_of (aged now m) (rreq_origin h)) old"
  show "rt_iface rt = iface_of E receiver \<and> GetNextHop rt = src \<and> GetDestinationOf rt = rreq_origin h"
  proof (cases "age_entry (m_badLinkLifetime (m_routingTable m)) now (reset_rreq e)")
    case None
    then have "rt = old" using rt by (simp add: route_of_aged [OF wfm] e(3) found_def)
    moreover have "rt_flag e = INVALID" using None reset(3) by (simp add: age_dead)
    ultimately show ?thesis using e by auto
  next
    case (Some x)
    then have "rt = x" using rt by (simp add: route_of_aged [OF wfm] e(3) found_def)
    with age_fields [OF Some] reset e show ?thesis by (simp add: GetNextHop_def GetDestinationOf_def)
  qed
qed

text \<open>The header a node repeats: one more hop, and the number of the node's own entry for the destination,
  with the flag for an unknown number cleared, when that number is valid and not older than the one asked for.\<close>

definition repeat_header :: "RoutingTableEntry option \<Rightarrow> RreqHeader \<Rightarrow> RreqHeader" where
  "repeat_header r h =
     (case r of
        None \<Rightarrow> h\<lparr>rreq_hopCount := rreq_hopCount h + 1\<rparr>
      | Some toDst \<Rightarrow>
          if rt_validSeqNo toDst
             \<and> (RreqHeader_GetUnknownSeqno h \<or> seqno_diff (rt_seqNo toDst) (rreq_dstSeqNo h) \<ge> 0)
          then RreqHeader_SetUnknownSeqno False
                 (h\<lparr>rreq_hopCount := rreq_hopCount h + 1, rreq_dstSeqNo := rt_seqNo toDst\<rparr>)
          else h\<lparr>rreq_hopCount := rreq_hopCount h + 1\<rparr>)"

lemma repeat_header_fields [simp]:
  "rreq_dst (repeat_header r h) = rreq_dst h" "rreq_requestID (repeat_header r h) = rreq_requestID h"
  "rreq_origin (repeat_header r h) = rreq_origin h" "rreq_originSeqNo (repeat_header r h) = rreq_originSeqNo h"
  "rreq_hopCount (repeat_header r h) = rreq_hopCount h + 1"
  by (simp_all add: repeat_header_def RreqHeader_SetUnknownSeqno_def split: option.split)

lemma rreqs_answer:
  assumes "answer_request E now h receiver src n = Some n'"
    and rev: "reverse_route E now (h\<lparr>rreq_hopCount := rreq_hopCount h + 1\<rparr>) receiver src n = (m, old)"
    and r: "r = route_of (aged now m) (rreq_dst h)" and m: "rreqs Q n0 m" "Neighbors_wf (m_nb m)"
    and Q: "\<forall>j\<in>set (m_socketAddresses m). may_repeat now (rreq_origin h) m
      \<longrightarrow> Q (fst j) (repeat_header r h) (broadcast_of (snd j))"
  shows "rreqs Q n0 n'"
proof -
  let ?h = "h\<lparr>rreq_hopCount := rreq_hopCount h + 1\<rparr>"
  have unknown: "RreqHeader_GetUnknownSeqno ?h = RreqHeader_GetUnknownSeqno h"
    by (simp add: RreqHeader_GetUnknownSeqno_def)
  have kept: "rreqs Q n0 (aged now m)" "rreqs Q n0 (aged now (aged now m))" using m(1) by simp_all
  have fwd: "rreqs Q n0 n'" if "forward_request E now (repeat_header r h) (aged now m) = Some n'"
    by (rule rreqs_forward [OF that]) (use m Q in \<open>simp_all add: may_repeat_def\<close>)
  note ans = assms(1) [unfolded answer_request_def Let_def rev prod.case lookup_route_eq] unknown
  show ?thesis
  proof (cases "IsMyOwnAddress m (rreq_dst h)")
    case True
    with ans show ?thesis by (auto intro: rreqs_SendReply [OF _ kept(1)])
  next
    case other: False
    show ?thesis
    proof (cases r)
      case None
      with ans other r have "forward_request E now ?h (aged now m) = Some n'" by simp
      then show ?thesis using fwd by (simp add: None repeat_header_def)
    next
      case (Some toDst)
      note ans' = ans other Some [unfolded r]
      have hdr: "repeat_header r h = (if rt_validSeqNo toDst
          \<and> (RreqHeader_GetUnknownSeqno h \<or> seqno_diff (rt_seqNo toDst) (rreq_dstSeqNo h) \<ge> 0)
          then RreqHeader_SetUnknownSeqno False (?h\<lparr>rreq_dstSeqNo := rt_seqNo toDst\<rparr>) else ?h)"
        by (simp add: Some repeat_header_def)
      consider "GetNextHop toDst = src"
        | "GetNextHop toDst \<noteq> src" "IsMalicious (par m)"
        | "GetNextHop toDst \<noteq> src" "\<not> IsMalicious (par m)" "rt_validSeqNo toDst"
          "RreqHeader_GetUnknownSeqno h \<or> seqno_diff (rt_seqNo toDst) (rreq_dstSeqNo h) \<ge> 0"
          "\<not> RreqHeader_GetDestinationOnly ?h" "rt_flag toDst = VALID"
        | "forward_request E now (repeat_header r h) (aged now m) = Some n'"
        using ans' unfolding hdr by (auto split: if_splits)
      then show ?thesis
      proof cases
        case 2
        with ans' show ?thesis by (auto intro: rreqs_intermediate [OF _ kept(2)])
      next
        case 3
        with ans' show ?thesis by (auto intro: rreqs_reply_with_route [OF _ kept(2)])
      qed (use ans' kept(1) fwd in auto)
    qed
  qed
qed

text \<open>C23: Which requests a node repeats, and how. A RREQ that \<open>RecvRequest\<close> broadcasts goes out on one of the
  node's own sockets to that interface's broadcast address. It is the one received with one more hop
  (modulo 256), unless the node has an entry for the destination with a valid number that is not older than the
  one asked for (or none was asked for): then it carries that number, and its flag for an unknown number is
  cleared. It is broadcast only by a backbone node, and only while the request's originator itself is
  a live neighbour associated with this node: a request whose originator is further away is never
  repeated.\<close>

theorem request_rebroadcast_gate:
  assumes "RoutingTable_wf (m_routingTable n)" and "Neighbors_wf (m_nb n)"
    and "handle_request E now h receiver src n = Some n'"
  shows "\<exists>es. out n' = out n @ es \<and> (\<forall>s h' a. SendTo s (Rreq h') a \<in> set es \<longrightarrow>
      (\<exists>iface. (s, iface) \<in> set (m_socketAddresses n) \<and> a = broadcast_of iface)
      \<and> rreq_dst h' = rreq_dst h \<and> rreq_requestID h' = rreq_requestID h \<and> rreq_origin h' = rreq_origin h
      \<and> rreq_originSeqNo h' = rreq_originSeqNo h \<and> rreq_hopCount h' = rreq_hopCount h + 1
      \<and> (rreq_dst h \<noteq> rreq_origin h \<longrightarrow> h' = repeat_header (route_of (aged now n) (rreq_dst h)) h)
      \<and> m_localNodeStatus (cluster n) = NEIGH_NODE
      \<and> (\<exists>nt. FindNeighborTuple (rreq_origin h) (m_nb n) = Some nt \<and> neighborClient nt
           \<and> now \<le> m_expireTime nt \<and> \<not> nt_close nt))"
proof -
  let ?h = "h\<lparr>rreq_hopCount := rreq_hopCount h + 1\<rparr>"
  obtain d c where dc: "IdCache_IsDuplicate now (rreq_origin h) (rreq_requestID h) (m_rreqIdCache (aged now n)) = (d, c)"
    by fastforce
  let ?n = "(aged now n)\<lparr>m_rreqIdCache := c\<rparr>"
  obtain m old where rev: "reverse_route E now ?h receiver src ?n = (m, old)" by fastforce
  define r where "r = route_of (aged now m) (rreq_dst h)"
  have r: "r = route_of (aged now n) (rreq_dst h)" if "rreq_dst h \<noteq> rreq_origin h"
  proof -
    have "route_of (aged now ?n) = route_of (aged now (aged now n))" by (simp add: aged_def route_of_def fun_eq_iff)
    then show ?thesis
      using reverse_route_spec(2) [OF _ rev, of "rreq_dst h"] that aged_wf [OF assms(1), of now]
      by (simp add: r_def route_of_aged_twice [OF assms(1)])
  qed
  define Q where "Q s h' a \<longleftrightarrow> (\<exists>iface. (s, iface) \<in> set (m_socketAddresses n) \<and> a = broadcast_of iface)
    \<and> h' = repeat_header r h \<and> may_repeat now (rreq_origin h) n" for s a and h' :: RreqHeader
  have start: "rreqs Q n n" by (simp add: rreqs_def)
  have m: "rreqs Q n m" "Neighbors_wf (m_nb m)" "\<forall>j\<in>set (m_socketAddresses m). may_repeat now (rreq_origin h) m
      \<longrightarrow> Q (fst j) (repeat_header r h) (broadcast_of (snd j))"
    using start assms(2) by (auto simp: Q_def may_repeat_def reverse_frame [OF rev])
  have "rreqs Q n n'"
    using assms(3) start rreqs_answer [OF _ rev r_def m] unfolding handle_request_def lookup_route_eq Let_def prod.case dc
    by (auto split: if_splits option.splits)
  then obtain es where es: "out n' = out n @ es" "\<forall>s h' a. SendTo s (Rreq h') a \<in> set es \<longrightarrow> Q s h' a"
    by (auto simp: rreqs_def)
  then have q: "(\<exists>iface. (s, iface) \<in> set (m_socketAddresses n) \<and> a = broadcast_of iface)
      \<and> h' = repeat_header r h \<and> may_repeat now (rreq_origin h) n" if "SendTo s (Rreq h') a \<in> set es" for s h' a
    using that by (simp add: Q_def)
  show ?thesis
    by (intro exI [of _ es] conjI es(1) allI impI; drule q; elim conjE)
      (simp_all add: r may_repeat_def CloseOneHopNeighbor_def not_less)
qed

text \<open>A backbone node whose client 9 is alive.\<close>

definition backbone_node :: node where
  "backbone_node = (node_new ns3_library)\<lparr>m_socketAddresses := [(3, test_iface)],
     m_nb := (Neighbors_SetCallback (Neighbors_new 6))\<lparr>localNeighborList :=
       [(NeighborTuple_new ns3_library 9 0 100)\<lparr>neighborClient := True\<rparr>]\<rparr>,
     cluster := Clustering_new\<lparr>m_localNodeStatus := NEIGH_NODE\<rparr>\<rparr>"

definition test_request :: RreqHeader where
  "test_request = \<lparr>rreq_flags = 0, rreq_reserved = 0, rreq_hopCount = 0, rreq_requestID = 1, rreq_dst = 77,
     rreq_dstSeqNo = 0, rreq_origin = 9, rreq_originSeqNo = 5\<rparr>"

fun is_rreq_to :: "socket \<Rightarrow> ipv4addr \<Rightarrow> effect \<Rightarrow> bool" where
  "is_rreq_to s a (SendTo s' (Rreq h) a') \<longleftrightarrow> s = s' \<and> a = a'"
| "is_rreq_to s a _ = False"

lemma is_rreq_toD: "is_rreq_to s a e \<Longrightarrow> \<exists>h. e = SendTo s (Rreq h) a"
  by (cases "(s, a, e)" rule: is_rreq_to.cases) auto

theorem request_rebroadcast_gate_witness:
  "\<exists>n'. handle_request test_env 0 test_request 0x0a000001 9 backbone_node = Some n'
     \<and> SendTo 3 (Rreq (test_request\<lparr>rreq_hopCount := 1\<rparr>)) 0x0affffff \<in> set (out n')"
proof -
  have wf: "RoutingTable_wf (m_routingTable backbone_node)" "Neighbors_wf (m_nb backbone_node)"
    by (simp_all add: backbone_node_def Neighbors_wf_def Neighbors_SetCallback_def Neighbors_new_def NeighborTuple_new_def
        node_new_def RoutingTable_wf_def RoutingTable_new_def params_default_def ns3_library_def Let_def)
  have out: "out backbone_node = []" by (simp add: backbone_node_def node_new_def Let_def)
  have none: "route_of (aged 0 backbone_node) 77 = None" by code_simp
  have h: "rreq_dst test_request = 77" "rreq_origin test_request = 9" "rreq_hopCount test_request = 0"
    by (simp_all add: test_request_def)
  have "case handle_request test_env 0 test_request 0x0a000001 9 backbone_node of None \<Rightarrow> False
     | Some n' \<Rightarrow> list_ex (is_rreq_to 3 0x0affffff) (out n')"
    by code_simp
  then obtain n' h' where n': "handle_request test_env 0 test_request 0x0a000001 9 backbone_node = Some n'"
    "SendTo 3 (Rreq h') 0x0affffff \<in> set (out n')"
    by (auto simp: list_ex_iff dest!: is_rreq_toD split: option.splits)
  with request_rebroadcast_gate [OF wf n'(1)] have "h' = test_request\<lparr>rreq_hopCount := 1\<rparr>"
    unfolding out h none by (fastforce simp: repeat_header_def)
  with n' show ?thesis by blast
qed

section \<open>A malicious node\<close>

lemma send_on_found:
  "FindSocketWithInterfaceAddress i n = Some s \<Longrightarrow> send_on i m a n = Some (emit (SendTo s m a) n)"
  by (simp add: send_on_def)

lemma find_socket_frame:
  "m_socketAddresses m = m_socketAddresses n \<Longrightarrow> FindSocketWithInterfaceAddress i m = FindSocketWithInterfaceAddress i n"
  by (simp add: FindSocketWithInterfaceAddress_def)

lemma malicious_reply:
  assumes "IsMalicious (par n)" and "FindSocketWithInterfaceAddress (iface_of E receiver) n = Some s"
    and "rt_iface toOrigin = iface_of E receiver" "GetNextHop toOrigin = src"
  shows "\<exists>n' hdr rest. SendReplyByIntermediateNode E now (false_route E now h receiver n) toOrigin g n = Some n'
    \<and> out n' = out n @ SendTo s (Rrep hdr) src # rest
    \<and> rrep_dst hdr = rreq_dst h \<and> rrep_hopCount hdr = 1 \<and> rrep_dstSeqNo hdr = rreq_dstSeqNo h + 100"
proof -
  have p: "rt_iface (snd (InsertPrecursor a rt)) = rt_iface rt" "GetNextHop (snd (InsertPrecursor a rt)) = GetNextHop rt"
    for a rt by (simp_all add: InsertPrecursor_def GetNextHop_def)
  have f: "FindSocketWithInterfaceAddress (iface_of E receiver) m = Some s"
    if "m_socketAddresses m = m_socketAddresses n" for m
    using find_socket_frame [OF that] assms(2) by simp
  have ack: "RrepHeader_SetAckRequired b x = x\<lparr>rrep_flags := put_flag 6 b (rrep_flags x)\<rparr>" for b x
    by (simp add: RrepHeader_SetAckRequired_def)
  show ?thesis
    using assms(1,3,4)
    by (auto simp: SendReplyByIntermediateNode_def lookup_route_eq Let_def false_route_def p send_on_found f
        emit_def ack RrepHeader_new_def)
qed


definition malicious_node :: node where
  "malicious_node = (node_new ns3_library)\<lparr>par := test_params\<lparr>IsMalicious := True\<rparr>,
     m_socketAddresses := [(3, test_iface)],
     m_routingTable := \<lparr>m_ipv4AddressEntry =
       [(77, RoutingTableEntry_new 0 1 77 True 20 test_iface 4 8 100)], m_badLinkLifetime = 15\<rparr>\<rparr>"


section \<open>Forwarding\<close>

lemma quiet_out:
  "rerr_only n0 n \<Longrightarrow> \<exists>es. out n = out n0 @ es \<and> (\<forall>e\<in>set es. \<exists>s h a. e = SendTo s (Rerr h) a)"
  by (simp add: rerr_only_def)

text \<open>The same without the neighbours, which \<open>Update\<close> changes.\<close>

lemma nb_update_out:
  assumes "nb_update E now a t n = Some n'" "out n = out n0 @ es" "\<forall>e\<in>set es. \<exists>s h a. e = SendTo s (Rerr h) a"
  shows "\<exists>es. out n' = out n0 @ es \<and> (\<forall>e\<in>set es. \<exists>s h a. e = SendTo s (Rerr h) a)"
  using quiet_out [OF nb_update_spec [OF assms(1)]] assms(2,3) by fastforce

lemma no_route_errors:
  assumes "SendRerrWhenNoRouteToForward E now dst sn origin n = Some n'"
  shows "\<exists>es. out n' = out n @ es \<and> (\<forall>e\<in>set es. \<exists>s h a sn. e = SendTo s (Rerr h) a
      \<and> m_unreachableDstSeqNo h = [(dst, sn)])"
proof -
  let ?h = "RerrHeader_new\<lparr>m_unreachableDstSeqNo := [(dst, sn)]\<rparr>"
  have h: "rerr_add dst sn RerrHeader_new = Some ?h"
    by (simp add: rerr_add_def RerrHeader_AddUnDestination_def RerrHeader_new_def RerrHeader_GetDestCount_def)
  show ?thesis
    using assms
    by (auto simp: SendRerrWhenNoRouteToForward_def h lookup_valid_route_eq send_on_def send_all_def emit_def
        split: if_splits option.splits)
qed

lemma forward_valid:
  assumes "route_of (aged now (aged now n)) (GetDestination header) = Some rt" "rt_flag rt = VALID"
    and "\<not> IsMalicious (par n)" "Forwarding E now p header ucb ecb n = Some (b, n')"
  shows "\<exists>m n1 n2 a t. rerr_only n m \<and> nb_update E now (route_gateway (rt_route rt)) t m = Some n1
    \<and> nb_update E now a t n1 = Some n2 \<and> b \<and> n' = emit (UnicastForward ucb (rt_route rt) p header) n2"
proof -
  define t where "t = ActiveRouteTimeout (par n)"
  define m3 where "m3 = snd (UpdateRouteLifeTime now (route_gateway (rt_route rt)) t
    (snd (UpdateRouteLifeTime now (GetDestination header) t
      (snd (UpdateRouteLifeTime now (GetSource header) t (aged now (aged now n)))))))"
  define a where "a = GetNextHop (entry_or_default E now (route_of (aged now m3) (GetSource header)))"
  define m where "m = snd (UpdateRouteLifeTime now a t (aged now m3))"
  have "rerr_only n m"
    unfolding m_def m3_def by (intro quiets quiet.refl TrueI)
  have "Forwarding E now p header ucb ecb n = do {
      n \<leftarrow> nb_update E now (route_gateway (rt_route rt)) t m;
      n \<leftarrow> nb_update E now a t n;
      Some (True, emit (UnicastForward ucb (rt_route rt) p header) n) }"
    using assms(1-3) unfolding Forwarding_def Let_def aged_def [symmetric]
    by (simp add: lookup_route_eq prod.case_eq_if m_def m3_def a_def t_def)
  with assms(4) obtain n1 n2 where "nb_update E now (route_gateway (rt_route rt)) t m = Some n1"
    "nb_update E now a t n1 = Some n2" "b" "n' = emit (UnicastForward ucb (rt_route rt) p header) n2"
    by (auto split: Option.bind_splits)
  with \<open>rerr_only n m\<close> show ?thesis by blast
qed

text \<open>C7: Forwarding. A node that is not malicious forwards a packet exactly when its table has a valid
  route to the destination, which is then unexpired; the packet is handed over last, unchanged and
  on that route, after nothing but route errors for neighbours found lost. Otherwise the packet is
  dropped and nothing but route errors is sent, each of them naming the packet's destination alone.\<close>

theorem forwarding_decision:
  assumes "RoutingTable_wf (m_routingTable n)" and "\<not> IsMalicious (par n)"
    and "Forwarding E now p header ucb ecb n = Some (b, n')"
  shows "(b \<longleftrightarrow> (\<exists>rt. route_of (aged now n) (GetDestination header) = Some rt \<and> rt_flag rt = VALID))
    \<and> (b \<longrightarrow> (\<exists>rt es. route_of (aged now n) (GetDestination header) = Some rt \<and> now \<le> rt_lifeTime rt
          \<and> out n' = out n @ es @ [UnicastForward ucb (rt_route rt) p header]
          \<and> (\<forall>e\<in>set es. \<exists>s h a. e = SendTo s (Rerr h) a)))
    \<and> (\<not> b \<longrightarrow> (\<exists>es. out n' = out n @ es
          \<and> (\<forall>e\<in>set es. \<exists>s h a sn. e = SendTo s (Rerr h) a
                \<and> m_unreachableDstSeqNo h = [(GetDestination header, sn)])))"
proof -
  let ?dst = "GetDestination header"
  note again = route_of_aged_twice [OF assms(1), of now]
  show ?thesis
  proof (cases "\<exists>rt. route_of (aged now n) ?dst = Some rt \<and> rt_flag rt = VALID")
    case True
    then obtain rt where rt: "route_of (aged now n) ?dst = Some rt" "rt_flag rt = VALID" by blast
    have bad: "0 \<le> m_badLinkLifetime (m_routingTable n)" using assms(1) by (simp add: RoutingTable_wf_def)
    from rt(1) obtain rt0 where "age_entry (m_badLinkLifetime (m_routingTable n)) now rt0 = Some rt"
      by (auto simp: route_of_aged [OF assms(1)] bind_eq_Some_conv)
    from age_valid [OF bad this rt(2)] have live: "now \<le> rt_lifeTime rt" by simp
    have "route_of (aged now (aged now n)) ?dst = Some rt" using rt again by simp
    from forward_valid [OF this rt(2) assms(2,3)] obtain m n1 n2 a t
      where m: "rerr_only n m" "nb_update E now (route_gateway (rt_route rt)) t m = Some n1"
        "nb_update E now a t n1 = Some n2" and b: b
        and n': "n' = emit (UnicastForward ucb (rt_route rt) p header) n2" by blast
    obtain es where "out m = out n @ es" "\<forall>e\<in>set es. \<exists>s h a. e = SendTo s (Rerr h) a"
      using quiet_out [OF m(1)] by blast
    from nb_update_out [OF m(2) this] obtain es where "out n1 = out n @ es" "\<forall>e\<in>set es. \<exists>s h a. e = SendTo s (Rerr h) a"
      by blast
    from nb_update_out [OF m(3) this] obtain es where es: "out n2 = out n @ es" "\<forall>e\<in>set es. \<exists>s h a. e = SendTo s (Rerr h) a"
      by blast
    then have "out n' = out n @ es @ [UnicastForward ucb (rt_route rt) p header]"
      by (simp add: n' emit_def)
    with b rt live es(2) show ?thesis by blast
  next
    case False
    then have "\<exists>sn. Forwarding E now p header ucb ecb n = map_option (Pair False)
        (SendRerrWhenNoRouteToForward E now ?dst sn (GetSource header) (aged now (aged now n)))"
      using assms(2) again unfolding Forwarding_def Let_def aged_def [symmetric] lookup_route_eq
      by (auto split: option.splits)
    then obtain sn where sn: "Forwarding E now p header ucb ecb n = map_option (Pair False)
        (SendRerrWhenNoRouteToForward E now ?dst sn (GetSource header) (aged now (aged now n)))" by blast
    from assms(3) [unfolded sn] have b: "\<not> b"
      and err: "SendRerrWhenNoRouteToForward E now ?dst sn (GetSource header) (aged now (aged now n)) = Some n'"
      by auto
    from no_route_errors [OF err] b False show ?thesis by simp
  qed
qed

definition relay_node :: node where
  "relay_node = malicious_node\<lparr>par := test_params\<rparr>"

theorem forwarding_decision_witness:
  "\<exists>n' es. Forwarding test_env 0 \<lparr>GetUid = 1, deferred_tag = None\<rparr> \<lparr>GetSource = 9, GetDestination = 77, GetTtl = 5\<rparr>
       4 5 relay_node = Some (True, n')
     \<and> out n' = es @ [UnicastForward 4 \<lparr>route_destination = 77, route_gateway = 8, route_source = 0x0a000001,
         route_device = 1\<rparr> \<lparr>GetUid = 1, deferred_tag = None\<rparr> \<lparr>GetSource = 9, GetDestination = 77, GetTtl = 5\<rparr>]"
proof -
  let ?p = "\<lparr>GetUid = 1, deferred_tag = None\<rparr>" and ?h = "\<lparr>GetSource = 9, GetDestination = 77, GetTtl = 5\<rparr>"
  have wf: "RoutingTable_wf (m_routingTable relay_node)"
    by (simp add: relay_node_def malicious_node_def RoutingTable_wf_def map_ok_Cons)
  have base: "route_of relay_node = [77 \<mapsto> RoutingTableEntry_new 0 1 77 True 20 test_iface 4 8 100]"
    "m_badLinkLifetime (m_routingTable relay_node) = 15"
    by (simp_all add: relay_node_def malicious_node_def route_of_def table_map_def fun_eq_iff)
  have routes: "route_of (aged 0 relay_node) = [77 \<mapsto> RoutingTableEntry_new 0 1 77 True 20 test_iface 4 8 100]"
    by (rule ext) (simp add: route_of_aged [OF wf] base age_entry_def GetLifeTime_def)
  have "Forwarding test_env 0 ?p ?h 4 5 relay_node \<noteq> None" by code_simp
  then obtain b n' where f: "Forwarding test_env 0 ?p ?h 4 5 relay_node = Some (b, n')" by auto
  have out0: "out relay_node = []" by (simp add: relay_node_def malicious_node_def node_new_def Let_def)
  have "\<not> IsMalicious (par relay_node)" by (simp add: relay_node_def)
  from forwarding_decision [OF wf this f] f show ?thesis
    unfolding out0 by (auto simp: routes RoutingTableEntry_new_def test_iface_def)
qed

end
