(* ===== verification/Discovery.thy ===== *)
theory Discovery
  imports Protocol_Correct
begin

text \<open>
  The course of a route discovery and of a flood: a request and a broadcast packet are handled once,
  a search ends after its retries, the destination answers, and route errors are limited.
\<close>

section \<open>Once per flood\<close>

lemma live_known:
  "t' \<le> e \<Longrightarrow> known c k = Some e \<Longrightarrow> live_until t' (known c k) \<noteq> None"
  by simp

lemma duplicate_state:
  assumes "fst (IdCache_IsDuplicate now a i c)"
  shows "snd (IdCache_IsDuplicate now a i c) = IdCache_Purge now c"
  using assms by (auto simp: IdCache_IsDuplicate_def Let_def split: if_splits)

lemma duplicate_iff:
  "IdCache_wf c \<Longrightarrow> fst (IdCache_IsDuplicate now a i c) \<longleftrightarrow> live_until now (known c (a, i)) \<noteq> None"
  by (rule IsDuplicate_abs(1))

lemma steps_remember:
  assumes "(\<lambda>x y. \<exists>E now e. now \<le> T \<and> node_step E now e x y)\<^sup>*\<^sup>* n n'" "node_wf n"
  shows "remembers T n n'"
  by (rule memory.along_run [OF assms]) (auto intro: step_remembers)

text \<open>A pair asked for the first time at \<open>t\<close> is live at \<open>t'\<close>, if the cache kept what it knew until then.\<close>

lemma asked_then_kept:
  assumes "IdCache_wf c" "\<not> fst (IdCache_IsDuplicate t a i c)" "t' \<le> t + m_lifetime c"
    and "keeps t' (snd (IdCache_IsDuplicate t a i c)) c'" "IdCache_wf c'"
  shows "fst (IdCache_IsDuplicate t' a i c')"
proof -
  have "known (snd (IdCache_IsDuplicate t a i c)) (a, i) = Some (m_lifetime c + t)"
    using assms(1,2) by (simp add: IsDuplicate_abs)
  with assms(3,4) have "known c' (a, i) = Some (m_lifetime c + t)" by (auto simp: keeps_def)
  with assms(3,5) show ?thesis by (simp add: duplicate_iff)
qed

lemma handle_request_dup:
  assumes "fst (IdCache_IsDuplicate now (rreq_origin h) (rreq_requestID h) (m_rreqIdCache n))"
  shows "\<exists>c. handle_request E now h receiver src n = Some ((aged now n)\<lparr>m_rreqIdCache := c\<rparr>)"
proof -
  obtain c where c: "IdCache_IsDuplicate now (rreq_origin h) (rreq_requestID h) (m_rreqIdCache n) = (True, c)"
    using assms by (cases "IdCache_IsDuplicate now (rreq_origin h) (rreq_requestID h) (m_rreqIdCache n)") auto
  have id: "(aged now n)\<lparr>m_rreqIdCache := m_rreqIdCache n\<rparr> = aged now n"
    by (simp add: aged_def)
  have cache: "m_rreqIdCache (aged now n) = m_rreqIdCache n" by (simp add: aged_def)
  show ?thesis
  proof (cases "\<exists>rt. route_of (aged now n) src = Some rt \<and> rt_blackListState rt")
    case True
    then have "handle_request E now h receiver src n = Some (aged now n)"
      by (auto simp: handle_request_def lookup_route_eq)
    then show ?thesis using id by metis
  next
    case False
    then have "handle_request E now h receiver src n = Some ((aged now n)\<lparr>m_rreqIdCache := c\<rparr>)"
      by (auto simp: handle_request_def lookup_route_eq cache c Let_def split: option.splits)
    then show ?thesis by blast
  qed
qed

lemma handle_request_new:
  assumes "\<forall>rt. route_of (aged now n) src = Some rt \<longrightarrow> \<not> rt_blackListState rt"
    and "\<not> fst (IdCache_IsDuplicate now (rreq_origin h) (rreq_requestID h) (m_rreqIdCache n))"
  shows "handle_request E now h receiver src n = answer_request E now h receiver src
    ((aged now n)\<lparr>m_rreqIdCache := snd (IdCache_IsDuplicate now (rreq_origin h) (rreq_requestID h) (m_rreqIdCache n))\<rparr>)"
proof -
  have cache: "m_rreqIdCache (aged now n) = m_rreqIdCache n" by (simp add: aged_def)
  show ?thesis
    using assms by (auto simp: handle_request_def lookup_route_eq cache Let_def prod.case_eq_if split: option.splits)
qed

text \<open>C8: A request is acted upon once. After a request is accepted at time \<open>t\<close> (its sender is not
  blacklisted, its originator and number are not known), whatever happens to the node up to \<open>t'\<close>,
  within the lifetime of the request cache, a request with that originator and number, from whatever
  neighbour, with whatever other fields, is silently discarded: nothing is sent, no route is made or
  changed beyond the table's purge, and neither sequence number nor neighbours change.\<close>

theorem flood_once:
  assumes "reachable L p t0 n" and "0 < MaxQueueLen p" and "0 \<le> Seconds L 3"
    and "\<forall>rt. route_of (aged t n) src = Some rt \<longrightarrow> \<not> rt_blackListState rt"
    and "\<not> fst (IdCache_IsDuplicate t (rreq_origin h) (rreq_requestID h) (m_rreqIdCache n))"
    and "handle_request E t h receiver src n = Some n1"
    and "(\<lambda>x y. \<exists>E now e. now \<le> t' \<and> node_step E now e x y)\<^sup>*\<^sup>* n1 n2"
    and "t' \<le> t + m_lifetime (m_rreqIdCache n)"
    and "rreq_origin h' = rreq_origin h" and "rreq_requestID h' = rreq_requestID h"
  shows "\<exists>c. handle_request E' t' h' receiver' src' n2 = Some ((aged t' n2)\<lparr>m_rreqIdCache := c\<rparr>)"
proof -
  let ?c = "snd (IdCache_IsDuplicate t (rreq_origin h) (rreq_requestID h) (m_rreqIdCache n))"
  let ?m = "(aged t n)\<lparr>m_rreqIdCache := ?c\<rparr>"
  have wf: "node_wf n" by (rule reachable_node_wf [OF assms(1-3)])
  have m: "node_wf ?m"
    using growth.ok_after [OF growth.R_small(1) [OF growth.refl [OF wf]]] node_wf_parts(4) [OF wf]
    by (auto intro: node_wf_field IsDuplicate_abs(3))
  have "answer_request E t h receiver src ?m = Some n1"
    using assms(6) handle_request_new [OF assms(4,5)] by simp
  from memory.R_answer_request [OF this memory.refl [OF m]] have 1: "remembers t' ?m n1" .
  from memory.trans [OF this steps_remember [OF assms(7) memory.ok_after [OF this]]]
  have "remembers t' ?m n2" .
  then have "fst (IdCache_IsDuplicate t' (rreq_origin h') (rreq_requestID h') (m_rreqIdCache n2))"
    using assms(9,10) node_wf_parts(4)
    by (auto simp: remembers_def intro!: asked_then_kept [OF node_wf_parts(4) [OF wf] assms(5,8)])
  then show ?thesis by (rule handle_request_dup)
qed

lemma test_node_request:
  "case handle_request test_env 0 test_request 0x0a000001 9 test_node of None \<Rightarrow> False | Some n1 \<Rightarrow> True"
  "\<not> fst (IdCache_IsDuplicate 0 (rreq_origin test_request) (rreq_requestID test_request) (m_rreqIdCache test_node))"
  "1 \<le> m_lifetime (m_rreqIdCache test_node)"
  "route_of (aged 0 test_node) 9 = None"
  by code_simp+

theorem flood_once_witness:
  "\<exists>n1 n2 c. handle_request test_env 0 test_request 0x0a000001 9 test_node = Some n1
     \<and> node_step test_env 1 (Receive 3 9 [9]) n1 n2
     \<and> handle_request test_env 1 test_request 0x0a000001 8 n2 = Some ((aged 1 n2)\<lparr>m_rreqIdCache := c\<rparr>)"
proof -
  obtain n1 where n1: "handle_request test_env 0 test_request 0x0a000001 9 test_node = Some n1"
    using test_node_request(1) by (auto split: option.splits)
  obtain n2 where n2: "node_step test_env 1 (Receive 3 9 [9]) n1 n2" using unknown_type_step by blast
  then have "(\<lambda>x y. \<exists>E now e. now \<le> 1 \<and> node_step E now e x y)\<^sup>*\<^sup>* n1 n2" by blast
  from flood_once [OF test_node_reachable _ _ _ test_node_request(2) n1 this _ refl refl] n1 n2 show ?thesis
    using test_node_request(3,4) by (fastforce simp: ns3_library_def)
qed

lemma deliver_out:
  "out (deliver lcb ecb p h iif n) = out n @ [if lcb \<noteq> 0 then LocalDeliver lcb p h iif else ErrorReport ecb p h]"
  "par (deliver lcb ecb p h iif n) = par n"
  by (simp_all add: deliver_def emit_def)

lemma lifetime_update_frame:
  "out (snd (UpdateRouteLifeTime now a lt n)) = out n" "par (snd (UpdateRouteLifeTime now a lt n)) = par n"
  by (auto simp: UpdateRouteLifeTime_def lookup_route_eq Let_def split: option.splits)

text \<open>C9: A flooded data packet is taken once. The first copy of a broadcast packet is handed to the local
  callback (or reported to the error callback when there is none) and is passed on at most once, and
  only when broadcasts are enabled, its TTL allows it and the table has a route for the broadcast
  address; every later copy, recognised by its source address and the lower 32 bits of its uid, within
  the lifetime of the duplicate detection and whatever happened in between, is neither delivered nor
  passed on nor changes anything but that cache.\<close>

theorem broadcast_once:
  assumes "reachable L q t0 n" and "0 < MaxQueueLen q" and "0 \<le> Seconds L 3"
    and "\<not> fst (Dpd_IsDuplicate t p h (m_dpd n))"
    and "n1 = broadcast_input E t p h iif ucb lcb ecb n"
    and "(\<lambda>x y. \<exists>E now e. now \<le> t' \<and> node_step E now e x y)\<^sup>*\<^sup>* n1 n2"
    and "t' \<le> t + m_lifetime (m_dpd n)"
    and "GetSource h' = GetSource h" and "(ucast (GetUid p') :: u32) = ucast (GetUid p)"
  shows "(\<exists>es. out n1 = out n @ (if lcb \<noteq> 0 then LocalDeliver lcb p h iif else ErrorReport ecb p h) # es
      \<and> (es = [] \<or> EnableBroadcast (par n) \<and> 1 < GetTtl h \<and> (\<exists>r. es = [UnicastForward ucb r p h])))
    \<and> (\<exists>c. broadcast_input E' t' p' h' iif' ucb' lcb' ecb' n2 = n2\<lparr>m_dpd := c\<rparr>)"
proof -
  have wf: "node_wf n" by (rule reachable_node_wf [OF assms(1-3)])
  obtain c where new: "Dpd_IsDuplicate t p h (m_dpd n) = (False, c)"
    using assms(4) by (cases "Dpd_IsDuplicate t p h (m_dpd n)") simp
  then have c: "c = snd (IdCache_IsDuplicate t (GetSource h) (ucast (GetUid p)) (m_dpd n))"
    by (simp add: Dpd_IsDuplicate_def)
  let ?u = "snd (UpdateRouteLifeTime t (GetSource h) (ActiveRouteTimeout (par n)) (n\<lparr>m_dpd := c\<rparr>))"
  have first: "n1 = (let m = deliver lcb ecb p h iif ?u
      in if EnableBroadcast (par n) \<and> 1 < GetTtl h
         then (case route_of (aged t m) (GetDestination h) of None \<Rightarrow> aged t m
               | Some rt \<Rightarrow> emit (UnicastForward ucb (rt_route rt) p h) (aged t m))
         else m)"
    by (simp add: assms(5) broadcast_input_def new lookup_route_eq Let_def prod.case_eq_if deliver_out
        lifetime_update_frame)
  have sent: "\<exists>es. out n1 = out n @ (if lcb \<noteq> 0 then LocalDeliver lcb p h iif else ErrorReport ecb p h) # es
      \<and> (es = [] \<or> EnableBroadcast (par n) \<and> 1 < GetTtl h \<and> (\<exists>r. es = [UnicastForward ucb r p h]))"
    unfolding first Let_def
    by (simp add: deliver_out lifetime_update_frame emit_def split: option.split)
  have "remembers t' (n\<lparr>m_dpd := c\<rparr>) (n\<lparr>m_dpd := c\<rparr>)"
    unfolding c by (rule memory.refl [OF node_wf_asked(3) [OF wf]])
  then have "remembers t' (n\<lparr>m_dpd := c\<rparr>) n1"
    unfolding first Let_def by (auto split: option.split intro!: memory.R_small memory.R_deliver memory.R_lifetime)
  from memory.trans [OF this steps_remember [OF assms(6) memory.ok_after [OF this]]]
  have "remembers t' (n\<lparr>m_dpd := c\<rparr>) n2" .
  then have "fst (Dpd_IsDuplicate t' p' h' (m_dpd n2))"
    using assms(4,8,9) node_wf_parts(6)
    by (auto simp: remembers_def Dpd_IsDuplicate_def c
        intro!: asked_then_kept [OF node_wf_parts(6) [OF wf] _ assms(7)])
  then have "\<exists>c. broadcast_input E' t' p' h' iif' ucb' lcb' ecb' n2 = n2\<lparr>m_dpd := c\<rparr>"
    by (auto simp: broadcast_input_def Let_def prod.case_eq_if)
  with sent show ?thesis by blast
qed

lemma test_node_packets:
  "\<not> fst (Dpd_IsDuplicate 0 \<lparr>GetUid = 7, deferred_tag = None\<rparr> \<lparr>GetSource = 9, GetDestination = 0xffffffff, GetTtl = 5\<rparr>
     (m_dpd test_node))"
  "1 \<le> m_lifetime (m_dpd test_node)"
  "out test_node = []"
  by code_simp+

theorem broadcast_once_witness:
  "\<exists>n1 n2 c. n1 = broadcast_input test_env 0 \<lparr>GetUid = 7, deferred_tag = None\<rparr>
       \<lparr>GetSource = 9, GetDestination = 0xffffffff, GetTtl = 5\<rparr> 1 3 4 5 test_node
     \<and> node_step test_env 1 (Receive 3 9 [9]) n1 n2
     \<and> LocalDeliver 4 \<lparr>GetUid = 7, deferred_tag = None\<rparr> \<lparr>GetSource = 9, GetDestination = 0xffffffff, GetTtl = 5\<rparr> 1
         \<in> set (out n1)
     \<and> broadcast_input test_env 1 \<lparr>GetUid = 7, deferred_tag = None\<rparr>
         \<lparr>GetSource = 9, GetDestination = 0xffffffff, GetTtl = 4\<rparr> 1 3 4 5 n2 = n2\<lparr>m_dpd := c\<rparr>"
proof -
  let ?p = "\<lparr>GetUid = 7, deferred_tag = None\<rparr>" and ?h = "\<lparr>GetSource = 9, GetDestination = 0xffffffff, GetTtl = 5\<rparr>"
  define n1 where "n1 = broadcast_input test_env 0 ?p ?h 1 3 4 5 test_node"
  obtain n2 where n2: "node_step test_env 1 (Receive 3 9 [9]) n1 n2" using unknown_type_step by blast
  then have run: "(\<lambda>x y. \<exists>E now e. now \<le> 1 \<and> node_step E now e x y)\<^sup>*\<^sup>* n1 n2" by blast
  from broadcast_once [OF test_node_reachable _ _ test_node_packets(1) n1_def run, of "?h\<lparr>GetTtl := 4\<rparr>" ?p
      test_env 1 3 4 5]
    test_node_packets(2,3)
  have "LocalDeliver 4 ?p ?h 1 \<in> set (out n1)
    \<and> (\<exists>c. broadcast_input test_env 1 ?p (?h\<lparr>GetTtl := 4\<rparr>) 1 3 4 5 n2 = n2\<lparr>m_dpd := c\<rparr>)"
    by (auto simp: ns3_library_def)
  with n2 n1_def show ?thesis by auto
qed

section \<open>Asking for a route\<close>

text \<open>The request as it is broadcast on one interface.\<close>

definition rreq_on :: "RreqHeader \<Rightarrow> socket \<times> Ipv4InterfaceAddress \<Rightarrow> effect" where
  "rreq_on h j = SendTo (fst j) (Rreq (h\<lparr>rreq_origin := GetLocal (snd j)\<rparr>)) (broadcast_of (snd j))"

lemma send_rreqs_spec:
  "send_rreqs now js h n = n\<lparr>m_rreqIdCache := fold (\<lambda>j c. snd (IdCache_IsDuplicate now (GetLocal (snd j)) (m_requestId n) c))
       js (m_rreqIdCache n), out := out n @ map (rreq_on h) js\<rparr>"
proof (induction js arbitrary: h n)
  case (Cons j js)
  have "rreq_on (h\<lparr>rreq_origin := a\<rparr>) = rreq_on h" for a by (simp add: rreq_on_def fun_eq_iff)
  with Cons show ?case by (simp add: Let_def emit_def rreq_on_def)
qed simp

lemma start_hello_frame [simp]:
  "out (start_hello_timer E now k n) = out n" "m_requestId (start_hello_timer E now k n) = m_requestId n"
  "m_rreqCount (start_hello_timer E now k n) = m_rreqCount n" "par (start_hello_timer E now k n) = par n"
  "m_rqueue (start_hello_timer E now k n) = m_rqueue n" "m_seqNo (start_hello_timer E now k n) = m_seqNo n"
  "m_addressReqTimer (start_hello_timer E now k n) = m_addressReqTimer n"
  "m_routingTable (start_hello_timer E now k n) = m_routingTable n"
  "m_rreqIdCache (start_hello_timer E now k n) = m_rreqIdCache n"
  "m_socketAddresses (start_hello_timer E now k n) = m_socketAddresses n"
  by (simp_all add: start_hello_timer_def)

lemma route_key:
  "RoutingTable_wf (m_routingTable n) \<Longrightarrow> route_of n a = Some rt \<Longrightarrow> GetDestinationOf rt = a"
  by (auto simp: route_of_def table_map_def RoutingTable_wf_def dest!: map_of_SomeD)

lemma route_in_search:
  assumes "RoutingTable_wf (m_routingTable n)" "route_of n a = Some rt" "rt_flag rt = IN_SEARCH"
  shows "route_of (aged now n) a = Some rt"
  using assms by (simp add: route_of_aged age_entry_def)

text \<open>The entry a request starts from.\<close>

definition search_entry :: "env \<Rightarrow> time \<Rightarrow> ipv4addr \<Rightarrow> node \<Rightarrow> RoutingTableEntry" where
  "search_entry E now dst n = (case route_of (aged now n) dst of
     Some rt \<Rightarrow> rt\<lparr>rt_flag := IN_SEARCH\<rparr>
   | None \<Rightarrow> (RoutingTableEntry_new now 0 dst False 0 (Ipv4InterfaceAddress_default (lib E))
                 0 (Ipv4Address_default (lib E)) 0)\<lparr>rt_flag := IN_SEARCH\<rparr>)"

definition search_begun :: "env \<Rightarrow> time \<Rightarrow> ipv4addr \<Rightarrow> node \<Rightarrow> node" where
  "search_begun E now dst n = (case route_of (aged now n) dst of
     Some rt \<Rightarrow> update_route (search_entry E now dst n) (aged now n)
   | None \<Rightarrow> add_route now (search_entry E now dst n) (aged now n))"

lemma search_begun_route:
  assumes "RoutingTable_wf (m_routingTable n)"
  shows "route_of (search_begun E now dst n) = (route_of (aged now n))(dst \<mapsto> search_entry E now dst n)"
    and "RoutingTable_wf (m_routingTable (search_begun E now dst n))"
    and "rt_flag (search_entry E now dst n) = IN_SEARCH"
proof -
  note wf = aged_wf [OF assms, of now]
  show flag: "rt_flag (search_entry E now dst n) = IN_SEARCH"
    by (simp add: search_entry_def split: option.split)
  have "GetDestinationOf (search_entry E now dst n) = dst"
    using route_key [OF wf] by (auto simp: search_entry_def GetDestinationOf_def RoutingTableEntry_new_def split: option.split)
  moreover have "reset_rreq (search_entry E now dst n) = search_entry E now dst n"
    using flag by (simp add: reset_rreq_def)
  ultimately show "route_of (search_begun E now dst n) = (route_of (aged now n))(dst \<mapsto> search_entry E now dst n)"
    using route_of_update [OF wf, of "search_entry E now dst n"]
      route_of_add [OF assms, of now "search_entry E now dst n"]
    by (auto simp: search_begun_def split: option.split)
  show "RoutingTable_wf (m_routingTable (search_begun E now dst n))"
    using wf by (auto simp: search_begun_def add_route_def update_route_def RoutingTable_wf_AddRoute
        RoutingTable_wf_Update split: option.split)
qed

lemma rreq_flag_frame:
  "rreq_dst (RreqHeader_SetUnknownSeqno b h) = rreq_dst h" "rreq_dst (RreqHeader_SetGratiousRrep b h) = rreq_dst h"
  "rreq_dst (RreqHeader_SetDestinationOnly b h) = rreq_dst h"
  by (simp_all add: RreqHeader_SetUnknownSeqno_def RreqHeader_SetGratiousRrep_def RreqHeader_SetDestinationOnly_def)

text \<open>The header of a new request for \<open>dst\<close>.\<close>

definition request_header :: "env \<Rightarrow> time \<Rightarrow> ipv4addr \<Rightarrow> node \<Rightarrow> RreqHeader" where
  "request_header E now dst n =
     (let h = (RreqHeader_default (lib E))\<lparr>rreq_dst := dst\<rparr>;
          h = (case route_of (aged now n) dst of
                 Some rt \<Rightarrow> (let h = h\<lparr>rreq_hopCount := ucast (rt_hops rt)\<rparr>
                             in if rt_validSeqNo rt then h\<lparr>rreq_dstSeqNo := rt_seqNo rt\<rparr>
                                else RreqHeader_SetUnknownSeqno True h)
               | None \<Rightarrow> RreqHeader_SetUnknownSeqno True h);
          h = (if GratuitousReply (par n) then RreqHeader_SetGratiousRrep True h else h);
          h = (if DestinationOnly (par n) then RreqHeader_SetDestinationOnly True h else h)
      in h\<lparr>rreq_originSeqNo := m_seqNo n + 1, rreq_requestID := m_requestId n + 1, rreq_hopCount := 0\<rparr>)"

lemma request_header_fields [simp]:
  "rreq_dst (request_header E now dst n) = dst"
  "rreq_requestID (request_header E now dst n) = m_requestId n + 1"
  "rreq_originSeqNo (request_header E now dst n) = m_seqNo n + 1"
  "rreq_hopCount (request_header E now dst n) = 0"
  by (auto simp: request_header_def Let_def RreqHeader_SetUnknownSeqno_def RreqHeader_SetGratiousRrep_def
      RreqHeader_SetDestinationOnly_def split: option.split)

lemma SendRequest_eq:
  assumes "m_rreqCount n \<noteq> RreqRateLimit (par n)"
  shows "SendRequest E now dst n = start_hello_timer E now 1 (ScheduleRreqRetry E now dst
        (send_rreqs now (m_socketAddresses n) (request_header E now dst n)
          ((search_begun E now dst n)\<lparr>m_rreqCount := m_rreqCount n + 1,
          m_seqNo := m_seqNo n + 1, m_requestId := m_requestId n + 1\<rparr>)))"
  using assms
  by (cases "route_of (aged now n) dst")
    (simp_all add: SendRequest_def lookup_route_eq count_commutes Let_def search_begun_def search_entry_def
      request_header_def)

lemma search_frame [simp]:
  "m_requestId (search_begun E now dst n) = m_requestId n" "m_addressReqTimer (search_begun E now dst n) = m_addressReqTimer n"
  "par (search_begun E now dst n) = par n" "m_rqueue (search_begun E now dst n) = m_rqueue n"
  "out (search_begun E now dst n) = out n" "m_rreqIdCache (search_begun E now dst n) = m_rreqIdCache n"
  "m_socketAddresses (search_begun E now dst n) = m_socketAddresses n"
  by (auto simp: search_begun_def add_route_def update_route_def aged_def split: option.split)

lemma route_of_frame [simp]:
  "route_of (n\<lparr>m_rreqIdCache := c\<rparr>) = route_of n" "route_of (n\<lparr>out := es\<rparr>) = route_of n"
  "route_of (n\<lparr>m_seqNo := x\<rparr>) = route_of n" "route_of (n\<lparr>m_requestId := y\<rparr>) = route_of n"
  "route_of (n\<lparr>m_rreqCount := z\<rparr>) = route_of n" "route_of (n\<lparr>m_addressReqTimer := w\<rparr>) = route_of n"
  "route_of (n\<lparr>m_rqueue := q\<rparr>) = route_of n" "route_of (start_hello_timer E now k n) = route_of n"
  by (simp_all add: route_of_def fun_eq_iff)

lemma retry_spec:
  assumes "RoutingTable_wf (m_routingTable m)" "route_of m dst = Some e" "rt_flag e = IN_SEARCH"
  shows "ScheduleRreqRetry E now dst m = (update_route (IncrementRreqCnt e) (aged now m))
      \<lparr>m_addressReqTimer := map_assign dst (now + int (unat (rt_reqCount e + 1)) * NetTraversalTime (par m))
         (m_addressReqTimer m)\<rparr>"
    and "route_of (ScheduleRreqRetry E now dst m) dst = Some (IncrementRreqCnt e)"
    and "RoutingTable_wf (m_routingTable (ScheduleRreqRetry E now dst m))"
proof -
  note route = route_in_search [OF assms, of now] and wf = aged_wf [OF assms(1), of now]
  show eq: "ScheduleRreqRetry E now dst m = (update_route (IncrementRreqCnt e) (aged now m))
      \<lparr>m_addressReqTimer := map_assign dst (now + int (unat (rt_reqCount e + 1)) * NetTraversalTime (par m))
         (m_addressReqTimer m)\<rparr>"
    using route by (simp add: ScheduleRreqRetry_def lookup_route_eq entry_or_default_def found_def
        IncrementRreqCnt_def Let_def) (simp add: update_route_def aged_def)
  have "GetDestinationOf (IncrementRreqCnt e) = dst" "reset_rreq (IncrementRreqCnt e) = IncrementRreqCnt e"
    using route_key [OF assms(1,2)] assms(3)
    by (simp_all add: IncrementRreqCnt_def GetDestinationOf_def reset_rreq_def)
  with route show "route_of (ScheduleRreqRetry E now dst m) dst = Some (IncrementRreqCnt e)"
    unfolding eq using route_of_update [OF wf, of "IncrementRreqCnt e"] by simp
  show "RoutingTable_wf (m_routingTable (ScheduleRreqRetry E now dst m))"
    unfolding eq using wf by (simp add: update_route_def RoutingTable_wf_Update)
qed

lemma SendRequest_spec:
  assumes "RoutingTable_wf (m_routingTable n)" "m_rreqCount n \<noteq> RreqRateLimit (par n)"
  shows "RoutingTable_wf (m_routingTable (SendRequest E now dst n))"
    and "route_of (SendRequest E now dst n) dst = Some (IncrementRreqCnt (search_entry E now dst n))"
    and "m_addressReqTimer (SendRequest E now dst n) = map_assign dst
      (now + int (unat (rt_reqCount (search_entry E now dst n) + 1)) * NetTraversalTime (par n)) (m_addressReqTimer n)"
    and "out (SendRequest E now dst n) = out n @ map (rreq_on (request_header E now dst n)) (m_socketAddresses n)"
    and "m_requestId (SendRequest E now dst n) = m_requestId n + 1"
    and "m_rreqCount (SendRequest E now dst n) = m_rreqCount n + 1"
    and "m_seqNo (SendRequest E now dst n) = m_seqNo n + 1"
    and "par (SendRequest E now dst n) = par n" and "m_rqueue (SendRequest E now dst n) = m_rqueue n"
    and "m_rreqIdCache (SendRequest E now dst n) =
      fold (\<lambda>j c. snd (IdCache_IsDuplicate now (GetLocal (snd j)) (m_requestId n + 1) c))
        (m_socketAddresses n) (m_rreqIdCache n)"
    and "m_socketAddresses (SendRequest E now dst n) = m_socketAddresses n"
proof -
  let ?m = "send_rreqs now (m_socketAddresses n) (request_header E now dst n)
    ((search_begun E now dst n)\<lparr>m_rreqCount := m_rreqCount n + 1, m_seqNo := m_seqNo n + 1, m_requestId := m_requestId n + 1\<rparr>)"
  note s = search_begun_route [OF assms(1), of E now dst]
  have m: "RoutingTable_wf (m_routingTable ?m)" "route_of ?m dst = Some (search_entry E now dst n)"
    using s(1,2) by (simp_all add: send_rreqs_spec)
  note r = retry_spec [OF m s(3), of E now]
  have eq: "SendRequest E now dst n = start_hello_timer E now 1 (ScheduleRreqRetry E now dst ?m)"
    by (rule SendRequest_eq [OF assms(2)])
  show "RoutingTable_wf (m_routingTable (SendRequest E now dst n))"
    "route_of (SendRequest E now dst n) dst = Some (IncrementRreqCnt (search_entry E now dst n))"
    using r(2,3) by (simp_all add: eq)
  show "m_addressReqTimer (SendRequest E now dst n) = map_assign dst
      (now + int (unat (rt_reqCount (search_entry E now dst n) + 1)) * NetTraversalTime (par n)) (m_addressReqTimer n)"
    "out (SendRequest E now dst n) = out n @ map (rreq_on (request_header E now dst n)) (m_socketAddresses n)"
    "m_requestId (SendRequest E now dst n) = m_requestId n + 1"
    "m_rreqCount (SendRequest E now dst n) = m_rreqCount n + 1"
    "m_seqNo (SendRequest E now dst n) = m_seqNo n + 1"
    "par (SendRequest E now dst n) = par n" "m_rqueue (SendRequest E now dst n) = m_rqueue n"
    "m_rreqIdCache (SendRequest E now dst n) =
      fold (\<lambda>j c. snd (IdCache_IsDuplicate now (GetLocal (snd j)) (m_requestId n + 1) c))
        (m_socketAddresses n) (m_rreqIdCache n)"
    "m_socketAddresses (SendRequest E now dst n) = m_socketAddresses n"
    unfolding eq r(1) by (simp_all add: send_rreqs_spec) (simp_all add: update_route_def aged_def)
qed

lemma ask_all:
  assumes "IdCache_wf c" "0 \<le> m_lifetime c"
    and "c' = fold (\<lambda>j c. snd (IdCache_IsDuplicate now (GetLocal (snd j)) i c)) js c"
  shows "IdCache_wf c' \<and> keeps (m_lifetime c + now) c c' \<and> (\<forall>j\<in>set js.
    \<not> fst (IdCache_IsDuplicate now (GetLocal (snd j)) i c) \<longrightarrow> known c' (GetLocal (snd j), i) = Some (m_lifetime c + now))"
  using assms(1,2) unfolding assms(3)
proof (induction js arbitrary: c)
  case (Cons j js)
  let ?c = "snd (IdCache_IsDuplicate now (GetLocal (snd j)) i c)"
  let ?d = "fold (\<lambda>j c. snd (IdCache_IsDuplicate now (GetLocal (snd j)) i c)) js ?c"
  have c: "IdCache_wf ?c" "m_lifetime ?c = m_lifetime c"
    using Cons.prems(1) by (simp_all add: IsDuplicate_abs)
  have IH: "IdCache_wf ?d" "keeps (m_lifetime c + now) ?c ?d" "\<forall>x\<in>set js.
    \<not> fst (IdCache_IsDuplicate now (GetLocal (snd x)) i ?c) \<longrightarrow> known ?d (GetLocal (snd x), i) = Some (m_lifetime c + now)"
    using Cons.IH [OF c(1)] c(2) Cons.prems(2) by simp_all
  have first: "known ?d (GetLocal (snd j), i) = Some (m_lifetime c + now)"
    if "\<not> fst (IdCache_IsDuplicate now (GetLocal (snd j)) i c)"
    using that IH(2) Cons.prems(1) by (simp add: IsDuplicate_abs keeps_def)
  have "known ?d (GetLocal (snd x), i) = Some (m_lifetime c + now)"
    if "x \<in> set js" "\<not> fst (IdCache_IsDuplicate now (GetLocal (snd x)) i c)" for x
  proof (cases "GetLocal (snd x) = GetLocal (snd j)")
    case True
    with that(2) first show ?thesis by simp
  next
    case False
    with that Cons.prems(1) c(1) have "\<not> fst (IdCache_IsDuplicate now (GetLocal (snd x)) i ?c)"
      by (simp add: IsDuplicate_abs)
    with IH(3) that(1) show ?thesis by blast
  qed
  moreover have "keeps (m_lifetime c + now) c ?c"
    using Cons.prems by (auto intro: keeps_asked)
  ultimately show ?case
    using IH first by (auto intro: keeps_trans)
qed simp

lemma cached_request_ignored:
  assumes "IdCache_wf (m_rreqIdCache n)" "known (m_rreqIdCache n) (rreq_origin h, rreq_requestID h) = Some e" "now \<le> e"
  shows "\<exists>c. handle_request E now h receiver src n = Some ((aged now n)\<lparr>m_rreqIdCache := c\<rparr>)"
  by (rule handle_request_dup) (use assms in \<open>simp add: duplicate_iff\<close>)

text \<open>C14: What \<open>SendRequest\<close> does below the rate limit. The destination's entry is being searched, with one
  more attempt counted and the retry timer set to that many network traversal times from now; one
  request goes out on every socket, for that destination, numbered one above the last, with the node's
  next sequence number and the socket's own address as originator; and none of these requests, when a
  neighbour repeats it, is ever answered or repeated by the node itself within the lifetime of the
  request cache, whatever happens meanwhile.\<close>

theorem request_sent:
  assumes "reachable L p t0 n" and "0 < MaxQueueLen p" and "0 \<le> Seconds L 3"
    and "m_rreqCount n \<noteq> RreqRateLimit (par n)" and "n1 = SendRequest E t dst n"
    and "\<forall>j\<in>set (m_socketAddresses n).
      \<not> fst (IdCache_IsDuplicate t (GetLocal (snd j)) (m_requestId n + 1) (m_rreqIdCache n))"
    and "(\<lambda>x y. \<exists>E now e. now \<le> t' \<and> node_step E now e x y)\<^sup>*\<^sup>* n1 n2"
    and "t' \<le> t + m_lifetime (m_rreqIdCache n)" and "0 \<le> m_lifetime (m_rreqIdCache n)"
  shows "\<exists>rt h. route_of n1 dst = Some rt \<and> rt_flag rt = IN_SEARCH
    \<and> map_of (m_addressReqTimer n1) dst = Some (t + int (unat (rt_reqCount rt)) * NetTraversalTime (par n))
    \<and> out n1 = out n @ map (\<lambda>j. SendTo (fst j) (Rreq (h\<lparr>rreq_origin := GetLocal (snd j)\<rparr>)) (broadcast_of (snd j)))
        (m_socketAddresses n)
    \<and> rreq_dst h = dst \<and> rreq_hopCount h = 0 \<and> rreq_requestID h = m_requestId n + 1
    \<and> m_requestId n1 = m_requestId n + 1 \<and> rreq_originSeqNo h = m_seqNo n + 1 \<and> m_seqNo n1 = m_seqNo n + 1
    \<and> (\<forall>j\<in>set (m_socketAddresses n). \<forall>h' receiver src E'.
        rreq_origin h' = GetLocal (snd j) \<and> rreq_requestID h' = m_requestId n + 1 \<longrightarrow>
        (\<exists>c. handle_request E' t' h' receiver src n2 = Some ((aged t' n2)\<lparr>m_rreqIdCache := c\<rparr>)))"
proof -
  have wf: "node_wf n" by (rule reachable_node_wf [OF assms(1-3)])
  note parts = node_wf_parts [OF wf]
  note spec = SendRequest_spec [OF parts(1) assms(4), of E t dst, folded assms(5)]
  have map_ok: "map_ok (m_addressReqTimer n)" by (rule parts(8))
  have n1: "node_wf n1"
    using growth.ok_after [OF growth.R_SendRequest [OF TrueI growth.refl [OF wf]]] assms(5) by blast
  have run: "remembers t' n1 n2" by (rule steps_remember [OF assms(7) n1])
  have ignored: "\<exists>c. handle_request E' t' h' receiver src n2 = Some ((aged t' n2)\<lparr>m_rreqIdCache := c\<rparr>)"
    if "j \<in> set (m_socketAddresses n)" "rreq_origin h' = GetLocal (snd j)" "rreq_requestID h' = m_requestId n + 1"
    for j h' receiver src E'
  proof -
    have "known (m_rreqIdCache n1) (GetLocal (snd j), m_requestId n + 1) = Some (m_lifetime (m_rreqIdCache n) + t)"
      using ask_all [OF parts(4) assms(9) refl] assms(6) that(1) unfolding spec(10) by blast
    with run assms(8) have "known (m_rreqIdCache n2) (GetLocal (snd j), m_requestId n + 1)
        = Some (m_lifetime (m_rreqIdCache n) + t)"
      by (auto simp: remembers_def keeps_def)
    then show ?thesis
      by (intro cached_request_ignored) (use run node_wf_parts(4) assms(8) that in \<open>auto simp: remembers_def\<close>)
  qed
  show ?thesis
    by (rule exI [of _ "IncrementRreqCnt (search_entry E t dst n)"], rule exI [of _ "request_header E t dst n"])
      (use spec search_begun_route(3) [OF parts(1)] ignored map_ok in
        \<open>simp add: IncrementRreqCnt_def rreq_on_def fun_eq_iff map_of_assign\<close>)
qed

lemma test_node_search:
  "m_rreqCount test_node \<noteq> RreqRateLimit (par test_node)"
  "list_all (\<lambda>j. \<not> fst (IdCache_IsDuplicate 0 (GetLocal (snd j)) (m_requestId test_node + 1) (m_rreqIdCache test_node)))
    (m_socketAddresses test_node)"
  "list_ex (\<lambda>j. GetLocal (snd j) = 0x0a000001) (m_socketAddresses test_node)"
  "m_requestId test_node + 1 = 1"
  by code_simp+

theorem request_sent_witness:
  "\<exists>rt n2 c. route_of (SendRequest test_env 0 77 test_node) 77 = Some rt \<and> rt_flag rt = IN_SEARCH
     \<and> node_step test_env 1 (Receive 3 9 [9]) (SendRequest test_env 0 77 test_node) n2
     \<and> handle_request test_env 1 (test_request\<lparr>rreq_origin := 0x0a000001\<rparr>) 0x0a000001 9 n2
         = Some ((aged 1 n2)\<lparr>m_rreqIdCache := c\<rparr>)"
proof -
  let ?n = "SendRequest test_env 0 77 test_node"
  obtain n2 where n2: "node_step test_env 1 (Receive 3 9 [9]) ?n n2" using unknown_type_step by blast
  then have run: "(\<lambda>x y. \<exists>E now e. now \<le> 1 \<and> node_step E now e x y)\<^sup>*\<^sup>* ?n n2" by blast
  have fresh: "\<forall>j\<in>set (m_socketAddresses test_node).
      \<not> fst (IdCache_IsDuplicate 0 (GetLocal (snd j)) (m_requestId test_node + 1) (m_rreqIdCache test_node))"
    using test_node_search(2) by (simp add: list_all_iff)
  obtain j where j: "j \<in> set (m_socketAddresses test_node)" "GetLocal (snd j) = 0x0a000001"
    using test_node_search(3) by (auto simp: list_ex_iff)
  have req: "rreq_requestID (test_request\<lparr>rreq_origin := 0x0a000001\<rparr>) = m_requestId test_node + 1"
    unfolding test_node_search(4) by (simp add: test_request_def)
  have ok: "0 < MaxQueueLen test_params" "0 \<le> Seconds ns3_library 3"
    "1 \<le> 0 + m_lifetime (m_rreqIdCache test_node)" "0 \<le> m_lifetime (m_rreqIdCache test_node)"
    using test_node_request(3) by (simp_all add: ns3_library_def)
  obtain rt where "route_of ?n 77 = Some rt" "rt_flag rt = IN_SEARCH"
    and echo: "\<forall>h' receiver src E'. rreq_origin h' = GetLocal (snd j) \<and> rreq_requestID h' = m_requestId test_node + 1
      \<longrightarrow> (\<exists>c. handle_request E' 1 h' receiver src n2 = Some ((aged 1 n2)\<lparr>m_rreqIdCache := c\<rparr>))"
    using request_sent [OF test_node_reachable ok(1,2) test_node_search(1) refl fresh run ok(3,4)] j(1) by blast
  moreover obtain c where "handle_request test_env 1 (test_request\<lparr>rreq_origin := 0x0a000001\<rparr>) 0x0a000001 9 n2
      = Some ((aged 1 n2)\<lparr>m_rreqIdCache := c\<rparr>)"
    using echo req j(2) by fastforce
  ultimately show ?thesis using n2 by blast
qed

section \<open>A search without an answer\<close>

text \<open>An expiry of the retry timer of \<open>dst\<close>, and \<open>k\<close> of them with nothing else in between.\<close>

definition retry :: "env \<Rightarrow> ipv4addr \<Rightarrow> node \<Rightarrow> node option" where
  "retry E dst n =
     (case map_of (m_addressReqTimer n) dst of
        None \<Rightarrow> None
      | Some now \<Rightarrow> Some (RouteRequestTimerExpire E now dst
          (n\<lparr>m_addressReqTimer := map_erase dst (m_addressReqTimer n)\<rparr>)))"

fun retry_run :: "env \<Rightarrow> ipv4addr \<Rightarrow> nat \<Rightarrow> node \<Rightarrow> node option" where
  "retry_run E dst 0 n = Some n"
| "retry_run E dst (Suc k) n = Option.bind (retry_run E dst k n) (retry E dst)"

lemma retry_run_steps:
  "retry_run E dst k n = Some n' \<Longrightarrow> (\<lambda>x y. \<exists>now. node_step E now (RequestTimer dst) x y)\<^sup>*\<^sup>* n n'"
proof (induction k arbitrary: n')
  case (Suc k)
  then obtain m where m: "(\<lambda>x y. \<exists>now. node_step E now (RequestTimer dst) x y)\<^sup>*\<^sup>* n m" "retry E dst m = Some n'"
    by (auto simp: bind_eq_Some_conv)
  then have "\<exists>now. node_step E now (RequestTimer dst) m n'"
    by (auto simp: retry_def intro: node_step.request_timer split: option.splits)
  with m(1) show ?case by (rule rtranclp.rtrancl_into_rtrancl)
qed simp

text \<open>One expiry while attempts are left, and the last one.\<close>

lemma retry_again:
  assumes "node_wf n" "route_of n dst = Some rt" "rt_flag rt = IN_SEARCH"
    and "map_of (m_addressReqTimer n) dst = Some t"
    and "unat (rt_reqCount rt) < unat (RreqRetries (par n))" "m_rreqCount n \<noteq> RreqRateLimit (par n)"
  shows "\<exists>n'. retry E dst n = Some n' \<and> node_wf n' \<and> par n' = par n
    \<and> route_of n' dst = Some (IncrementRreqCnt rt)
    \<and> map_of (m_addressReqTimer n') dst = Some (t + int (unat (rt_reqCount rt + 1)) * NetTraversalTime (par n))
    \<and> m_requestId n' = m_requestId n + 1 \<and> m_rreqCount n' = m_rreqCount n + 1 \<and> m_rqueue n' = m_rqueue n
    \<and> m_socketAddresses n' = m_socketAddresses n
    \<and> (\<exists>h. rreq_dst h = dst \<and> out n' = out n @ map (rreq_on h) (m_socketAddresses n))"
proof -
  define l where "l = aged t (n\<lparr>m_addressReqTimer := map_erase dst (m_addressReqTimer n)\<rparr>)"
  have frame: "par l = par n" "m_requestId l = m_requestId n" "m_rreqCount l = m_rreqCount n" "out l = out n"
    "m_addressReqTimer l = map_erase dst (m_addressReqTimer n)" "m_rqueue l = m_rqueue n"
    "m_socketAddresses l = m_socketAddresses n"
    by (simp_all add: l_def aged_def)
  have l: "node_wf l"
    unfolding l_def using assms(1) node_wf_parts(8) [OF assms(1)]
    by (intro growth.ok_after [OF growth.R_small(1) [OF growth.refl]] node_wf_field map_ok_erase)
  have "route_of (n\<lparr>m_addressReqTimer := map_erase dst (m_addressReqTimer n)\<rparr>) dst = Some rt"
    using assms(2) by simp
  with route_in_search [OF _ this assms(3), of t] node_wf_parts(1) [OF assms(1)]
  have route: "route_of l dst = Some rt" by (simp add: l_def)
  then have again: "route_of (aged t l) dst = Some rt"
    by (rule route_in_search [OF node_wf_parts(1) [OF l] _ assms(3)])
  have "unat (ucast (rt_reqCount rt) :: u32) < unat (RreqRetries (par n))"
    using assms(5) unat_ucast_up [of "rt_reqCount rt", where 'b = 32] by simp
  then have "(ucast (rt_reqCount rt) :: u32) \<noteq> RreqRetries (par n)" by (metis order_less_irrefl)
  then have eq: "retry E dst n = Some (SendRequest E t dst l)"
    using assms(3,4) route
    by (simp add: retry_def RouteRequestTimerExpire_def lookup_route_eq entry_or_default_def found_def l_def)
  have "rt\<lparr>rt_flag := IN_SEARCH\<rparr> = rt" using assms(3) by (simp add: RoutingTableEntry.equality)
  then have entry: "search_entry E t dst l = rt" using again by (simp add: search_entry_def)
  have count: "m_rreqCount l \<noteq> RreqRateLimit (par l)" using assms(6) by (simp add: frame)
  note spec = SendRequest_spec [OF node_wf_parts(1) [OF l] count, of E t dst, unfolded entry frame]
  have "node_wf (SendRequest E t dst l)"
    by (rule growth.ok_after [OF growth.R_SendRequest [OF TrueI growth.refl [OF l]]])
  moreover have "m_socketAddresses (SendRequest E t dst l) = m_socketAddresses n"
    using SendRequest_eq [OF count, of E t dst]
    by (simp add: send_rreqs_spec ScheduleRreqRetry_def lookup_route_eq Let_def frame)
  moreover have "\<exists>h. rreq_dst h = dst \<and> out (SendRequest E t dst l) = out n @ map (rreq_on h) (m_socketAddresses n)"
    using spec(4) request_header_fields(1) by blast
  ultimately show ?thesis
    by (intro exI [of _ "SendRequest E t dst l"]) (simp add: eq spec map_of_assign)
qed

lemma retry_last:
  assumes "node_wf n" "route_of n dst = Some rt" "rt_flag rt = IN_SEARCH"
    and "map_of (m_addressReqTimer n) dst = Some t" "unat (rt_reqCount rt) = unat (RreqRetries (par n))"
  shows "\<exists>n'. retry E dst n = Some n' \<and> route_of n' dst = None \<and> map_of (m_addressReqTimer n') dst = None
    \<and> \<not> RequestQueue_Find dst (m_rqueue n') \<and> m_requestId n' = m_requestId n
    \<and> (\<exists>es. out n' = out n @ map dropped_report es
        \<and> (\<forall>e\<in>set (m_queue (m_rqueue n)). GetDestination (qe_header e) = dst \<longrightarrow> e \<in> set es))"
proof -
  define l where "l = aged t (n\<lparr>m_addressReqTimer := map_erase dst (m_addressReqTimer n)\<rparr>)"
  have wf: "RoutingTable_wf (m_routingTable n)" by (rule node_wf_parts(1) [OF assms(1)])
  have "route_of (n\<lparr>m_addressReqTimer := map_erase dst (m_addressReqTimer n)\<rparr>) dst = Some rt"
    using assms(2) by simp
  with route_in_search [OF _ this assms(3), of t] wf have route: "route_of l dst = Some rt" by (simp add: l_def)
  have "unat (ucast (rt_reqCount rt) :: u32) = unat (RreqRetries (par n))"
    using assms(5) unat_ucast_up [of "rt_reqCount rt", where 'b = 32] by simp
  then have "(ucast (rt_reqCount rt) :: u32) = RreqRetries (par n)" by (simp only: word_unat_eq_iff)
  then have eq: "retry E dst n = Some (stop_search t dst l)"
    using assms(3,4) route
    by (simp add: retry_def RouteRequestTimerExpire_def lookup_route_eq entry_or_default_def found_def l_def)
  define s where "s = stop_search t dst l"
  have table: "m_routingTable s = snd (DeleteRoute t dst (m_routingTable l))"
    "m_addressReqTimer s = map_erase dst (m_addressReqTimer l)" "m_requestId s = m_requestId n"
    by (simp_all add: s_def stop_search_def Let_def drop_packets_with_dst_def report_dropped_def l_def aged_def split: prod.split)
  have queue: "m_queue (m_rqueue s) = filter (\<lambda>i. \<not> RequestQueue_IsEqual i dst)
      (filter (\<lambda>e. \<not> QueueEntry_IsExpired t e) (m_queue (m_rqueue n)))"
    "out s = out n @ map dropped_report (filter (QueueEntry_IsExpired t) (m_queue (m_rqueue n))
      @ filter (\<lambda>i. RequestQueue_IsEqual i dst) (filter (\<lambda>e. \<not> QueueEntry_IsExpired t e) (m_queue (m_rqueue n))))"
    by (simp_all add: s_def stop_search_def Let_def drop_packets_with_dst_def report_dropped_eq l_def aged_def
        RequestQueue_DropPacketWithDst_def RequestQueue_Purge_def)
  have "route_of s dst = None"
    by (auto simp: route_of_def table_map_def table DeleteRoute_def map_of_erase Let_def)
  moreover have "map_of (m_addressReqTimer s) dst = None" by (simp add: table map_of_erase)
  moreover have "\<not> RequestQueue_Find dst (m_rqueue s)"
    by (simp add: RequestQueue_Find_def queue RequestQueue_IsEqual_def)
  moreover have "\<exists>es. out s = out n @ map dropped_report es
      \<and> (\<forall>e\<in>set (m_queue (m_rqueue n)). GetDestination (qe_header e) = dst \<longrightarrow> e \<in> set es)"
    by (rule exI, rule conjI, rule queue(2)) (auto simp: RequestQueue_IsEqual_def)
  ultimately show ?thesis
    using eq table(3) unfolding s_def [symmetric] by blast
qed

lemma unat_add_of_nat:
  "unat x + i < 2 ^ LENGTH('a) \<Longrightarrow> unat (x + of_nat i :: 'a::len word) = unat x + i"
  by (simp add: unat_word_ariths unat_of_nat mod_add_right_eq take_bit_nat_eq_self)

lemma retry_run_spec:
  assumes "node_wf n" "route_of n dst = Some rt" "rt_flag rt = IN_SEARCH"
    and "map_of (m_addressReqTimer n) dst = Some t"
    and "unat (rt_reqCount rt) + k \<le> unat (RreqRetries (par n))" "unat (RreqRetries (par n)) < 256"
    and "unat (m_rreqCount n) + k \<le> unat (RreqRateLimit (par n))"
  shows "\<exists>m hs. retry_run E dst k n = Some m \<and> node_wf m \<and> par m = par n
    \<and> m_socketAddresses m = m_socketAddresses n \<and> m_rqueue m = m_rqueue n
    \<and> route_of m dst = Some (rt\<lparr>rt_reqCount := rt_reqCount rt + of_nat k\<rparr>)
    \<and> map_of (m_addressReqTimer m) dst = Some (t + (\<Sum>j=1..k. int (unat (rt_reqCount rt) + j)) * NetTraversalTime (par n))
    \<and> m_requestId m = m_requestId n + of_nat k \<and> m_rreqCount m = m_rreqCount n + of_nat k
    \<and> length hs = k \<and> (\<forall>h\<in>set hs. rreq_dst h = dst)
    \<and> out m = out n @ concat (map (\<lambda>h. map (rreq_on h) (m_socketAddresses n)) hs)"
  using assms(5,7)
proof (induction k)
  case 0
  then show ?case using assms by simp
next
  case (Suc k)
  then obtain m hs where run: "retry_run E dst k n = Some m" and m: "node_wf m" "par m = par n"
    "m_socketAddresses m = m_socketAddresses n" "m_rqueue m = m_rqueue n"
    "route_of m dst = Some (rt\<lparr>rt_reqCount := rt_reqCount rt + of_nat k\<rparr>)"
    "map_of (m_addressReqTimer m) dst = Some (t + (\<Sum>j=1..k. int (unat (rt_reqCount rt) + j)) * NetTraversalTime (par n))"
    "m_requestId m = m_requestId n + of_nat k" "m_rreqCount m = m_rreqCount n + of_nat k"
    and hs: "length hs = k" "\<forall>h\<in>set hs. rreq_dst h = dst"
    "out m = out n @ concat (map (\<lambda>h. map (rreq_on h) (m_socketAddresses n)) hs)"
    by auto
  have count: "unat (rt_reqCount rt + of_nat k) = unat (rt_reqCount rt) + k"
    "unat (rt_reqCount rt + of_nat (Suc k)) = unat (rt_reqCount rt) + Suc k"
    using Suc.prems(1) assms(6) by (intro unat_add_of_nat; simp)+
  have "unat (RreqRateLimit (par n)) < 2 ^ 16"
    using unsigned_less [of "RreqRateLimit (par n)", where 'a = nat] by simp
  then have "unat (m_rreqCount n + of_nat k) = unat (m_rreqCount n) + k"
    using Suc.prems(2) by (intro unat_add_of_nat) simp
  then have limit: "m_rreqCount m \<noteq> RreqRateLimit (par m)"
    unfolding m(2,8) using Suc.prems(2) by (metis Suc_n_not_le_n add_Suc_right)
  have less: "unat (rt_reqCount (rt\<lparr>rt_reqCount := rt_reqCount rt + of_nat k\<rparr>)) < unat (RreqRetries (par m))"
    using Suc.prems(1) count(1) m(2) by simp
  have flag: "rt_flag (rt\<lparr>rt_reqCount := rt_reqCount rt + of_nat k\<rparr>) = IN_SEARCH" using assms(3) by simp
  from retry_again [OF m(1,5) flag m(6) less limit, of E] obtain m' h where
    m': "retry E dst m = Some m'" "node_wf m'" "par m' = par n"
    "route_of m' dst = Some (rt\<lparr>rt_reqCount := rt_reqCount rt + of_nat (Suc k)\<rparr>)"
    "map_of (m_addressReqTimer m') dst = Some (t + (\<Sum>j=1..k. int (unat (rt_reqCount rt) + j)) * NetTraversalTime (par n)
        + int (unat (rt_reqCount rt + of_nat (Suc k))) * NetTraversalTime (par n))"
    "m_requestId m' = m_requestId n + of_nat (Suc k)" "m_rreqCount m' = m_rreqCount n + of_nat (Suc k)"
    "m_rqueue m' = m_rqueue n" "m_socketAddresses m' = m_socketAddresses n"
    "rreq_dst h = dst" "out m' = out m @ map (rreq_on h) (m_socketAddresses n)"
    by (auto simp: m(2-4,7,8) IncrementRreqCnt_def add.commute add.left_commute)
  have "map_of (m_addressReqTimer m') dst
      = Some (t + (\<Sum>j=1..Suc k. int (unat (rt_reqCount rt) + j)) * NetTraversalTime (par n))"
    unfolding m'(5) count(2) by (simp add: algebra_simps)
  with m' run hs show ?case
    by (intro exI [of _ m'] exI [of _ "hs @ [h]"]) auto
qed

text \<open>C11: A search nobody answers ends. With \<open>k\<close> of its \<open>RreqRetries\<close> attempts left, at most 255 in all, and
  the rate limit not in the way, the retry timer expires \<open>k\<close> times more, each time after one network
  traversal time more than before; each of these sends one new request on every socket; and at the
  next expiry the search is given up: the entry and the timer are gone, no packet for the destination
  waits any longer, and every one that did has been reported to its error callback.\<close>

theorem discovery_gives_up:
  assumes "node_wf n" and "route_of n dst = Some rt" and "rt_flag rt = IN_SEARCH"
    and "map_of (m_addressReqTimer n) dst = Some t"
    and "unat (rt_reqCount rt) + k = unat (RreqRetries (par n))" and "unat (RreqRetries (par n)) < 256"
    and "unat (m_rreqCount n) + k \<le> unat (RreqRateLimit (par n))"
  shows "\<exists>m n' hs es. retry_run E dst k n = Some m
    \<and> map_of (m_addressReqTimer m) dst = Some (t + (\<Sum>j=1..k. int (unat (rt_reqCount rt) + j)) * NetTraversalTime (par n))
    \<and> length hs = k \<and> (\<forall>h\<in>set hs. rreq_dst h = dst)
    \<and> retry_run E dst (Suc k) n = Some n'
    \<and> route_of n' dst = None \<and> map_of (m_addressReqTimer n') dst = None
    \<and> \<not> RequestQueue_Find dst (m_rqueue n') \<and> m_requestId n' = m_requestId n + of_nat k
    \<and> out n' = out n @ concat (map (\<lambda>h. map (\<lambda>j. SendTo (fst j) (Rreq (h\<lparr>rreq_origin := GetLocal (snd j)\<rparr>))
          (broadcast_of (snd j))) (m_socketAddresses n)) hs) @ map dropped_report es
    \<and> (\<forall>e\<in>set (m_queue (m_rqueue n)). GetDestination (qe_header e) = dst \<longrightarrow> e \<in> set es)"
proof -
  have le: "unat (rt_reqCount rt) + k \<le> unat (RreqRetries (par n))" using assms(5) by simp
  from retry_run_spec [OF assms(1-4) le assms(6,7), of E] obtain m hs where
    run: "retry_run E dst k n = Some m" and m: "node_wf m" "par m = par n" "m_rqueue m = m_rqueue n"
    "route_of m dst = Some (rt\<lparr>rt_reqCount := rt_reqCount rt + of_nat k\<rparr>)"
    "map_of (m_addressReqTimer m) dst = Some (t + (\<Sum>j=1..k. int (unat (rt_reqCount rt) + j)) * NetTraversalTime (par n))"
    "m_requestId m = m_requestId n + of_nat k"
    and hs: "length hs = k" "\<forall>h\<in>set hs. rreq_dst h = dst"
    "out m = out n @ concat (map (\<lambda>h. map (rreq_on h) (m_socketAddresses n)) hs)"
    by blast
  have "unat (rt_reqCount rt + of_nat k) = unat (RreqRetries (par m))"
    using assms(5,6) m(2) unat_add_of_nat [of "rt_reqCount rt" k] by simp
  from retry_last [OF m(1,4) _ m(5), of E] this assms(3) obtain n' es where
    "retry E dst m = Some n'" "route_of n' dst = None" "map_of (m_addressReqTimer n') dst = None"
    "\<not> RequestQueue_Find dst (m_rqueue n')" "m_requestId n' = m_requestId m" "out n' = out m @ map dropped_report es"
    "\<forall>e\<in>set (m_queue (m_rqueue m)). GetDestination (qe_header e) = dst \<longrightarrow> e \<in> set es"
    by auto
  with run m hs show ?thesis
    by (intro exI [of _ m] exI [of _ n'] exI [of _ hs] exI [of _ es])
      (simp add: rreq_on_def [abs_def])
qed

lemma searching_node_wf: "node_wf searching_node"
  by (simp add: node_wf_def searching_node_def RoutingTable_wf_def map_ok_Cons GetDestinationOf_def
      RoutingTableEntry_new_def Neighbors_wf_def RequestQueue_wf_def IdCache_wf_def node_new_def Let_def
      Neighbors_new_def Neighbors_SetCallback_def IdCache_new_def test_entry_def QueueEntry_new_def qe_key_def)

theorem discovery_gives_up_witness:
  "\<exists>n' es. retry_run test_env 5 3 searching_node = Some n' \<and> route_of n' 5 = None
     \<and> m_requestId n' = m_requestId searching_node + 2 \<and> test_entry 1 5 \<in> set es"
proof -
  let ?rt = "(RoutingTableEntry_new 0 0 5 True 20 test_iface 0 0 100)\<lparr>rt_flag := IN_SEARCH\<rparr>"
  have route: "route_of searching_node 5 = Some ?rt" "rt_flag ?rt = IN_SEARCH"
    by (simp_all add: searching_node_def route_of_def table_map_def)
  have timer: "map_of (m_addressReqTimer searching_node) 5 = Some 50" by (simp add: searching_node_def)
  have queue: "test_entry 1 5 \<in> set (m_queue (m_rqueue searching_node))" "GetDestination (qe_header (test_entry 1 5)) = 5"
    by (simp_all add: searching_node_def test_entry_def QueueEntry_new_def)
  have limits: "unat (rt_reqCount ?rt) + 2 = unat (RreqRetries (par searching_node))"
    "unat (RreqRetries (par searching_node)) < 256"
    "unat (m_rreqCount searching_node) + 2 \<le> unat (RreqRateLimit (par searching_node))"
    by code_simp+
  from discovery_gives_up [OF searching_node_wf route timer limits, of test_env] queue show ?thesis
    by (auto simp: eval_nat_numeral)
qed

section \<open>A packet without a route\<close>

lemma purge_subset: "RequestQueue_Purge now q = (q1, d) \<Longrightarrow> set (m_queue q1) \<subseteq> set (m_queue q)"
  by (auto simp: RequestQueue_Purge_def)

lemma Enqueue_accepted:
  assumes "RequestQueue_wf q" "\<forall>x\<in>set (m_queue q). qe_key x \<noteq> qe_key e"
  shows "\<exists>q' d es. RequestQueue_Enqueue now e q = Some (True, q', d)
    \<and> m_queue q' = es @ [QueueEntry_SetExpireTime now (m_queueTimeout q) e] \<and> set es \<subseteq> set (m_queue q)"
  using assms(1)
proof (cases rule: Enqueue_cases [where now = now and e = e])
  case (dup q1 d)
  then show ?thesis using assms(2) by (auto simp: RequestQueue_Purge_def)
next
  case (room q1 d)
  with purge_subset [OF room(1)] show ?thesis by simp
next
  case (full q1 d x xs)
  with purge_subset [OF full(1)] show ?thesis by simp
qed

lemma RouteOutput_deferred:
  assumes "m_socketAddresses n = j # js" "GetLocal (snd j) \<noteq> Ipv4Address_default (lib E)" "m_lo n \<noteq> 0"
    and "deferred_tag p = None" "\<not> IsMulticast (lib E) (GetDestination h)"
    and "\<forall>rt. route_of (aged now n) (GetDestination h) = Some rt \<longrightarrow> rt_flag rt \<noteq> VALID"
  shows "RouteOutput E now (Some p) h 0 n = Some (\<lparr>out_route = Some \<lparr>route_destination = GetDestination h,
      route_gateway = Ipv4Address_loopback, route_source = GetLocal (snd j), route_device = m_lo n\<rparr>,
      out_sockerr = Some ERROR_NOTERROR, out_packet = Some (p\<lparr>deferred_tag := Some (- 1)\<rparr>)\<rparr>, aged now n)"
proof -
  have "LoopbackRoute E h 0 (aged now n) = Some \<lparr>route_destination = GetDestination h,
      route_gateway = Ipv4Address_loopback, route_source = GetLocal (snd j), route_device = m_lo n\<rparr>"
    using assms(1-3) by (simp add: LoopbackRoute_def loopback_source_def)
  moreover have "(case route_of (aged now n) (GetDestination h) of None \<Rightarrow> None
      | Some rt \<Rightarrow> if rt_flag rt = VALID then Some rt else None) = None"
    using assms(6) by (auto split: option.split)
  ultimately show ?thesis
    using assms(1,4,5) by (simp add: RouteOutput_def lookup_valid_route_eq Let_def)
qed

lemma DeferredRouteOutput_spec:
  assumes "node_wf n" "RequestQueue_Enqueue now (QueueEntry_new now p h u e now) (m_rqueue n) = Some (True, q, d)"
  shows "DeferredRouteOutput E now p h u e n =
    (let m = aged now ((n\<lparr>m_rqueue := q\<rparr>)\<lparr>out := out n @ map dropped_report d\<rparr>)
     in Some (if \<exists>rt. route_of (aged now n) (GetDestination h) = Some rt \<and> rt_flag rt = IN_SEARCH
              then m else SendRequest E now (GetDestination h) m))"
proof -
  have "route_of (aged now ((n\<lparr>m_rqueue := q\<rparr>)\<lparr>out := out n @ map dropped_report d\<rparr>)) = route_of (aged now n)"
    by (simp add: aged_def route_of_def fun_eq_iff)
  then show ?thesis
    by (auto simp: DeferredRouteOutput_def assms(2) report_dropped_eq lookup_route_eq Let_def split: option.splits)
qed


definition idle_node :: node where
  "idle_node = (node_new ns3_library)\<lparr>m_socketAddresses := [(3, test_iface)], m_lo := 7, m_ipv4 := True\<rparr>"

lemma idle_node_facts:
  "node_wf idle_node" "m_socketAddresses idle_node = (3, test_iface) # []" "m_lo idle_node = 7" "m_ipv4 idle_node"
  "route_of (aged 0 idle_node) a = None" "m_queue (m_rqueue idle_node) = []" "out idle_node = []"
  by (simp_all add: idle_node_def node_wf_def RoutingTable_wf_def RoutingTable_new_def Neighbors_wf_def
      RequestQueue_wf_def RequestQueue_new_def IdCache_wf_def node_new_def Let_def map_ok_Cons
      Neighbors_new_def Neighbors_SetCallback_def IdCache_new_def params_default_def
      route_of_def aged_def RoutingTable_Purge_simp table_map_def purge_entries_def map_filter_simps ns3_library_def)


end
