(* ===== verification/Replies.thy ===== *)
theory Replies
  imports Discovery
begin

text \<open>
  The answer to a request and what it does where it arrives: the destination's reply, the reply of a
  neighbour as the bytes on the wire, replies behind a hello, and the limit on route errors.
\<close>

section \<open>The destination answers\<close>

lemma SendReply_out:
  assumes "FindSocketWithInterfaceAddress (rt_iface rt) n = Some s"
    and "m = n\<lparr>m_seqNo := if \<not> RreqHeader_GetUnknownSeqno h \<and> rreq_dstSeqNo h = m_seqNo n + 1
      then m_seqNo n + 1 else m_seqNo n\<rparr>"
  shows "SendReply E h rt n = Some (emit (SendTo s (Rrep (RrepHeader_new (unit_of_time E) 0 0 (rreq_dst h) (m_seqNo m)
    (GetDestinationOf rt) (MyRouteTimeout (par n)))) (GetNextHop rt)) m)"
proof -
  have m: "(if \<not> RreqHeader_GetUnknownSeqno h \<and> rreq_dstSeqNo h = m_seqNo n + 1
      then n\<lparr>m_seqNo := m_seqNo n + 1\<rparr> else n) = m"
    by (simp add: assms(2))
  have "FindSocketWithInterfaceAddress (rt_iface rt) m = Some s" "par m = par n"
    using assms(1) find_socket_frame [of m n] by (simp_all add: assms(2))
  then show ?thesis
    unfolding SendReply_def Let_def m by (simp add: send_on_found)
qed

lemma destination_answers:
  assumes "RoutingTable_wf (m_routingTable n)"
    and "\<forall>rt. route_of (aged now n) src = Some rt \<longrightarrow> \<not> rt_blackListState rt"
    and "\<not> fst (IdCache_IsDuplicate now (rreq_origin h) (rreq_requestID h) (m_rreqIdCache n))"
    and "IsMyOwnAddress n (rreq_dst h)"
    and "FindSocketWithInterfaceAddress (iface_of E receiver) n = Some s"
  shows "\<exists>n' hdr. handle_request E now h receiver src n = Some n'
    \<and> out n' = out n @ [SendTo s (Rrep hdr) src]
    \<and> rrep_dst hdr = rreq_dst h \<and> rrep_origin hdr = rreq_origin h \<and> rrep_hopCount hdr = 0 \<and> rrep_flags hdr = 0
    \<and> rrep_dstSeqNo hdr = m_seqNo n'
    \<and> m_seqNo n' = (if \<not> RreqHeader_GetUnknownSeqno h \<and> rreq_dstSeqNo h = m_seqNo n + 1
                    then m_seqNo n + 1 else m_seqNo n)
    \<and> (\<forall>rt. route_of n' (rreq_origin h) = Some rt \<longrightarrow>
         GetNextHop rt = src \<and> rt_iface rt = iface_of E receiver)"
proof -
  let ?h = "h\<lparr>rreq_hopCount := rreq_hopCount h + 1\<rparr>"
  let ?n = "(aged now n)\<lparr>m_rreqIdCache :=
    snd (IdCache_IsDuplicate now (rreq_origin h) (rreq_requestID h) (m_rreqIdCache n))\<rparr>"
  obtain m old where rev: "reverse_route E now ?h receiver src ?n = (m, old)" by fastforce
  have wf: "RoutingTable_wf (m_routingTable ?n)" using aged_wf [OF assms(1)] by simp
  note spec = reverse_route_spec [OF wf rev]
  define rt where "rt = found (route_of (aged now m) (rreq_origin h)) old"
  have rt: "rt_iface rt = iface_of E receiver" "GetNextHop rt = src" "GetDestinationOf rt = rreq_origin h"
    using spec(3) [of rt] by (simp_all add: rt_def)
  have frame: "IsMyOwnAddress m (rreq_dst h)" "out (aged now m) = out n" "m_seqNo (aged now m) = m_seqNo n"
    "m_socketAddresses (aged now m) = m_socketAddresses n"
    using assms(4) reverse_frame [OF rev] rev
    by (auto simp: IsMyOwnAddress_def reverse_route_def lookup_route_eq Let_def split: option.splits)
  have sock: "FindSocketWithInterfaceAddress (rt_iface rt) (aged now m) = Some s"
    using assms(5) find_socket_frame [OF frame(4)] rt(1) by simp
  have flag: "RreqHeader_GetUnknownSeqno ?h = RreqHeader_GetUnknownSeqno h"
    by (simp add: RreqHeader_GetUnknownSeqno_def)
  have "handle_request E now h receiver src n = SendReply E ?h rt (aged now m)"
    unfolding handle_request_new [OF assms(2,3)] answer_request_def Let_def rev prod.case
    using frame(1) by (simp add: lookup_route_eq rt_def)
  moreover define m' where "m' = (aged now m)\<lparr>m_seqNo := if \<not> RreqHeader_GetUnknownSeqno ?h
    \<and> rreq_dstSeqNo ?h = m_seqNo (aged now m) + 1 then m_seqNo (aged now m) + 1 else m_seqNo (aged now m)\<rparr>"
  moreover define hdr where "hdr = RrepHeader_new (unit_of_time E) 0 0 (rreq_dst h) (m_seqNo m')
    (rreq_origin h) (MyRouteTimeout (par (aged now m)))"
  ultimately have eq: "handle_request E now h receiver src n = Some (emit (SendTo s (Rrep hdr) src) m')"
    using SendReply_out [OF sock m'_def] rt by simp
  have "route_of m' = route_of (aged now m)" by (simp add: m'_def)
  then have "\<forall>r. route_of m' (rreq_origin h) = Some r \<longrightarrow> GetNextHop r = src \<and> rt_iface r = iface_of E receiver"
    using rt by (auto simp: rt_def found_def)
  moreover have "route_of (emit e m') = route_of m'" for e by (simp add: emit_def)
  moreover have "rrep_dst hdr = rreq_dst h" "rrep_origin hdr = rreq_origin h" "rrep_hopCount hdr = 0" "rrep_flags hdr = 0"
    "rrep_dstSeqNo hdr = m_seqNo m'"
    by (simp_all add: hdr_def RrepHeader_new_def)
  moreover have "m_seqNo m' = (if \<not> RreqHeader_GetUnknownSeqno h \<and> rreq_dstSeqNo h = m_seqNo n + 1
      then m_seqNo n + 1 else m_seqNo n)" "out m' = out n"
    using frame flag by (simp_all add: m'_def)
  ultimately show ?thesis
    by (intro exI [of _ "emit (SendTo s (Rrep hdr) src) m'"] exI [of _ hdr]) (simp add: eq, simp add: emit_def)
qed

text \<open>C15: The destination of a request answers it. A new request for one of the node's own addresses, from
  a neighbour not on the blacklist, is answered with exactly one message, a RREP to that neighbour on
  the interface it came from: for the address asked for and the request's originator, zero hops, with
  the node's own sequence number, which is first raised by one if the request asks for the next
  one; and the way back to the originator now leads through that neighbour.\<close>

theorem destination_replies:
  assumes "RoutingTable_wf (m_routingTable n)"
    and "\<forall>rt. route_of (aged now n) src = Some rt \<longrightarrow> \<not> rt_blackListState rt"
    and "\<not> fst (IdCache_IsDuplicate now (rreq_origin h) (rreq_requestID h) (m_rreqIdCache n))"
    and "IsMyOwnAddress n (rreq_dst h)"
    and "FindSocketWithInterfaceAddress (iface_of E receiver) n = Some s"
  shows "\<exists>n' hdr. handle_request E now h receiver src n = Some n'
    \<and> out n' = out n @ [SendTo s (Rrep hdr) src]
    \<and> rrep_dst hdr = rreq_dst h \<and> rrep_origin hdr = rreq_origin h \<and> rrep_hopCount hdr = 0
    \<and> rrep_dstSeqNo hdr = m_seqNo n'
    \<and> m_seqNo n' = (if \<not> RreqHeader_GetUnknownSeqno h \<and> rreq_dstSeqNo h = m_seqNo n + 1
                    then m_seqNo n + 1 else m_seqNo n)
    \<and> (\<forall>rt. route_of n' (rreq_origin h) = Some rt \<longrightarrow>
         GetNextHop rt = src \<and> rt_iface rt = iface_of E receiver)"
  using destination_answers [OF assms] by blast

theorem destination_replies_witness:
  "\<exists>n' hdr. handle_request test_env 0 (test_request\<lparr>rreq_dst := 0x0a000001\<rparr>) 0x0a000001 9 idle_node = Some n'
     \<and> out n' = [SendTo 3 (Rrep hdr) 9] \<and> rrep_origin hdr = 9 \<and> rrep_dstSeqNo hdr = 0"
proof -
  let ?h = "test_request\<lparr>rreq_dst := 0x0a000001\<rparr>"
  have wf: "RoutingTable_wf (m_routingTable idle_node)" by (rule node_wf_parts(1) [OF idle_node_facts(1)])
  have new: "\<not> fst (IdCache_IsDuplicate 0 (rreq_origin ?h) (rreq_requestID ?h) (m_rreqIdCache idle_node))"
    by code_simp
  have own: "IsMyOwnAddress idle_node (rreq_dst ?h)"
    by (simp add: IsMyOwnAddress_def idle_node_facts test_iface_def)
  have sock: "FindSocketWithInterfaceAddress (iface_of test_env 0x0a000001) idle_node = Some 3"
    by (simp add: FindSocketWithInterfaceAddress_def idle_node_facts iface_of_def test_env_def Ipv4Address_loopback_def)
  have white: "\<forall>rt. route_of (aged 0 idle_node) 9 = Some rt \<longrightarrow> \<not> rt_blackListState rt"
    by (simp add: idle_node_facts)
  have req: "rreq_origin ?h = 9" "rreq_dstSeqNo ?h = 0" "m_seqNo idle_node = 0" "(0 :: u32) \<noteq> 0 + 1"
    by (simp_all add: test_request_def idle_node_def node_new_def Let_def)
  from destination_replies [OF wf white new own sock] show ?thesis
    unfolding req idle_node_facts using req(4) by fastforce
qed

section \<open>The reply of a neighbour\<close>

text \<open>The entry \<open>UpdateRouteToNeighbor\<close> keeps: with a valid number, one hop, over the same device. Any other
  entry, searched for or not, becomes a valid route without a sequence number.\<close>

definition direct_entry :: "device \<Rightarrow> RoutingTableEntry \<Rightarrow> bool" where
  "direct_entry dev rt \<longleftrightarrow> rt_validSeqNo rt \<and> rt_hops rt = 1 \<and> GetOutputDevice rt = dev"

lemma direct_kept:
  "route_of (aged now n) sender = Some rt \<Longrightarrow> direct_entry (device_of E receiver) rt \<Longrightarrow>
   UpdateRouteToNeighbor E now sender receiver n = aged now n"
  by (simp add: UpdateRouteToNeighbor_def lookup_route_eq direct_entry_def)

lemma neighbour_route:
  assumes "RoutingTable_wf (m_routingTable n)" "route_of (aged now n) sender = Some rt" "\<not> direct_entry (device_of E receiver) rt"
    and "m = UpdateRouteToNeighbor E now sender receiver n"
  shows "RoutingTable_wf (m_routingTable m)"
    and "route_of m sender = Some (RoutingTableEntry_new now (device_of E receiver) sender False 0
      (iface_of E receiver) 1 sender (max (ActiveRouteTimeout (par n)) (GetLifeTime now rt)))"
    and "m_addressReqTimer m = m_addressReqTimer n" "m_rqueue m = m_rqueue n" "out m = out n"
    and "m_socketAddresses m = m_socketAddresses n"
proof -
  note wf = aged_wf [OF assms(1), of now]
  let ?e = "RoutingTableEntry_new now (device_of E receiver) sender False 0 (iface_of E receiver) 1 sender
    (max (ActiveRouteTimeout (par n)) (GetLifeTime now rt))"
  have m: "m = update_route ?e (aged now n)"
    using assms by (auto simp: UpdateRouteToNeighbor_def lookup_route_eq direct_entry_def)
  show "RoutingTable_wf (m_routingTable m)"
    using wf by (simp add: m update_route_def RoutingTable_wf_Update)
  show "route_of m sender = Some ?e"
    using route_of_update [OF wf, of ?e] assms(2) by (simp add: m)
  show "m_addressReqTimer m = m_addressReqTimer n" "m_rqueue m = m_rqueue n" "out m = out n"
    "m_socketAddresses m = m_socketAddresses n"
    by (simp_all add: m) (simp_all add: update_route_def aged_def)
qed

lemma neighbour_answer_delivered:
  assumes "node_wf n" and "buffer_laws (buf E)" and "map_of (m_socketAddresses n) s = Some iface"
    and "route_of (aged now n) sender = Some rt" and "\<not> direct_entry (device_of E (GetLocal iface)) rt" and "0 \<le> ActiveRouteTimeout (par n)"
    and "IsMyOwnAddress n (rrep_origin h)" and "rrep_dst h = sender" and "rrep_origin h \<noteq> sender"
    and "\<not> RrepHeader_GetAckRequired h" and "0 \<le> RrepHeader_GetLifeTime (unit_of_time E) h"
    and "newEntry = RoutingTableEntry_new now (device_of E (GetLocal iface)) sender True (rrep_dstSeqNo h)
      (iface_of E (GetLocal iface)) (ucast (rrep_hopCount h + 1)) sender (RrepHeader_GetLifeTime (unit_of_time E) h)"
    and "\<forall>e\<in>set (m_queue (m_rqueue n)). GetDestination (qe_header e) = sender \<longrightarrow> tag_allows E (rt_route newEntry) e"
  shows "\<exists>n'. RecvAodv E now s sender (wire (buf E) (Rrep h) @ padding) n = Some n'
    \<and> route_of n' sender = Some newEntry
    \<and> m_addressReqTimer n' = m_addressReqTimer n
    \<and> \<not> RequestQueue_Find sender (m_rqueue n')
    \<and> out n' = out n @ map dropped_report (filter (QueueEntry_IsExpired now) (m_queue (m_rqueue n)))
        @ map (handed_over (rt_route newEntry)) (filter (\<lambda>e. GetDestination (qe_header e) = sender)
            (filter (\<lambda>e. \<not> QueueEntry_IsExpired now e) (m_queue (m_rqueue n))))"
proof -
  define m where "m = UpdateRouteToNeighbor E now sender (GetLocal iface) n"
  note up = neighbour_route [OF node_wf_parts(1) [OF assms(1)] assms(4,5) m_def]
  let ?e = "RoutingTableEntry_new now (device_of E (GetLocal iface)) sender False 0
      (iface_of E (GetLocal iface)) 1 sender (max (ActiveRouteTimeout (par n)) (GetLifeTime now rt))"
  let ?h = "h\<lparr>rrep_hopCount := rrep_hopCount h + 1\<rparr>"
  have "\<not> GetLifeTime now ?e < 0" using assms(6) by (simp add: GetLifeTime_def)
  then have old: "route_of (aged now m) sender = Some ?e"
    using up(2) by (simp add: route_of_aged [OF up(1)] age_entry_def)
  have h: "RrepHeader_GetLifeTime (unit_of_time E) ?h = RrepHeader_GetLifeTime (unit_of_time E) h"
    "RrepHeader_GetAckRequired ?h = RrepHeader_GetAckRequired h"
    by (simp_all add: RrepHeader_GetLifeTime_def RrepHeader_GetAckRequired_def)
  obtain n1 r where i: "install_reply now newEntry ?h m = (n1, r)" by fastforce
  have n1: "n1 = fst (install_reply now newEntry ?h m)" and r0: "r = snd (install_reply now newEntry ?h m)"
    using i by simp_all
  note spec = install_reply_route [OF up(1), of newEntry now "device_of E (GetLocal iface)" ?h
      "iface_of E (GetLocal iface)" sender "RrepHeader_GetLifeTime (unit_of_time E) h"]
  have r: "r = Some ?e" using spec(1) old assms(8,12) r0 by simp
  have wf1: "RoutingTable_wf (m_routingTable n1)" unfolding n1 by (rule install_wf [OF up(1)])
  have "route_of n1 sender = Some newEntry"
    using spec(2) old assms(8,12) unfolding n1 by (simp add: RoutingTableEntry_new_def)
  moreover have "\<not> GetLifeTime now newEntry < 0" using assms(11,12) by (simp add: GetLifeTime_def)
  ultimately have route: "route_of (aged now n1) sender = Some newEntry"
    by (simp add: route_of_aged [OF wf1] age_entry_def)
  have frame: "m_addressReqTimer (aged now n1) = m_addressReqTimer n" "m_rqueue (aged now n1) = m_rqueue n"
    "out (aged now n1) = out n" "IsMyOwnAddress n1 (rrep_origin h)"
    using up(3-6) assms(7) unfolding n1
    by (auto simp: install_reply_def lookup_route_eq aged_def update_route_def add_route_def IsMyOwnAddress_def
        split: option.splits)
  have "handle_reply E now h (GetLocal iface) sender m =
      Some (SendPacketFromQueue E now sender (rt_route newEntry) (aged now n1))"
    using assms(8-10) frame(4) route i unfolding handle_reply_def Let_def
    by (simp add: h assms(12) [symmetric] lookup_route_eq r entry_or_default_def found_def)
  then have recv: "RecvAodv E now s sender (wire (buf E) (Rrep h) @ padding) n =
      Some (SendPacketFromQueue E now sender (rt_route newEntry) (aged now n1))"
    using rrep_codec.de_ser [OF assms(2)]
    by (simp add: receive_typed [OF assms(2) node_wf_parts(7) [OF assms(1)] assms(3)] RecvReply_def m_def Let_def)
  have "\<forall>e\<in>set (m_queue (m_rqueue (aged now n1))).
      GetDestination (qe_header e) = sender \<longrightarrow> tag_allows E (rt_route newEntry) e"
    using assms(13) frame(2) by simp
  note all = SendPacketFromQueue_all [OF this, where now = now]
  show ?thesis
    unfolding recv all frame
    by (rule exI, rule conjI, rule refl) (simp add: frame RequestQueue_Find_def route)
qed

text \<open>C17: A neighbour's reply, from its bytes to the waiting packets. When the neighbour the node searches
  for answers with a RREP that arrives as a packet, the route becomes the one the RREP carries,
  directly through the neighbour, and every waiting packet for it is handed over in order. The retry timer
  stops only if the searched entry had a valid sequence number, one hop and the device the reply came in on.
  With any other entry, a new one among them, it keeps running: receiving the packet has already replaced
  the searched entry by an ordinary valid one, so that \<open>RecvReply\<close> sees no search to end.\<close>

theorem neighbour_reply_delivers:
  assumes "node_wf n" and "buffer_laws (buf E)" and "map_of (m_socketAddresses n) s = Some iface"
    and "route_of (aged now n) sender = Some rt" and "rt_flag rt = IN_SEARCH" and "0 \<le> ActiveRouteTimeout (par n)"
    and "IsMyOwnAddress n (rrep_origin h)" and "rrep_dst h = sender" and "rrep_origin h \<noteq> sender"
    and "\<not> RrepHeader_GetAckRequired h" and "0 \<le> RrepHeader_GetLifeTime (unit_of_time E) h"
    and "newEntry = RoutingTableEntry_new now (device_of E (GetLocal iface)) sender True (rrep_dstSeqNo h)
      (iface_of E (GetLocal iface)) (ucast (rrep_hopCount h + 1)) sender (RrepHeader_GetLifeTime (unit_of_time E) h)"
    and "\<forall>e\<in>set (m_queue (m_rqueue n)). GetDestination (qe_header e) = sender \<longrightarrow> tag_allows E (rt_route newEntry) e"
  shows "\<exists>n'. RecvAodv E now s sender (wire (buf E) (Rrep h) @ padding) n = Some n'
    \<and> route_of n' sender = Some newEntry
    \<and> m_addressReqTimer n' =
        (if rt_validSeqNo rt \<and> rt_hops rt = 1 \<and> GetOutputDevice rt = device_of E (GetLocal iface)
         then map_erase sender (m_addressReqTimer n) else m_addressReqTimer n)
    \<and> \<not> RequestQueue_Find sender (m_rqueue n')
    \<and> out n' = out n @ map dropped_report (filter (QueueEntry_IsExpired now) (m_queue (m_rqueue n)))
        @ map (handed_over (rt_route newEntry)) (filter (\<lambda>e. GetDestination (qe_header e) = sender)
            (filter (\<lambda>e. \<not> QueueEntry_IsExpired now e) (m_queue (m_rqueue n))))"
proof (cases "direct_entry (device_of E (GetLocal iface)) rt")
  case False
  with neighbour_answer_delivered [OF assms(1-4) False assms(6-13), of padding] show ?thesis
    unfolding direct_entry_def by auto
next
  case True
  let ?m = "aged now n"
  note wf = node_wf_parts(1) [OF assms(1)]
  have "RecvAodv E now s sender (wire (buf E) (Rrep h) @ padding) n = handle_reply E now h (GetLocal iface) sender ?m"
    using receive_message [OF assms(2) node_wf_parts(7) [OF assms(1)] assms(3) _ refl, of "Rrep h"]
    by (simp add: direct_kept [OF assms(4) True])
  moreover have m: "m_addressReqTimer ?m = m_addressReqTimer n" "m_rqueue ?m = m_rqueue n" "out ?m = out n"
    by (simp_all add: aged_def)
  moreover have "route_of (aged now ?m) (rrep_dst h) = Some rt" "IsMyOwnAddress ?m (rrep_origin h)"
    "rrep_dst h \<noteq> rrep_origin h"
    using assms(4,7-9) by (simp_all add: route_of_aged_twice [OF wf] IsMyOwnAddress_def)
  note search_answered [OF aged_wf [OF wf] this(2,3) assms(10) this(1) assms(5), of newEntry E "GetLocal iface" sender,
      unfolded m assms(8), OF assms(12,11,13)]
  ultimately show ?thesis using True unfolding direct_entry_def by auto
qed

text \<open>A node that searches for its neighbour 5: an address it never heard of, or a direct route that expired.\<close>

definition asking_node :: "RoutingTableEntry \<Rightarrow> node" where
  "asking_node rt = searching_node\<lparr>m_routingTable := \<lparr>m_ipv4AddressEntry = [(5, rt\<lparr>rt_flag := IN_SEARCH\<rparr>)], m_badLinkLifetime = 15\<rparr>\<rparr>"

lemma asking_node_facts:
  assumes "GetDestinationOf rt = 5"
  shows "node_wf (asking_node rt)" "route_of (aged 0 (asking_node rt)) 5 = Some (rt\<lparr>rt_flag := IN_SEARCH\<rparr>)"
proof -
  have table: "RoutingTable_wf (m_routingTable (asking_node rt))"
    using assms by (simp add: asking_node_def RoutingTable_wf_def map_ok_Cons GetDestinationOf_def)
  then show "node_wf (asking_node rt)"
    using searching_node_wf unfolding asking_node_def by (auto intro: node_wf_field)
  show "route_of (aged 0 (asking_node rt)) 5 = Some (rt\<lparr>rt_flag := IN_SEARCH\<rparr>)"
    by (simp add: route_of_aged [OF table]) (simp add: asking_node_def route_of_def table_map_def age_entry_def)
qed

theorem neighbour_reply_delivers_witness:
  "(\<exists>n'. RecvAodv test_env 0 3 5 (wire net_buffer (Rrep \<lparr>rrep_flags = 0, rrep_prefixSize = 0, rrep_hopCount = 0,
       rrep_dst = 5, rrep_dstSeqNo = 9, rrep_origin = 0x0a000001, rrep_lifeTime = 100\<rparr>) @ [])
         (asking_node (RoutingTableEntry_new 0 0 5 False 0 test_iface 0 0 0)) = Some n'
       \<and> \<not> RequestQueue_Find 5 (m_rqueue n') \<and> length (out n') = 1 \<and> map_of (m_addressReqTimer n') 5 = Some 50)
   \<and> (\<exists>n'. RecvAodv test_env 0 3 5 (wire net_buffer (Rrep \<lparr>rrep_flags = 0, rrep_prefixSize = 0, rrep_hopCount = 0,
       rrep_dst = 5, rrep_dstSeqNo = 9, rrep_origin = 0x0a000001, rrep_lifeTime = 100\<rparr>) @ [])
         (asking_node (RoutingTableEntry_new 0 1 5 True 7 test_iface 1 5 0)) = Some n'
       \<and> \<not> RequestQueue_Find 5 (m_rqueue n') \<and> length (out n') = 1 \<and> map_of (m_addressReqTimer n') 5 = None)"
proof -
  let ?h = "\<lparr>rrep_flags = 0, rrep_prefixSize = 0, rrep_hopCount = 0,
       rrep_dst = 5, rrep_dstSeqNo = 9, rrep_origin = 0x0a000001, rrep_lifeTime = 100\<rparr> :: RrepHeader"
  let ?e1 = "RoutingTableEntry_new 0 0 5 False 0 test_iface 0 0 0" and ?e2 = "RoutingTableEntry_new 0 1 5 True 7 test_iface 1 5 0"
  have run: "\<exists>n'. RecvAodv test_env 0 3 5 (wire net_buffer (Rrep ?h) @ []) (asking_node rt) = Some n'
     \<and> \<not> RequestQueue_Find 5 (m_rqueue n') \<and> length (out n') = 1
     \<and> map_of (m_addressReqTimer n') 5 = (if rt_validSeqNo rt then None else Some 50)" if "rt \<in> {?e1, ?e2}" for rt
  proof -
    from that have dst: "GetDestinationOf rt = 5"
      and kept: "rt_validSeqNo rt \<longrightarrow> rt_hops rt = 1 \<and> GetOutputDevice rt = device_of test_env 0x0a000001"
      by (auto simp: RoutingTableEntry_new_def GetDestinationOf_def GetOutputDevice_def device_of_def test_env_def
          Ipv4Address_loopback_def)
    note facts = asking_node_facts [OF dst]
    let ?n = "asking_node rt"
    have laws: "buffer_laws (buf test_env)" by (simp add: test_env_def net_buffer_laws)
    have same: "m_socketAddresses ?n = m_socketAddresses searching_node" "par ?n = par searching_node"
      "m_rqueue ?n = m_rqueue searching_node" "out ?n = out searching_node"
      "m_addressReqTimer ?n = m_addressReqTimer searching_node" by (simp_all add: asking_node_def)
    have sock: "map_of (m_socketAddresses ?n) 3 = Some test_iface" by (simp add: same searching_node_def)
    have active: "0 \<le> ActiveRouteTimeout (par ?n)"
      by (simp add: same searching_node_def node_new_def params_default_def ns3_library_def Let_def)
    have own: "IsMyOwnAddress ?n (rrep_origin ?h)" by (simp add: IsMyOwnAddress_def same searching_node_def test_iface_def)
    have reply: "\<not> RrepHeader_GetAckRequired ?h" "0 \<le> RrepHeader_GetLifeTime (unit_of_time test_env) ?h"
      "rrep_dst ?h = 5" "rrep_origin ?h \<noteq> 5"
      by (simp_all add: RrepHeader_GetAckRequired_def get_flag_def RrepHeader_GetLifeTime_def test_env_def nanoseconds_def)
    have tags: "\<forall>e\<in>set (m_queue (m_rqueue ?n)). GetDestination (qe_header e) = 5 \<longrightarrow> tag_allows test_env r e" for r
      by (simp add: same searching_node_def tag_allows_def test_entry_def QueueEntry_new_def)
    have queue: "filter (QueueEntry_IsExpired 0) (m_queue (m_rqueue ?n)) = []"
      "length (filter (\<lambda>e. GetDestination (qe_header e) = 5)
          (filter (\<lambda>e. \<not> QueueEntry_IsExpired 0 e) (m_queue (m_rqueue ?n)))) = 1"
      "out ?n = []" "map_of (m_addressReqTimer ?n) 5 = Some 50"
      by (simp_all add: same searching_node_def test_entry_def QueueEntry_new_def QueueEntry_IsExpired_def
          QueueEntry_GetExpireTime_def node_new_def Let_def)
    have buf: "buf test_env = net_buffer" and local: "GetLocal test_iface = 0x0a000001"
      by (simp_all add: test_env_def test_iface_def)
    from neighbour_reply_delivers [OF facts(1) laws sock facts(2) _ active own reply(3,4,1,2) refl tags, of "[]"]
    obtain n' r where n': "RecvAodv test_env 0 3 5 (wire net_buffer (Rrep ?h) @ []) ?n = Some n'"
      "\<not> RequestQueue_Find 5 (m_rqueue n')"
      and timer: "m_addressReqTimer n' = (if rt_validSeqNo rt \<and> rt_hops rt = 1 \<and> GetOutputDevice rt = device_of test_env 0x0a000001
           then map_erase 5 (m_addressReqTimer ?n) else m_addressReqTimer ?n)"
      and out: "out n' = out ?n @ map dropped_report (filter (QueueEntry_IsExpired 0) (m_queue (m_rqueue ?n)))
          @ map (handed_over r) (filter (\<lambda>e. GetDestination (qe_header e) = 5)
              (filter (\<lambda>e. \<not> QueueEntry_IsExpired 0 e) (m_queue (m_rqueue ?n))))"
      unfolding buf local GetOutputDevice_def by auto
    have "length (out n') = 1"
      unfolding out by (simp only: queue length_append length_map list.map list.size add_0)
    moreover have "map_of (m_addressReqTimer n') 5 = (if rt_validSeqNo rt then None else Some 50)"
      using kept queue(4) unfolding timer by (auto simp: map_of_erase)
    ultimately show "\<exists>n'. RecvAodv test_env 0 3 5 (wire net_buffer (Rrep ?h) @ []) ?n = Some n'
       \<and> \<not> RequestQueue_Find 5 (m_rqueue n') \<and> length (out n') = 1
       \<and> map_of (m_addressReqTimer n') 5 = (if rt_validSeqNo rt then None else Some 50)"
      using n' by blast
  qed
  have "\<not> rt_validSeqNo ?e1" "rt_validSeqNo ?e2" by (simp_all add: RoutingTableEntry_new_def)
  with run [of ?e1] run [of ?e2] show ?thesis by simp
qed

section \<open>Hello numbers and sequence numbers\<close>

text \<open>What a hello does to the route to its originator: a detour, kept from a hello over another interface of the
  originator, keeps its next hop and hop count.\<close>

lemma hello_route_spec:
  assumes "RoutingTable_wf (m_routingTable n)" "m = hello_route E now h receiver n"
    and "0 \<le> hello_lifetime n" "0 \<le> LongInterval (par n)"
  shows "RoutingTable_wf (m_routingTable m) \<and> (\<exists>rt. route_of m (m_nodeIdentifier h) = Some rt
    \<and> rt_flag rt = VALID \<and> rt_validSeqNo rt \<and> rt_seqNo rt = ucast (m_helloSequenceNumber h) \<and> now \<le> rt_lifeTime rt
    \<and> GetOutputDevice rt = device_of E receiver
    \<and> (case route_of (aged now n) (m_nodeIdentifier h) of
         None \<Rightarrow> GetNextHop rt = m_nodeIdentifier h \<and> rt_hops rt = 1
       | Some old \<Rightarrow> GetNextHop rt = GetNextHop old \<and> rt_hops rt = rt_hops old
           \<and> now + hello_lifetime n \<le> rt_lifeTime rt))"
proof (cases "route_of (aged now n) (m_nodeIdentifier h)")
  case None
  define e where "e = RoutingTableEntry_new now (device_of E receiver) (m_nodeIdentifier h) True
    (ucast (m_helloSequenceNumber h)) (iface_of E receiver) 1 (m_nodeIdentifier h) (LongInterval (par n))"
  have m: "m = add_route now e (aged now n)"
    using None by (simp add: assms(2) hello_route_def lookup_route_eq e_def)
  have "RoutingTable_wf (m_routingTable m)"
    using aged_wf [OF assms(1), of now] by (simp add: m add_route_def RoutingTable_wf_AddRoute)
  moreover have "route_of m (m_nodeIdentifier h) = Some e"
    using route_of_add [OF assms(1), of now e] None by (simp add: m e_def)
  moreover have "rt_validSeqNo e" by (simp add: e_def RoutingTableEntry_new_def)
  ultimately show ?thesis using None assms(4) by (simp add: e_def GetOutputDevice_def)
next
  case (Some old)
  note wf = aged_wf [OF assms(1), of now]
  define e where "e = (SetOutputDevice (device_of E receiver) ((SetLifeTime now (max (hello_lifetime (aged now n))
    (GetLifeTime now old)) old)\<lparr>rt_seqNo := ucast (m_helloSequenceNumber h), rt_validSeqNo := True, rt_flag := VALID\<rparr>))
    \<lparr>rt_iface := iface_of E receiver\<rparr>"
  have m: "m = update_route e (aged now n)"
    using Some by (simp add: assms(2) hello_route_def lookup_route_eq e_def Let_def)
  have key: "GetDestinationOf e = m_nodeIdentifier h"
    using route_key [OF wf Some] by (simp add: e_def GetDestinationOf_def SetOutputDevice_def SetLifeTime_def)
  have "RoutingTable_wf (m_routingTable m)"
    using wf by (simp add: m update_route_def RoutingTable_wf_Update)
  moreover have "route_of m (m_nodeIdentifier h) = Some (reset_rreq e)"
    using route_of_update [OF wf, of e] Some by (simp add: m key)
  moreover have "hello_lifetime (aged now n) = hello_lifetime n" by (simp add: hello_lifetime_def)
  ultimately show ?thesis
    using Some assms(3)
    by (simp add: e_def reset_rreq_def SetOutputDevice_def SetLifeTime_def GetNextHop_def GetOutputDevice_def)
qed

text \<open>\<open>RecvHello\<close> always gets through, and changes the neighbours, the hello cache and this route only.\<close>

lemma hello_handled:
  assumes "Neighbors_wf (m_nb n)"
    and "\<not> fst (IdCache_IsDuplicate now (m_nodeIdentifier h) (ucast (m_helloSequenceNumber h)) (m_helloIdCache n))"
  shows "\<exists>c nb. handle_hello E now h receiver sender n =
    Some (n\<lparr>m_helloIdCache := c, m_nb := nb, m_routingTable := m_routingTable (hello_route E now h receiver n)\<rparr>)"
proof -
  let ?a = "m_nodeIdentifier h"
  define c where "c = snd (IdCache_IsDuplicate now ?a (ucast (m_helloSequenceNumber h)) (m_helloIdCache n))"
  define nb where "nb = UpdateNeighborTuple (lib E) now h (IsMyOwnAddress n (m_associatedBnIdentifier h)) (m_nb n)"
  have "FindNeighborTuple ?a nb \<noteq> None"
    unfolding nb_def find_UpdateNeighborTuple [OF assms(1)] by (simp add: Let_def)
  then obtain nt nb1 where nb1: "UpdateMulticastNeighborTuple now h (LongInterval (par n)) nb = Some nb1"
    "FindNeighborTuple ?a nb1 = Some nt"
    by (auto simp: UpdateMulticastNeighborTuple_def FindNeighborTuple_def find_modify_first Let_def)
  define k where "k = hello_route E now h receiver (n\<lparr>m_helloIdCache := c, m_nb := nb1\<rparr>)"
  have k: "k = n\<lparr>m_helloIdCache := c, m_nb := nb1, m_routingTable := m_routingTable (hello_route E now h receiver n)\<rparr>"
    by (simp add: k_def hello_route_def lookup_route_def add_route_def update_route_def hello_lifetime_def Let_def
        split: prod.split option.split)
  define x where "x = (if EnableHello (par k) then fst (Neighbors_Update (lib E) (arp E) now ?a (hello_lifetime k) nb1) else nb1)"
  have "nb_update E now ?a t k = Some (k\<lparr>m_nb := fst (Neighbors_Update (lib E) (arp E) now ?a t nb1)\<rparr>)" for t
    using find_Update_known(2) [OF nb1(2), of "lib E" "arp E" now t] by (simp add: nb_update_def k prod.case_eq_if)
  moreover have "k\<lparr>m_nb := nb1\<rparr> = k" by (simp add: k)
  moreover have "IsMyOwnAddress (n\<lparr>m_helloIdCache := c\<rparr>) = IsMyOwnAddress n" by (simp add: IsMyOwnAddress_def fun_eq_iff)
  then have "handle_hello E now h receiver sender n =
      (if EnableHello (par k) then nb_update E now ?a (hello_lifetime k) k else Some k)"
    using assms(2) nb1(1) by (simp add: handle_hello_def prod.case_eq_if Let_def c_def [symmetric] nb_def [symmetric] k_def [symmetric])
  ultimately have "handle_hello E now h receiver sender n = Some (k\<lparr>m_nb := x\<rparr>)" by (simp add: x_def)
  moreover have "k\<lparr>m_nb := x\<rparr> = n\<lparr>m_helloIdCache := c, m_nb := x, m_routingTable := m_routingTable (hello_route E now h receiver n)\<rparr>"
    by (simp add: k)
  ultimately show ?thesis by metis
qed

text \<open>Once its sender's route is refreshed there is a direct entry for it.\<close>

lemma refreshed_entry:
  assumes "RoutingTable_wf (m_routingTable n)" "0 \<le> ActiveRouteTimeout (par n)"
    and "m = UpdateRouteToNeighbor E now a receiver n"
  shows "RoutingTable_wf (m_routingTable m)" "\<exists>t. m = n\<lparr>m_routingTable := t\<rparr>"
    and "b \<noteq> a \<Longrightarrow> route_of m b = route_of (aged now n) b"
    and "\<exists>e. route_of (aged now m) a = Some e \<and> rt_hops e = 1"
proof -
  note wf = aged_wf [OF assms(1), of now]
  let ?new = "\<lambda>l. RoutingTableEntry_new now (device_of E receiver) a False 0 (iface_of E receiver) 1 a l"
  show wfm: "RoutingTable_wf (m_routingTable m)"
    using wf by (auto simp: assms(3) UpdateRouteToNeighbor_def lookup_route_eq add_route_def update_route_def
        RoutingTable_wf_AddRoute RoutingTable_wf_Update split: option.split)
  show "\<exists>t. m = n\<lparr>m_routingTable := t\<rparr>"
    by (auto simp: assms(3) UpdateRouteToNeighbor_def lookup_route_eq aged_def add_route_def update_route_def
        split: option.split)
  show "b \<noteq> a \<Longrightarrow> route_of m b = route_of (aged now n) b"
    by (auto simp: assms(3) UpdateRouteToNeighbor_def lookup_route_eq route_of_add [OF assms(1)] route_of_update [OF wf]
        split: option.split)
  have keep: "\<exists>e. route_of (aged now m) a = Some e \<and> rt_hops e = 1" if "route_of m a = Some (?new l)" "0 \<le> l" for l
    using that by (simp add: route_of_aged [OF wfm] age_entry_def GetLifeTime_def)
  show "\<exists>e. route_of (aged now m) a = Some e \<and> rt_hops e = 1"
  proof (cases "route_of (aged now n) a")
    case None
    then have "m = add_route now (?new (ActiveRouteTimeout (par n))) (aged now n)"
      by (simp add: assms(3) UpdateRouteToNeighbor_def lookup_route_eq)
    with None show ?thesis
      using route_of_add [OF assms(1), of now "?new (ActiveRouteTimeout (par n))"] keep assms(2) by simp
  next
    case (Some rt)
    show ?thesis
    proof (cases "direct_entry (device_of E receiver) rt")
      case True
      with Some show ?thesis
        by (simp add: assms(3) direct_kept route_of_aged_twice [OF assms(1)]) (simp add: direct_entry_def)
    next
      case False
      from neighbour_route(2) [OF assms(1) Some False assms(3)] keep assms(2) show ?thesis by simp
    qed
  qed
qed

text \<open>A reply behind the number of a valid route: the route stays, and the waiting packets take it.\<close>

lemma stale_reply:
  assumes "RoutingTable_wf (m_routingTable n)"
    and "IsMyOwnAddress n (rrep_origin h)" and "rrep_dst h \<noteq> rrep_origin h" and "\<not> RrepHeader_GetAckRequired h"
    and "route_of (aged now n) (rrep_dst h) = Some rt" and "rt_flag rt = VALID" and "rt_validSeqNo rt"
    and "seqno_diff (rrep_dstSeqNo h) (rt_seqNo rt) < 0"
    and "\<forall>e\<in>set (m_queue (m_rqueue n)). GetDestination (qe_header e) = rrep_dst h \<longrightarrow> tag_allows E (rt_route rt) e"
  shows "\<exists>n'. handle_reply E now h receiver sender n = Some n'
    \<and> route_of n' (rrep_dst h) = Some rt
    \<and> m_addressReqTimer n' = m_addressReqTimer n
    \<and> \<not> RequestQueue_Find (rrep_dst h) (m_rqueue n')
    \<and> out n' = out n @ map dropped_report (filter (QueueEntry_IsExpired now) (m_queue (m_rqueue n)))
        @ map (handed_over (rt_route rt)) (filter (\<lambda>e. GetDestination (qe_header e) = rrep_dst h)
            (filter (\<lambda>e. \<not> QueueEntry_IsExpired now e) (m_queue (m_rqueue n))))"
proof -
  let ?k = "aged now (aged now n)"
  have ne: "rrep_dstSeqNo h \<noteq> rt_seqNo rt" using assms(8) by (auto simp: seqno_diff_def)
  have ack: "RrepHeader_GetAckRequired (h\<lparr>rrep_hopCount := k\<rparr>) = RrepHeader_GetAckRequired h" for k
    by (simp add: RrepHeader_GetAckRequired_def)
  have i: "install_reply now e (h\<lparr>rrep_hopCount := k\<rparr>) n = (aged now n, Some rt)" for e k
    using assms(5,7,8) ne by (simp add: install_reply_def lookup_route_eq)
  have own: "IsMyOwnAddress (aged now n) (rrep_origin h)" using assms(2) by (simp add: IsMyOwnAddress_def)
  have route: "route_of ?k (rrep_dst h) = Some rt" using assms(5) by (simp add: route_of_aged_twice [OF assms(1)])
  have k: "m_rqueue ?k = m_rqueue n" "out ?k = out n" "m_addressReqTimer ?k = m_addressReqTimer n" by (simp_all add: aged_def)
  have "handle_reply E now h receiver sender n = Some (SendPacketFromQueue E now (rrep_dst h) (rt_route rt) ?k)"
    using assms(3,4,6) own route unfolding handle_reply_def Let_def
    by (simp add: ack i lookup_route_eq entry_or_default_def found_def)
  moreover have "\<forall>e\<in>set (m_queue (m_rqueue ?k)). GetDestination (qe_header e) = rrep_dst h \<longrightarrow> tag_allows E (rt_route rt) e"
    using assms(9) k(1) by simp
  note SendPacketFromQueue_all [OF this]
  ultimately show ?thesis using route k by (auto simp: RequestQueue_Find_def route_of_def)
qed

text \<open>C22: Hello numbers take the place of sequence numbers. A hello from a neighbour, received as bytes, leaves a
  valid route of one hop to it, over the interface it came in on, for at least the hello lifetime, with the 16-bit
  number of the hello as destination sequence number. As long as that entry is left as it is and lives, a RREP to
  this node for that neighbour whose sequence number, which is counted separately, is behind the hello's
  number, is taken for stale, whether another neighbour passes it on or the neighbour itself sends it over
  the same device: the route stays, the retry timers stay, and the waiting packets go out on the
  route the hello left.\<close>

theorem hello_shadows_replies:
  assumes "node_wf n" and "buffer_laws (buf E)" and "map_of (m_socketAddresses n) s = Some iface"
    and "HelloHeader_wf h" and "origin = m_nodeIdentifier h" and "0 \<le> hello_lifetime n"
    and "0 \<le> LongInterval (par n)" and "0 \<le> ActiveRouteTimeout (par n)"
    and "\<not> fst (IdCache_IsDuplicate now origin (ucast (m_helloSequenceNumber h)) (m_helloIdCache n))"
    and "RecvAodv E now s origin (wire (buf E) (Hello h) @ padding) n = Some m"
    and "route_of m' origin = route_of m origin" and "later \<le> now + hello_lifetime n"
    and "node_wf m'" and "buffer_laws (buf E')" and "map_of (m_socketAddresses m') s' = Some iface'"
    and "sender = origin \<longrightarrow> device_of E' (GetLocal iface') = device_of E (GetLocal iface)"
    and "0 \<le> ActiveRouteTimeout (par m')"
    and "rrep_dst r = origin" and "IsMyOwnAddress m' (rrep_origin r)" and "rrep_origin r \<noteq> origin"
    and "\<not> RrepHeader_GetAckRequired r" and "seqno_diff (rrep_dstSeqNo r) (ucast (m_helloSequenceNumber h)) < 0"
    and "\<forall>rt. route_of m origin = Some rt \<longrightarrow>
      (\<forall>e\<in>set (m_queue (m_rqueue m')). GetDestination (qe_header e) = origin \<longrightarrow> tag_allows E' (rt_route rt) e)"
  shows "\<exists>rt n'. route_of m origin = Some rt \<and> rt_flag rt = VALID \<and> rt_seqNo rt = ucast (m_helloSequenceNumber h)
    \<and> rt_hops rt = 1 \<and> GetOutputDevice rt = device_of E (GetLocal iface) \<and> now + hello_lifetime n \<le> rt_lifeTime rt
    \<and> RecvAodv E' later s' sender (wire (buf E') (Rrep r) @ padding') m' = Some n'
    \<and> route_of n' origin = Some rt
    \<and> m_addressReqTimer n' = m_addressReqTimer m'
    \<and> \<not> RequestQueue_Find origin (m_rqueue n')
    \<and> out n' = out m' @ map dropped_report (filter (QueueEntry_IsExpired later) (m_queue (m_rqueue m')))
        @ map (handed_over (rt_route rt)) (filter (\<lambda>e. GetDestination (qe_header e) = origin)
            (filter (\<lambda>e. \<not> QueueEntry_IsExpired later e) (m_queue (m_rqueue m'))))"
proof -
  define k where "k = UpdateRouteToNeighbor E now origin (GetLocal iface) n"
  note up = refreshed_entry [OF node_wf_parts(1) [OF assms(1)] assms(8) k_def]
  obtain t where t: "k = n\<lparr>m_routingTable := t\<rparr>" using up(2) by blast
  let ?h = "restamp (Seconds (lib E) (InSeconds (lib E) now)) h"
  have h: "m_nodeIdentifier ?h = origin" "m_helloSequenceNumber ?h = m_helloSequenceNumber h"
    by (simp_all add: restamp_def assms(5))
  have frame: "Neighbors_wf (m_nb k)" "m_helloIdCache k = m_helloIdCache n" "par k = par n" "hello_lifetime k = hello_lifetime n"
    using node_wf_parts(2) [OF assms(1)] by (simp_all add: t hello_lifetime_def)
  have "RecvAodv E now s origin (wire (buf E) (Hello h) @ padding) n = handle_hello E now ?h (GetLocal iface) origin k"
    using receive_message [OF assms(2) node_wf_parts(7) [OF assms(1)] assms(3) _ k_def, of "Hello h"] assms(4) by simp
  with assms(10) hello_handled [OF frame(1), of now ?h E "GetLocal iface" origin] assms(9) h frame(2)
  have "m_routingTable m = m_routingTable (hello_route E now ?h (GetLocal iface) k)" by auto
  then have same: "route_of m = route_of (hello_route E now ?h (GetLocal iface) k)" by (simp add: route_of_def fun_eq_iff)
  obtain e where e: "route_of (aged now k) origin = Some e" "rt_hops e = 1" using up(4) by blast
  obtain rt where rt: "route_of m origin = Some rt" "rt_flag rt = VALID" "rt_validSeqNo rt"
    "rt_seqNo rt = ucast (m_helloSequenceNumber h)" "rt_hops rt = 1" "GetOutputDevice rt = device_of E (GetLocal iface)"
    "now + hello_lifetime n \<le> rt_lifeTime rt"
    using hello_route_spec [OF up(1) refl, of E now ?h "GetLocal iface"] assms(6,7) e unfolding same h frame by auto
  note wf' = node_wf_parts(1) [OF assms(13)]
  define k' where "k' = UpdateRouteToNeighbor E' later sender (GetLocal iface') m'"
  note up' = refreshed_entry [OF wf' assms(17) k'_def]
  obtain t' where t': "k' = m'\<lparr>m_routingTable := t'\<rparr>" using up'(2) by blast
  have alive: "\<not> GetLifeTime later rt < 0" using rt(7) assms(12) by (simp add: GetLifeTime_def)
  have aged: "route_of (aged later m') origin = Some rt"
    using rt(1,2) alive by (simp add: route_of_aged [OF wf'] assms(11) age_entry_def)
  have "route_of k' origin = Some rt"
  proof (cases "sender = origin")
    case True
    then have "k' = aged later m'"
      unfolding k'_def by (intro direct_kept) (use aged assms(16) rt in \<open>simp_all add: direct_entry_def\<close>)
    with aged show ?thesis by simp
  qed (use up'(3) aged in simp)
  then have route: "route_of (aged later k') (rrep_dst r) = Some rt"
    using rt(2) alive by (simp add: route_of_aged [OF up'(1)] assms(18) age_entry_def)
  have recv: "RecvAodv E' later s' sender (wire (buf E') (Rrep r) @ padding') m'
      = handle_reply E' later r (GetLocal iface') sender k'"
    using receive_message [OF assms(14) node_wf_parts(7) [OF assms(13)] assms(15) _ k'_def, of "Rrep r"] by simp
  have own: "IsMyOwnAddress k' (rrep_origin r)" "rrep_dst r \<noteq> rrep_origin r"
    using assms(18-20) by (simp_all add: IsMyOwnAddress_def t')
  have behind: "seqno_diff (rrep_dstSeqNo r) (rt_seqNo rt) < 0" using assms(22) by (simp only: rt(4))
  have tags: "\<forall>e\<in>set (m_queue (m_rqueue k')). GetDestination (qe_header e) = rrep_dst r \<longrightarrow> tag_allows E' (rt_route rt) e"
    using assms(18,23) rt(1) by (simp add: t')
  have kept: "m_rqueue k' = m_rqueue m'" "out k' = out m'" "m_addressReqTimer k' = m_addressReqTimer m'" by (simp_all add: t')
  from stale_reply [OF up'(1) own assms(21) route rt(2,3) behind tags, of "GetLocal iface'" sender] rt show ?thesis
    unfolding recv kept assms(18) by blast
qed

theorem hello_shadows_replies_witness:
  "\<exists>m n' rt. RecvAodv test_env 0 3 9 (wire net_buffer (Hello (HelloHeader_new 500 CORE CONVERT_OTHER 9 2 W_NODE_DEGREE 5 [])) @ [])
       idle_node = Some m
     \<and> RecvAodv test_env 1 3 9 (wire net_buffer (Rrep \<lparr>rrep_flags = 0, rrep_prefixSize = 0, rrep_hopCount = 0, rrep_dst = 9,
         rrep_dstSeqNo = 12, rrep_origin = 0x0a000001, rrep_lifeTime = 100\<rparr>) @ []) m = Some n'
     \<and> route_of n' 9 = Some rt \<and> rt_seqNo rt = 500"
proof -
  let ?h = "HelloHeader_new 500 CORE CONVERT_OTHER 9 2 W_NODE_DEGREE 5 []"
  let ?r = "\<lparr>rrep_flags = 0, rrep_prefixSize = 0, rrep_hopCount = 0, rrep_dst = 9, rrep_dstSeqNo = 12,
    rrep_origin = 0x0a000001, rrep_lifeTime = 100\<rparr> :: RrepHeader"
  let ?hello = "wire (buf test_env) (Hello ?h) @ []"
  have buf: "buf test_env = net_buffer" by (simp add: test_env_def)
  then have laws: "buffer_laws (buf test_env)" by (simp add: net_buffer_laws)
  have sock: "map_of (m_socketAddresses idle_node) 3 = Some test_iface" by (simp add: idle_node_facts)
  have h: "9 = m_nodeIdentifier ?h" "m_helloSequenceNumber ?h = 500" "HelloHeader_wf ?h"
    by (simp_all add: HelloHeader_new_def Let_def HelloHeader_wf_def AODVMESH_HELLO_HEADER_SIZE_def)
  have times: "1 \<le> hello_lifetime idle_node" "0 \<le> LongInterval (par idle_node)" "0 \<le> ActiveRouteTimeout (par idle_node)"
    by code_simp+
  have new: "\<not> fst (IdCache_IsDuplicate 0 9 (ucast (m_helloSequenceNumber ?h)) (m_helloIdCache idle_node))" by code_simp
  let ?k = "UpdateRouteToNeighbor test_env 0 9 (GetLocal test_iface) idle_node"
  obtain t where t: "?k = idle_node\<lparr>m_routingTable := t\<rparr>"
    using refreshed_entry(2) [OF node_wf_parts(1) [OF idle_node_facts(1)] times(3) refl] by blast
  let ?g = "restamp (Seconds (lib test_env) (InSeconds (lib test_env) 0)) ?h"
  have g: "m_nodeIdentifier ?g = 9" "m_helloSequenceNumber ?g = m_helloSequenceNumber ?h"
    by (simp_all add: restamp_def h(1) [symmetric])
  have recv: "RecvAodv test_env 0 3 9 ?hello idle_node = handle_hello test_env 0 ?g (GetLocal test_iface) 9 ?k"
    using receive_message [OF laws node_wf_parts(7) [OF idle_node_facts(1)] sock _ refl, of "Hello ?h" 0 9 "[]"] h(3)
    unfolding message_wf.simps handle_message.simps by blast
  have "Neighbors_wf (m_nb ?k)" using node_wf_parts(2) [OF idle_node_facts(1)] by (simp add: t)
  moreover have "\<not> fst (IdCache_IsDuplicate 0 (m_nodeIdentifier ?g) (ucast (m_helloSequenceNumber ?g)) (m_helloIdCache ?k))"
    using new unfolding g by (simp add: t)
  ultimately obtain c nb where "RecvAodv test_env 0 3 9 ?hello idle_node = Some (?k\<lparr>m_helloIdCache := c, m_nb := nb,
      m_routingTable := m_routingTable (hello_route test_env 0 ?g (GetLocal test_iface) ?k)\<rparr>)"
    using hello_handled unfolding recv by blast
  then obtain m where m: "RecvAodv test_env 0 3 9 ?hello idle_node = Some m" "par m = par idle_node"
    "m_socketAddresses m = m_socketAddresses idle_node" "m_rqueue m = m_rqueue idle_node" by (simp add: t)
  have wf: "node_wf m" by (rule step_wf [OF node_step.receive [OF m(1)] idle_node_facts(1)])
  have sock': "map_of (m_socketAddresses m) 3 = Some test_iface" using sock m(3) by simp
  have active: "0 \<le> ActiveRouteTimeout (par m)" using times(3) m(2) by simp
  have r: "IsMyOwnAddress m (rrep_origin ?r)" "rrep_origin ?r \<noteq> 9" "\<not> RrepHeader_GetAckRequired ?r" "rrep_dst ?r = 9"
    by (simp_all add: IsMyOwnAddress_def m(3) idle_node_facts test_iface_def RrepHeader_GetAckRequired_def get_flag_def)
  have behind: "seqno_diff (rrep_dstSeqNo ?r) (ucast (m_helloSequenceNumber ?h)) < 0" by (simp add: h(2) seqno_diff_def)
  have tags: "\<forall>rt. route_of m 9 = Some rt \<longrightarrow>
      (\<forall>e\<in>set (m_queue (m_rqueue m)). GetDestination (qe_header e) = 9 \<longrightarrow> tag_allows test_env (rt_route rt) e)"
    by (simp add: m(4) idle_node_facts)
  have life: "0 \<le> hello_lifetime idle_node" "1 \<le> 0 + hello_lifetime idle_node" using times(1) by simp_all
  from hello_shadows_replies [OF idle_node_facts(1) laws sock h(3,1) life(1) times(2,3) new m(1) refl life(2) wf laws
      sock' _ active r(4,1,2,3) behind tags, of 9 "[]"]
  obtain rt n' where "rt_seqNo rt = ucast (m_helloSequenceNumber ?h)" "route_of n' 9 = Some rt"
    "RecvAodv test_env 1 3 9 (wire (buf test_env) (Rrep ?r) @ []) m = Some n'" by blast
  moreover have "(ucast (500 :: u16) :: u32) = 500" by simp
  ultimately show ?thesis using m(1) unfolding buf h(2) by metis
qed

section \<open>The limit on route errors\<close>

lemma broadcast_rerr_spec:
  "broadcast_rerr h is n = Some n' \<Longrightarrow> \<exists>es. out n' = out n @ es \<and> length es = length is
    \<and> (\<forall>e\<in>set es. \<exists>s a. e = SendTo s (Rerr h) a) \<and> m_rerrCount n' = m_rerrCount n + of_nat (length is)"
proof (induction "is" arbitrary: n)
  case (Cons i "is")
  then obtain n1 s where n1: "n1 = emit (SendTo s (Rerr h) (broadcast_of i)) n"
    and 2: "broadcast_rerr h is (n1\<lparr>m_rerrCount := m_rerrCount n1 + 1\<rparr>) = Some n'"
    by (auto simp: send_on_def split: Option.bind_splits option.splits)
  from Cons.IH [OF 2] obtain es where "out n' = out n1 @ es" "length es = length is"
    "\<forall>e\<in>set es. \<exists>s a. e = SendTo s (Rerr h) a" "m_rerrCount n' = m_rerrCount n1 + 1 + of_nat (length is)"
    by auto
  then show ?case
    by (intro exI [of _ "SendTo s (Rerr h) (broadcast_of i) # es"]) (simp add: n1 emit_def)
qed simp

lemma precursor_ifaces_spec:
  "precursor_ifaces now is ifaces n = (m, js) \<Longrightarrow>
   out m = out n \<and> m_rerrCount m = m_rerrCount n \<and> length js \<le> length ifaces + length is \<and> (distinct ifaces \<longrightarrow> distinct js)"
proof (induction now "is" ifaces n rule: precursor_ifaces.induct)
  case (2 now i "is" ifaces n)
  then show ?case by (auto simp: lookup_valid_route_eq split: option.splits if_splits)
qed simp

text \<open>C21: The limit on route errors. \<open>SendRerrMessage\<close> sends nothing once the counter equals the limit, and
  otherwise sends its header at most once for each precursor, raising the counter by the number of
  messages sent; since several interfaces are served by one call, the counter can pass the limit
  without ever having been equal to it when a message is about to be sent. The errors of
  \<open>SendRerrWhenNoRouteToForward\<close> are held back by the same test but are never counted.\<close>

theorem rerr_rate_limit:
  assumes "SendRerrMessage now h ps n = Some n'"
    and "SendRerrWhenNoRouteToForward E now dst sn origin m = Some m'"
  shows "(\<exists>es. out n' = out n @ es \<and> (\<forall>e\<in>set es. \<exists>s a. e = SendTo s (Rerr h) a)
      \<and> length es \<le> length ps \<and> m_rerrCount n' = m_rerrCount n + of_nat (length es)
      \<and> (m_rerrCount n = RerrRateLimit (par n) \<longrightarrow> es = [])
      \<and> (m_rerrCount n \<noteq> RerrRateLimit (par n) \<and> 2 \<le> length ps
          \<longrightarrow> length es = length (snd (precursor_ifaces now ps [] n))))
    \<and> m_rerrCount m' = m_rerrCount m
    \<and> (m_rerrCount m = RerrRateLimit (par m) \<longrightarrow> out m' = out m)"
proof -
  have "\<exists>es. out n' = out n @ es \<and> (\<forall>e\<in>set es. \<exists>s a. e = SendTo s (Rerr h) a)
      \<and> length es \<le> length ps \<and> m_rerrCount n' = m_rerrCount n + of_nat (length es)
      \<and> (m_rerrCount n = RerrRateLimit (par n) \<longrightarrow> es = [])
      \<and> (m_rerrCount n \<noteq> RerrRateLimit (par n) \<and> 2 \<le> length ps
          \<longrightarrow> length es = length (snd (precursor_ifaces now ps [] n)))"
  proof (cases "ps = [] \<or> m_rerrCount n = RerrRateLimit (par n)")
    case True
    with assms(1) show ?thesis by (auto simp: SendRerrMessage_def split: if_splits)
  next
    case False
    then have pos: "1 \<le> length ps" by (cases ps) auto
    show ?thesis
    proof (cases "length ps = 1")
      case True
      with False assms(1) show ?thesis
        by (auto simp: SendRerrMessage_def lookup_valid_route_eq send_on_def emit_def
            split: if_splits option.splits Option.bind_splits)
    next
      case many: False
      obtain m1 js where js: "precursor_ifaces now ps [] n = (m1, js)" by fastforce
      with False many assms(1) have "broadcast_rerr h js m1 = Some n'" by (simp add: SendRerrMessage_def)
      from broadcast_rerr_spec [OF this] precursor_ifaces_spec [OF js] False show ?thesis by (auto simp: js)
    qed
  qed
  moreover have "m_rerrCount m' = m_rerrCount m \<and> (m_rerrCount m = RerrRateLimit (par m) \<longrightarrow> out m' = out m)"
    using assms(2)
    by (auto simp: SendRerrWhenNoRouteToForward_def lookup_valid_route_eq send_on_def send_all_def emit_def
        split: if_splits option.splits Option.bind_splits)
  ultimately show ?thesis by blast
qed

text \<open>A node on two networks that has sent all but one of the route errors it may send.\<close>

definition second_iface :: Ipv4InterfaceAddress where
  "second_iface = \<lparr>GetLocal = 0x0b000001, GetMask = 0xff000000, GetBroadcast = 0x0bffffff\<rparr>"

definition busy_node :: node where
  "busy_node = idle_node\<lparr>m_socketAddresses := [(3, test_iface), (4, second_iface)], m_rerrCount := 9,
     m_routingTable := \<lparr>m_ipv4AddressEntry =
       [(4, RoutingTableEntry_new 0 1 4 True 3 test_iface 1 4 20),
        (5, RoutingTableEntry_new 0 2 5 True 7 second_iface 1 5 20)], m_badLinkLifetime = 15\<rparr>\<rparr>"

theorem rerr_rate_limit_witness:
  "\<exists>n'. SendRerrMessage 0 RerrHeader_new [4, 5] busy_node = Some n' \<and> length (out n') = 2
     \<and> m_rerrCount n' = RerrRateLimit (par busy_node) + 1"
proof -
  have "SendRerrMessage 0 RerrHeader_new [4, 5] busy_node \<noteq> None"
    "SendRerrWhenNoRouteToForward test_env 0 77 0 9 busy_node \<noteq> None" by code_simp+
  then obtain n' m' where n': "SendRerrMessage 0 RerrHeader_new [4, 5] busy_node = Some n'"
    "SendRerrWhenNoRouteToForward test_env 0 77 0 9 busy_node = Some m'" by blast
  have facts: "length (snd (precursor_ifaces 0 [4, 5] [] busy_node)) = 2" "m_rerrCount busy_node = 9"
    "RerrRateLimit (par busy_node) = 10" "out busy_node = []"
    by code_simp+
  from rerr_rate_limit [OF n'] facts n'(1) show ?thesis by fastforce
qed

end
