(* ===== verification/Mesh.thy ===== *)
theory Mesh
  imports Replies
begin

text \<open>
  Several nodes and the air between them. Every node runs the protocol of the other theories; what it
  sends is a frame in the air, and the control messages a node receives come from the air. The medium
  is left as free as it can be: a frame may be lost, delayed, duplicated, delivered out of order and to
  any socket of any node, with any bytes after it (\<open>AddHeader\<close> reserves more bytes for a hello than it
  writes); it is never altered. All nodes share the simulator's clock and the library.
\<close>

section \<open>Frames\<close>

text \<open>A frame as the receiver's socket sees it: the address it came from and its bytes.\<close>

record frame =
  frame_source :: ipv4addr
  frame_target :: ipv4addr
  frame_bytes :: "u8 list"

text \<open>The frames of a node's effects; \<open>bound s\<close> is the address socket \<open>s\<close> is bound to.\<close>

fun frames_of :: "buffer_ops \<Rightarrow> (socket \<Rightarrow> ipv4addr) \<Rightarrow> effect list \<Rightarrow> frame list" where
  "frames_of B bound [] = []"
| "frames_of B bound (SendTo s m a # es) =
     \<lparr>frame_source = bound s, frame_target = a, frame_bytes = wire B m\<rparr> # frames_of B bound es"
| "frames_of B bound (_ # es) = frames_of B bound es"

lemma frames_of_append [simp]: "frames_of B bound (es @ fs) = frames_of B bound es @ frames_of B bound fs"
  by (induction B bound es rule: frames_of.induct) simp_all

lemma frames_of_sent:
  "f \<in> set (frames_of B bound es) \<longleftrightarrow>
     (\<exists>s m a. SendTo s m a \<in> set es \<and> f = \<lparr>frame_source = bound s, frame_target = a, frame_bytes = wire B m\<rparr>)"
  by (induction B bound es rule: frames_of.induct) auto

section \<open>The mesh as a state machine\<close>

record mesh =
  at :: "nat \<Rightarrow> node"
  air :: "frame list"

fun may_happen :: "frame list \<Rightarrow> event \<Rightarrow> bool" where
  "may_happen fs (Receive s sender p) \<longleftrightarrow>
     (\<exists>f\<in>set fs. sender = frame_source f \<and> (\<exists>padding. p = frame_bytes f @ padding))"
| "may_happen fs e \<longleftrightarrow> True"

definition mesh_after :: "buffer_ops \<Rightarrow> (nat \<Rightarrow> socket \<Rightarrow> ipv4addr) \<Rightarrow> nat \<Rightarrow> node \<Rightarrow> mesh \<Rightarrow> mesh" where
  "mesh_after B bound i n' s =
     s\<lparr>at := (at s)(i := n'),
       air := air s @ frames_of B (bound i) (drop (length (out (at s i))) (out n'))\<rparr>"

inductive mesh_step ::
  "library \<Rightarrow> buffer_ops \<Rightarrow> (nat \<Rightarrow> socket \<Rightarrow> ipv4addr) \<Rightarrow> time \<Rightarrow> mesh \<Rightarrow> mesh \<Rightarrow> bool" for L B bound now where
  node: "lib E = L \<Longrightarrow> buf E = B \<Longrightarrow> may_happen (air s) e \<Longrightarrow> node_step E now e (at s i) n'
    \<Longrightarrow> mesh_step L B bound now s (mesh_after B bound i n' s)"

text \<open>Node \<open>i\<close> is configured with the parameters \<open>P i\<close> and, otherwise, as \<open>S i\<close> says.\<close>

definition first_state :: "library \<Rightarrow> params \<Rightarrow> NodeStatus \<times> WeightFunction \<times> u32 \<times> bool \<times> bool \<Rightarrow> node" where
  "first_state L p c = (case c of (status, f, weight, rule1, rule2) \<Rightarrow>
     configure p status f weight rule1 rule2 (node_new L))"

inductive mesh_reachable ::
  "library \<Rightarrow> buffer_ops \<Rightarrow> (nat \<Rightarrow> params) \<Rightarrow> (nat \<Rightarrow> socket \<Rightarrow> ipv4addr) \<Rightarrow> time \<Rightarrow> mesh \<Rightarrow> bool" for L B P bound where
  start: "mesh_reachable L B P bound 0 \<lparr>at = (\<lambda>i. first_state L (P i) (S i)), air = []\<rparr>"
| step: "mesh_reachable L B P bound t s \<Longrightarrow> t \<le> now \<Longrightarrow> mesh_step L B bound now s s'
    \<Longrightarrow> mesh_reachable L B P bound now s'"

lemma mesh_after_simps [simp]:
  "at (mesh_after B bound i n' s) i = n'" "j \<noteq> i \<Longrightarrow> at (mesh_after B bound i n' s) j = at s j"
  by (simp_all add: mesh_after_def)

text \<open>A node of the mesh runs as it would alone.\<close>

lemma mesh_node_reachable:
  assumes "mesh_reachable L B P bound t s"
  shows "\<exists>t'\<le>t. reachable L (P i) t' (at s i)"
  using assms
proof induction
  case (start S)
  have "reachable L (P i) 0 (first_state L (P i) (S i))"
    by (auto simp: first_state_def split: prod.split intro: reachable.start)
  then show ?case by auto
next
  case (step t s now s')
  from step.hyps(3) show ?case
  proof cases
    case (node E e j n')
    from step.IH obtain t' where t': "t' \<le> t" "reachable L (P i) t' (at s i)" by blast
    show ?thesis
    proof (cases "i = j")
      case True
      have "reachable L (P i) now n'"
        using node t' step.hyps(2) True by (intro reachable.event [OF t'(2), of now E e n']) simp_all
      then show ?thesis using node(1) True by auto
    next
      case False
      then show ?thesis using node(1) t' step.hyps(2) by (auto intro!: exI [of _ t'])
    qed
  qed
qed

lemma mesh_node_wf:
  assumes "mesh_reachable L B P bound t s" "\<forall>i. 0 < MaxQueueLen (P i)" "0 \<le> Seconds L 3"
  shows "node_wf (at s i)"
  using mesh_node_reachable [OF assms(1), of i] assms(2,3) by (blast intro: reachable_node_wf)

section \<open>What is in the air was sent, and is sound\<close>

definition sent_by :: "buffer_ops \<Rightarrow> (nat \<Rightarrow> socket \<Rightarrow> ipv4addr) \<Rightarrow> mesh \<Rightarrow> frame \<Rightarrow> message \<Rightarrow> bool" where
  "sent_by B bound s f m \<longleftrightarrow> (\<exists>j sk a. SendTo sk m a \<in> set (out (at s j)) \<and>
     f = \<lparr>frame_source = bound j sk, frame_target = a, frame_bytes = wire B m\<rparr>)"

lemma mesh_air:
  assumes "mesh_reachable L B P bound t s" "\<forall>i. 0 < MaxQueueLen (P i)" "0 \<le> Seconds L 3"
  shows "\<forall>f\<in>set (air s). \<exists>m. sent_by B bound s f m \<and> message_ok m"
  using assms(1)
proof induction
  case (start S)
  then show ?case by simp
next
  case (step t s now s')
  have wf: "node_wf (at s j)" for j by (rule mesh_node_wf [OF step.hyps(1) assms(2,3)])
  from step.hyps(3) show ?case
  proof cases
    case (node E e i n')
    obtain es where es: "out n' = out (at s i) @ es" "\<forall>e\<in>set es. effect_ok e"
      using step_effects [OF node(5) wf] by blast
    have out: "set (out (at s j)) \<subseteq> set (out (at s' j))" for j
      using es(1) unfolding node(1) by (cases "j = i") simp_all
    show ?thesis
    proof
      fix f assume "f \<in> set (air s')"
      then consider (old) "f \<in> set (air s)" | (new) "f \<in> set (frames_of B (bound i) es)"
        using es(1) by (auto simp: node(1) mesh_after_def)
      then show "\<exists>m. sent_by B bound s' f m \<and> message_ok m"
      proof cases
        case old
        with step.IH out show ?thesis unfolding sent_by_def by blast
      next
        case new
        then obtain sk m a where "SendTo sk m a \<in> set es"
          "f = \<lparr>frame_source = bound i sk, frame_target = a, frame_bytes = wire B m\<rparr>"
          by (auto simp: frames_of_sent)
        moreover from this es(2) have "message_ok m" by fastforce
        moreover have "set es \<subseteq> set (out (at s' i))" using es(1) by (simp add: node(1))
        ultimately show ?thesis unfolding sent_by_def by blast
      qed
    qed
  qed
qed

text \<open>
  A hello announces the number of its tuples in one byte; the receiver reads as many and leaves the
  rest, so a longer list arrives cut.
\<close>

definition hello_cut :: "HelloHeader \<Rightarrow> HelloHeader" where
  "hello_cut h = h\<lparr>m_messageLength := of_nat (23 + 24 * unat (m_listSize h)),
     m_MulticastBnNeighbors := take (unat (m_listSize h)) (m_MulticastBnNeighbors h)\<rparr>"

fun as_received :: "message \<Rightarrow> message" where
  "as_received (Hello h) = Hello (hello_cut h)"
| "as_received m = m"

lemma write_bn_append: "write_bn_neighbors B (ts @ us) = write_bn_neighbors B ts @ write_bn_neighbors B us"
  by (induction ts) simp_all

lemma hello_as_received:
  assumes "h = HelloHeader_new k status ind origin bn f weight ts"
  shows "HelloHeader_wf (hello_cut h)"
    and "\<exists>rest. HelloHeader_Serialize B h = HelloHeader_Serialize B (hello_cut h) @ rest"
proof -
  have le: "unat (of_nat (length ts) :: u8) \<le> length ts" by (simp add: unat_of_nat)
  then show "HelloHeader_wf (hello_cut h)"
    by (auto simp: assms hello_cut_def HelloHeader_wf_def HelloHeader_new_def Let_def)
  let ?n = "unat (m_listSize h)" and ?ts = "m_MulticastBnNeighbors h"
  have "write_bn_neighbors B ?ts = write_bn_neighbors B (take ?n ?ts) @ write_bn_neighbors B (drop ?n ?ts)"
    by (simp flip: write_bn_append)
  then show "\<exists>rest. HelloHeader_Serialize B h = HelloHeader_Serialize B (hello_cut h) @ rest"
    by (cases "m_listSize h > 0") (simp_all add: HelloHeader_Serialize_def hello_cut_def)
qed

lemma received:
  assumes "message_ok m"
  shows "message_wf (as_received m)" and "\<exists>rest. wire B m = wire B (as_received m) @ rest"
proof -
  show "message_wf (as_received m)"
    using assms hello_as_received(1) by (cases m) (auto simp: message_ok.simps)
  show "\<exists>rest. wire B m = wire B (as_received m) @ rest"
    using assms hello_as_received(2) by (cases m) (auto simp: message_ok.simps)
qed

text \<open>C2: The mesh is type sound. Whatever the nodes of a mesh do in whatever order, and whatever the medium
  loses, delays or repeats, a frame in the air is the serialised form of a message that some node sent
  from that address; delivered to any socket of any node, with any bytes after it, it is read without
  error as that very message (a hello's list cut to the length its one-byte counter announces) and
  reaches the handler of its kind; and every route error in the air lists between one and 255
  destinations, each once.\<close>

theorem mesh_type_sound:
  assumes "mesh_reachable L B P bound t s" and "\<forall>i. 0 < MaxQueueLen (P i)" and "0 \<le> Seconds L 3"
    and "buffer_laws B" and "f \<in> set (air s)"
  shows "\<exists>m. sent_by B bound s f m
    \<and> (\<forall>i E now sk iface padding. buf E = B \<and> map_of (m_socketAddresses (at s i)) sk = Some iface \<longrightarrow>
        RecvAodv E now sk (frame_source f) (frame_bytes f @ padding) (at s i) =
        handle_message E now (as_received m) (GetLocal iface) (frame_source f)
          (UpdateRouteToNeighbor E now (frame_source f) (GetLocal iface) (at s i)))
    \<and> (\<forall>h. m = Rerr h \<longrightarrow> distinct (map fst (m_unreachableDstSeqNo h))
        \<and> length (m_unreachableDstSeqNo h) \<in> {1..255})"
proof -
  obtain m where m: "sent_by B bound s f m" "message_ok m"
    using mesh_air [OF assms(1-3)] assms(5) by blast
  obtain rest where rest: "wire B m = wire B (as_received m) @ rest" using received(2) [OF m(2)] by blast
  have bytes: "frame_bytes f = wire B (as_received m) @ rest"
    using m(1) rest by (auto simp: sent_by_def)
  have "RecvAodv E now sk (frame_source f) (frame_bytes f @ padding) (at s i) =
      handle_message E now (as_received m) (GetLocal iface) (frame_source f)
        (UpdateRouteToNeighbor E now (frame_source f) (GetLocal iface) (at s i))"
    if "buf E = B" "map_of (m_socketAddresses (at s i)) sk = Some iface" for i E now sk iface padding
    using receive_message [OF _ node_wf_parts(7) [OF mesh_node_wf [OF assms(1-3)]] that(2) received(1) [OF m(2)] refl,
        of E now "frame_source f" "rest @ padding"] that(1) assms(4) bytes
    by simp
  moreover have "distinct (map fst (m_unreachableDstSeqNo h)) \<and> length (m_unreachableDstSeqNo h) \<in> {1..255}"
    if "m = Rerr h" for h
    using m(2) that by (auto simp: message_ok.simps RerrHeader_wf_def Suc_le_eq dest: map_ok_distinct)
  ultimately show ?thesis using m(1) by blast
qed

text \<open>A mesh of nodes configured alike, node 0 with its interface up, that sends its first hello.\<close>

definition test_start :: mesh where
  "test_start = \<lparr>at = (\<lambda>i. first_state ns3_library test_params (CORE, W_NODE_DEGREE, 0, True, True)), air = []\<rparr>"

definition test_mesh :: mesh where
  "test_mesh = mesh_after net_buffer (\<lambda>i s. of_nat i) 0 test_node
     (mesh_after net_buffer (\<lambda>i s. of_nat i) 0 test_node0 test_start)"

lemma test_mesh_reachable: "mesh_reachable ns3_library net_buffer (\<lambda>i. test_params) (\<lambda>i s. of_nat i) 0 test_mesh"
proof -
  have env: "lib test_env = ns3_library" "buf test_env = net_buffer" by (simp_all add: test_env_def)
  have 0: "mesh_reachable ns3_library net_buffer (\<lambda>i. test_params) (\<lambda>i s. of_nat i) 0 test_start"
    unfolding test_start_def
    using mesh_reachable.start [of ns3_library net_buffer "\<lambda>i. test_params" "\<lambda>i s. of_nat i"
        "\<lambda>i. (CORE, W_NODE_DEGREE, 0, True, True)"] by simp
  have "node_step test_env 0 StackSet (at test_start 0) test_node0"
    using node_step.stack [OF test_node_runs(1)] by (simp add: test_start_def first_state_def)
  from mesh_reachable.step [OF 0 order_refl mesh_step.node [OF env _ this]]
  have 1: "mesh_reachable ns3_library net_buffer (\<lambda>i. test_params) (\<lambda>i s. of_nat i) 0
      (mesh_after net_buffer (\<lambda>i s. of_nat i) 0 test_node0 test_start)"
    by simp
  have "node_step test_env 0 (InterfaceUp 1) (at (mesh_after net_buffer (\<lambda>i s. of_nat i) 0 test_node0 test_start) 0)
      test_node"
    using node_step.up [OF test_node_runs(2)] by simp
  from mesh_reachable.step [OF 1 order_refl mesh_step.node [OF env _ this]] show ?thesis
    by (simp add: test_mesh_def)
qed

lemma test_node_hello:
  "list_ex (\<lambda>c. c = (1000000, ShortTimerCall)) (scheduled test_node)"
  "case out (ShortTimerExpire 1000000 (test_node\<lparr>scheduled := remove1 (1000000, ShortTimerCall) (scheduled test_node)\<rparr>)) of
     [SendTo s (Hello h) a] \<Rightarrow> s = 3 | _ \<Rightarrow> False"
  by code_simp+

theorem mesh_type_sound_witness:
  "\<exists>s f m. mesh_step ns3_library net_buffer (\<lambda>i s. of_nat i) 1000000 test_mesh s \<and> f \<in> set (air s)
     \<and> frame_source f = 0 \<and> sent_by net_buffer (\<lambda>i s. of_nat i) s f m"
proof -
  define n' where "n' = ShortTimerExpire 1000000 (test_node\<lparr>scheduled := remove1 (1000000, ShortTimerCall) (scheduled test_node)\<rparr>)"
  have env: "lib test_env = ns3_library" "buf test_env = net_buffer" by (simp_all add: test_env_def)
  obtain h a where out: "out n' = [SendTo 3 (Hello h) a]"
    using test_node_hello(2) unfolding n'_def
    by (auto split: list.splits effect.splits message.splits)
  have "node_step test_env 1000000 (Scheduled ShortTimerCall) (at test_mesh 0) n'"
    unfolding n'_def using test_node_hello(1)
    by (intro node_step.scheduled_call) (auto simp: test_mesh_def list_ex_iff)
  then have step: "mesh_step ns3_library net_buffer (\<lambda>i s. of_nat i) 1000000 test_mesh
      (mesh_after net_buffer (\<lambda>i s. of_nat i) 0 n' test_mesh)"
    by (intro mesh_step.node [OF env]) simp_all
  let ?f = "\<lparr>frame_source = 0, frame_target = a, frame_bytes = wire net_buffer (Hello h)\<rparr>"
  have "out test_node = []" by (rule test_node_packets(3))
  then have f: "?f \<in> set (air (mesh_after net_buffer (\<lambda>i s. of_nat i) 0 n' test_mesh))"
    using out by (simp add: mesh_after_def test_mesh_def)
  from mesh_reachable.step [OF test_mesh_reachable _ step]
  have "mesh_reachable ns3_library net_buffer (\<lambda>i. test_params) (\<lambda>i s. of_nat i) 1000000
      (mesh_after net_buffer (\<lambda>i s. of_nat i) 0 n' test_mesh)" by simp
  from mesh_type_sound [OF this _ _ net_buffer_laws f] obtain m where
    "sent_by net_buffer (\<lambda>i s. of_nat i) (mesh_after net_buffer (\<lambda>i s. of_nat i) 0 n' test_mesh) ?f m"
    by (auto simp: ns3_library_def)
  with step f show ?thesis by (metis frame.select_convs(1))
qed

end
