(* ===== verification/Mesh_Discovery.thy ===== *)
theory Mesh_Discovery
  imports Mesh
begin

text \<open>
  A route discovery between two nodes of a mesh, from the data packet without a route to the packet
  handed over with one: the three steps of the two nodes and the two frames between them.
\<close>

section \<open>The node that asks\<close>

lemma deferred_search:
  fixes ucb ecb :: callback
  assumes "node_wf n" "m_socketAddresses n = j # js" "m_ipv4 n" "0 \<le> sint (GetInterfaceForDevice E (m_lo n))"
    and "deferred_tag p = Some (- 1)" "route_of (aged now n) (GetDestination h) = None"
    and "\<forall>e\<in>set (m_queue (m_rqueue n)). GetDestination (qe_header e) \<noteq> GetDestination h"
    and "m_rreqCount n \<noteq> RreqRateLimit (par n)"
    and "entry = \<lparr>qe_packet = p, qe_header = h, qe_ucb = ucb, qe_ecb = ecb, qe_expire = m_queueTimeout (m_rqueue n) + now\<rparr>"
  shows "\<exists>m d hdr rt. RouteInput E now p h (m_lo n) ucb lcb ecb n = Some (True, m) \<and> node_wf m
    \<and> out m = out n @ map dropped_report d @ map (rreq_on hdr) (j # js)
    \<and> rreq_dst hdr = GetDestination h \<and> rreq_requestID hdr = m_requestId n + 1 \<and> rreq_hopCount hdr = 0
    \<and> m_socketAddresses m = j # js \<and> par m = par n
    \<and> filter (\<lambda>e. GetDestination (qe_header e) = GetDestination h) (m_queue (m_rqueue m)) = [entry]
    \<and> route_of m (GetDestination h) = Some rt \<and> rt_flag rt = IN_SEARCH \<and> \<not> rt_validSeqNo rt"
proof -
  let ?dst = "GetDestination h" and ?new = "QueueEntry_new now p h ucb ecb now"
  have "\<forall>x\<in>set (m_queue (m_rqueue n)). qe_key x \<noteq> qe_key ?new"
    using assms(7) by (auto simp: qe_key_def QueueEntry_new_def)
  from Enqueue_accepted [OF node_wf_parts(3) [OF assms(1)] this, of now] obtain q d es where
    q: "RequestQueue_Enqueue now ?new (m_rqueue n) = Some (True, q, d)"
      "m_queue q = es @ [QueueEntry_SetExpireTime now (m_queueTimeout (m_rqueue n)) ?new]"
      "set es \<subseteq> set (m_queue (m_rqueue n))"
    by blast
  have entry: "QueueEntry_SetExpireTime now (m_queueTimeout (m_rqueue n)) ?new = entry"
    by (simp add: assms(9) QueueEntry_SetExpireTime_def QueueEntry_new_def)
  define k where "k = aged now ((n\<lparr>m_rqueue := q\<rparr>)\<lparr>out := out n @ map dropped_report d\<rparr>)"
  have k: "m_rqueue k = q" "out k = out n @ map dropped_report d" "m_socketAddresses k = j # js"
    "m_rreqCount k = m_rreqCount n" "par k = par n" "m_requestId k = m_requestId n"
    by (simp_all add: k_def aged_def assms(2))
  have route: "route_of k = route_of (aged now n)"
    by (simp add: k_def aged_def route_of_def fun_eq_iff)
  have wfk: "RoutingTable_wf (m_routingTable k)"
    using node_wf_parts(1) [OF assms(1)] by (simp add: k_def aged_def RoutingTable_wf_Purge)
  have none: "route_of (aged now k) ?dst = None"
    using route route_of_aged [OF wfk] assms(6) by simp
  define m where "m = SendRequest E now ?dst k"
  note spec = SendRequest_spec [OF wfk, of E now ?dst, folded m_def] search_begun_route(3) [OF wfk, of E now ?dst]
  have deferred: "DeferredRouteOutput E now p h ucb ecb n = Some m"
    unfolding DeferredRouteOutput_spec [OF assms(1) q(1)] k_def [symmetric] m_def using assms(6) by (simp add: Let_def)
  then have input: "RouteInput E now p h (m_lo n) ucb lcb ecb n = Some (True, m)"
    using assms(2-5) by (simp add: RouteInput_def Let_def)
  have wf: "node_wf m"
    by (rule growth.ok_after [OF growth.R_Deferred [OF deferred TrueI growth.refl [OF assms(1)]]])
  have "filter (\<lambda>e. GetDestination (qe_header e) = ?dst) es = []"
    using q(3) assms(7) by (auto simp: filter_empty_conv)
  then have queue: "filter (\<lambda>e. GetDestination (qe_header e) = ?dst) (m_queue (m_rqueue m)) = [entry]"
    using spec(9) assms(8) k q(2) entry by (simp add: assms(9))
  have "\<not> rt_validSeqNo (IncrementRreqCnt (search_entry E now ?dst k))"
    using none by (simp add: search_entry_def IncrementRreqCnt_def RoutingTableEntry_new_def)
  moreover have "m_socketAddresses m = j # js"
    using spec(11) assms(8) k by simp
  ultimately show ?thesis
    using input wf queue spec assms(8) k
    by (intro exI [of _ m] exI [of _ d] exI [of _ "request_header E now ?dst k"]
        exI [of _ "IncrementRreqCnt (search_entry E now ?dst k)"]) (simp add: IncrementRreqCnt_def)
qed

section \<open>The node that answers\<close>

text \<open>Refreshing the route to the sender changes nothing but the routing table, and blacklists nobody.\<close>

lemma refresh_spec:
  assumes "RoutingTable_wf (m_routingTable n)" "m = UpdateRouteToNeighbor E now sender receiver n"
  shows "RoutingTable_wf (m_routingTable m)"
    and "m_rreqIdCache m = m_rreqIdCache n" "m_socketAddresses m = m_socketAddresses n"
    "m_seqNo m = m_seqNo n" "out m = out n"
    and "\<forall>rt. route_of (aged now n) sender = Some rt \<longrightarrow> \<not> rt_blackListState rt
      \<Longrightarrow> \<forall>rt. route_of (aged now m) sender = Some rt \<longrightarrow> \<not> rt_blackListState rt"
proof -
  note wf = aged_wf [OF assms(1), of now]
  show wfm: "RoutingTable_wf (m_routingTable m)"
    using wf by (auto simp: assms(2) UpdateRouteToNeighbor_def lookup_route_eq Let_def add_route_def update_route_def
        RoutingTable_wf_AddRoute RoutingTable_wf_Update split: option.split)
  show "m_rreqIdCache m = m_rreqIdCache n" "m_socketAddresses m = m_socketAddresses n"
    "m_seqNo m = m_seqNo n" "out m = out n"
    by (simp_all add: assms(2) UpdateRouteToNeighbor_def lookup_route_eq aged_def add_route_def update_route_def
        Let_def split: option.split)
  assume white: "\<forall>rt. route_of (aged now n) sender = Some rt \<longrightarrow> \<not> rt_blackListState rt"
  have new: "\<not> rt_blackListState (reset_rreq (RoutingTableEntry_new now dev a v k i hops nh lt))" for dev a v k i hops nh lt
    by (simp add: reset_rreq_def RoutingTableEntry_new_def)
  have "\<forall>rt. route_of m sender = Some rt \<longrightarrow> \<not> rt_blackListState rt"
    using white new
    by (auto simp: assms(2) UpdateRouteToNeighbor_def lookup_route_eq Let_def route_of_add [OF assms(1)]
        route_of_update [OF wf] split: option.splits if_splits)
  then show "\<forall>rt. route_of (aged now m) sender = Some rt \<longrightarrow> \<not> rt_blackListState rt"
    using age_fields(7) by (auto simp: route_of_aged [OF wfm] bind_eq_Some_conv)
qed

lemma request_answered:
  assumes "buffer_laws (buf E)" "node_wf n" "map_of (m_socketAddresses n) s = Some iface"
    and "\<forall>rt. route_of (aged now n) sender = Some rt \<longrightarrow> \<not> rt_blackListState rt"
    and "\<not> fst (IdCache_IsDuplicate now (rreq_origin h) (rreq_requestID h) (m_rreqIdCache n))"
    and "rreq_dst h = GetLocal iface"
    and "FindSocketWithInterfaceAddress (iface_of E (GetLocal iface)) n = Some s"
  shows "\<exists>n' hdr. RecvAodv E now s sender (wire (buf E) (Rreq h) @ padding) n = Some n'
    \<and> out n' = out n @ [SendTo s (Rrep hdr) sender]
    \<and> rrep_dst hdr = rreq_dst h \<and> rrep_origin hdr = rreq_origin h \<and> rrep_hopCount hdr = 0 \<and> rrep_flags hdr = 0
    \<and> rrep_dstSeqNo hdr = m_seqNo n'"
proof -
  define m where "m = UpdateRouteToNeighbor E now sender (GetLocal iface) n"
  note m = refresh_spec [OF node_wf_parts(1) [OF assms(2)] m_def]
  have "(s, iface) \<in> set (m_socketAddresses m)" using assms(3) m(3) by (simp add: map_of_SomeD)
  then have own: "IsMyOwnAddress m (rreq_dst h)" unfolding IsMyOwnAddress_def assms(6) by force
  have new: "\<not> fst (IdCache_IsDuplicate now (rreq_origin h) (rreq_requestID h) (m_rreqIdCache m))"
    using assms(5) m(2) by simp
  have sock: "FindSocketWithInterfaceAddress (iface_of E (GetLocal iface)) m = Some s"
    using assms(7) find_socket_frame [OF m(3)] by simp
  have "RecvAodv E now s sender (wire (buf E) (Rreq h) @ padding) n = handle_request E now h (GetLocal iface) sender m"
    using receive_message [OF assms(1) node_wf_parts(7) [OF assms(2)] assms(3) _ m_def, of "Rreq h"] by simp
  with destination_answers [OF m(1) m(6) [OF assms(4)] new own sock] m(5) show ?thesis by fastforce
qed

section \<open>The discovery\<close>

lemma deliver_step:
  assumes "f \<in> set (air s)" "lib E = L" "buf E = B"
    and "RecvAodv E now sk (frame_source f) (frame_bytes f @ padding) (at s i) = Some n'"
  shows "mesh_step L B bound now s (mesh_after B bound i n' s)"
proof (rule mesh_step.node [OF assms(2,3)])
  show "may_happen (air s) (Receive sk (frame_source f) (frame_bytes f @ padding))"
    using assms(1) by auto
  show "node_step E now (Receive sk (frame_source f) (frame_bytes f @ padding)) (at s i) n'"
    by (rule node_step.receive [OF assms(4)])
qed

text \<open>A node whose packet \<open>p\<close>, back from the loopback device, starts a search.\<close>

definition asks :: "env \<Rightarrow> time \<Rightarrow> packet \<Rightarrow> Ipv4Header \<Rightarrow> node \<Rightarrow> bool" where
  "asks E now p h n \<longleftrightarrow> node_wf n \<and> m_ipv4 n \<and> 0 \<le> sint (GetInterfaceForDevice E (m_lo n))
     \<and> m_rreqCount n \<noteq> RreqRateLimit (par n) \<and> 0 \<le> ActiveRouteTimeout (par n) \<and> deferred_tag p = Some (- 1)
     \<and> route_of (aged now n) (GetDestination h) = None
     \<and> (\<forall>e\<in>set (m_queue (m_rqueue n)). GetDestination (qe_header e) \<noteq> GetDestination h)"

lemma ask_step:
  fixes ucb ecb :: callback
  assumes "asks E now p h (at s i)" "lib E = L" "buf E = B" "m_socketAddresses (at s i) = (sk, ia) # js"
    and "bound i sk = GetLocal ia" "dst = GetDestination h"
    and "entry = \<lparr>qe_packet = p, qe_header = h, qe_ucb = ucb, qe_ecb = ecb, qe_expire = m_queueTimeout (m_rqueue (at s i)) + now\<rparr>"
  shows "\<exists>n hdr rt es. mesh_step L B bound now s (mesh_after B bound i n s)
    \<and> \<lparr>frame_source = GetLocal ia, frame_target = broadcast_of ia, frame_bytes = wire B (Rreq hdr)\<rparr>
        \<in> set (air (mesh_after B bound i n s))
    \<and> rreq_dst hdr = dst \<and> rreq_requestID hdr = m_requestId (at s i) + 1 \<and> rreq_hopCount hdr = 0 \<and> rreq_origin hdr = GetLocal ia
    \<and> node_wf n \<and> m_socketAddresses n = (sk, ia) # js \<and> par n = par (at s i) \<and> out n = out (at s i) @ es
    \<and> filter (\<lambda>e. GetDestination (qe_header e) = dst) (m_queue (m_rqueue n)) = [entry]
    \<and> route_of n dst = Some rt \<and> rt_flag rt = IN_SEARCH \<and> \<not> rt_validSeqNo rt"
proof -
  have a: "node_wf (at s i)" "m_ipv4 (at s i)" "0 \<le> sint (GetInterfaceForDevice E (m_lo (at s i)))" "deferred_tag p = Some (- 1)"
    "route_of (aged now (at s i)) (GetDestination h) = None" "m_rreqCount (at s i) \<noteq> RreqRateLimit (par (at s i))"
    "\<forall>e\<in>set (m_queue (m_rqueue (at s i))). GetDestination (qe_header e) \<noteq> GetDestination h"
    using assms(1) by (simp_all add: asks_def)
  obtain n d hdr rt where n: "RouteInput E now p h (m_lo (at s i)) ucb 0 ecb (at s i) = Some (True, n)" "node_wf n"
      "out n = out (at s i) @ map dropped_report d @ map (rreq_on hdr) ((sk, ia) # js)"
      "rreq_dst hdr = dst" "rreq_requestID hdr = m_requestId (at s i) + 1" "rreq_hopCount hdr = 0"
      "m_socketAddresses n = (sk, ia) # js" "par n = par (at s i)"
      "filter (\<lambda>e. GetDestination (qe_header e) = dst) (m_queue (m_rqueue n)) = [entry]"
      "route_of n dst = Some rt" "rt_flag rt = IN_SEARCH" "\<not> rt_validSeqNo rt"
    using deferred_search [OF a(1) assms(4) a(2-5,7,6) assms(7), where lcb = 0] unfolding assms(6) by blast
  have "mesh_step L B bound now s (mesh_after B bound i n s)"
    using node_step.incoming [OF n(1)] assms(2,3)
    by (intro mesh_step.node [where E = E and e = "Input p h (m_lo (at s i)) ucb 0 ecb"]) simp_all
  moreover have "\<lparr>frame_source = GetLocal ia, frame_target = broadcast_of ia,
      frame_bytes = wire B (Rreq (hdr\<lparr>rreq_origin := GetLocal ia\<rparr>))\<rparr> \<in> set (air (mesh_after B bound i n s))"
    using n(3) assms(5) by (auto simp: mesh_after_def frames_of_sent rreq_on_def)
  ultimately show ?thesis
    using n(2-12) by (intro exI [of _ n] exI [of _ "hdr\<lparr>rreq_origin := GetLocal ia\<rparr>"] exI [of _ rt]
        exI [of _ "map dropped_report d @ map (rreq_on hdr) ((sk, ia) # js)"]) simp
qed

text \<open>A node with the address asked for, to which the request is new.\<close>

definition answers :: "env \<Rightarrow> time \<Rightarrow> socket \<Rightarrow> Ipv4InterfaceAddress \<Rightarrow> ipv4addr \<Rightarrow> ipv4addr \<Rightarrow> u32 \<Rightarrow> node \<Rightarrow> bool" where
  "answers E now sk iface sender origin request n \<longleftrightarrow> node_wf n \<and> map_of (m_socketAddresses n) sk = Some iface
     \<and> FindSocketWithInterfaceAddress (iface_of E (GetLocal iface)) n = Some sk
     \<and> (\<forall>rt. route_of (aged now n) sender = Some rt \<longrightarrow> \<not> rt_blackListState rt)
     \<and> \<not> fst (IdCache_IsDuplicate now origin request (m_rreqIdCache n))"

lemma answer_step:
  assumes "answers E now sk iface sender (rreq_origin h) (rreq_requestID h) (at s j)" "buffer_laws B" "lib E = L" "buf E = B"
    and "f \<in> set (air s)" "frame_source f = sender" "frame_bytes f = wire B (Rreq h)" "rreq_dst h = GetLocal iface"
    and "bound j sk = GetLocal iface"
  shows "\<exists>n r. mesh_step L B bound now s (mesh_after B bound j n s)
    \<and> \<lparr>frame_source = GetLocal iface, frame_target = sender, frame_bytes = wire B (Rrep r)\<rparr> \<in> set (air (mesh_after B bound j n s))
    \<and> rrep_dst r = rreq_dst h \<and> rrep_origin r = rreq_origin h \<and> rrep_hopCount r = 0 \<and> rrep_flags r = 0
    \<and> rrep_dstSeqNo r = m_seqNo n"
proof -
  obtain n r where n: "RecvAodv E now sk sender (wire B (Rreq h) @ []) (at s j) = Some n"
      "out n = out (at s j) @ [SendTo sk (Rrep r) sender]" "rrep_dst r = rreq_dst h" "rrep_origin r = rreq_origin h"
      "rrep_hopCount r = 0" "rrep_flags r = 0" "rrep_dstSeqNo r = m_seqNo n"
    using request_answered [of E "at s j" sk iface now sender h "[]"] assms(1,2,4,8) by (auto simp: answers_def)
  have "mesh_step L B bound now s (mesh_after B bound j n s)"
    by (rule deliver_step [OF assms(5,3,4), where sk = sk and padding = "[]"]) (use n(1) assms(6,7) in simp)
  moreover have "\<lparr>frame_source = GetLocal iface, frame_target = sender, frame_bytes = wire B (Rrep r)\<rparr>
      \<in> set (air (mesh_after B bound j n s))"
    using n(2) assms(9) by (auto simp: mesh_after_def frames_of_sent)
  ultimately show ?thesis using n(3-7) by blast
qed

lemma live_only:
  assumes "filter P xs = [x]" "Q x"
  shows "filter P (filter Q xs) = [x]"
proof -
  have "filter P (filter Q xs) = filter Q (filter P xs)" by (simp add: conj_commute)
  then show ?thesis using assms by simp
qed

text \<open>The one packet that waits is handed over; what the reply leaves at the node that asked.\<close>

lemma asker_served:
  assumes "node_wf n" "buffer_laws (buf E)" "m_socketAddresses n = (s, iface) # js"
    and "route_of n dst = Some rt" "rt_flag rt = IN_SEARCH" "\<not> rt_validSeqNo rt" "0 \<le> ActiveRouteTimeout (par n)"
    and "rrep_origin h = GetLocal iface" "rrep_dst h = dst" "GetLocal iface \<noteq> dst"
    and "rrep_flags h = 0" "rrep_hopCount h = 0" "\<forall>k\<ge>0. 0 \<le> MilliSeconds (unit_of_time E) k"
    and "filter (\<lambda>e. GetDestination (qe_header e) = dst) (m_queue (m_rqueue n)) = [entry]"
    and "deferred_tag (qe_packet entry) = Some (- 1)" "now \<le> qe_expire entry"
  shows "\<exists>n' rt' es. RecvAodv E now s dst (wire (buf E) (Rrep h) @ padding) n = Some n'
    \<and> route_of n' dst = Some rt' \<and> rt_flag rt' = VALID \<and> GetNextHop rt' = dst \<and> rt_hops rt' = 1
    \<and> rt_seqNo rt' = rrep_dstSeqNo h \<and> \<not> RequestQueue_Find dst (m_rqueue n')
    \<and> out n' = out n @ map dropped_report es @ [handed_over (rt_route rt') entry]"
proof -
  define rt' where "rt' = RoutingTableEntry_new now (device_of E (GetLocal iface)) dst True (rrep_dstSeqNo h)
      (iface_of E (GetLocal iface)) (ucast (rrep_hopCount h + 1)) dst (RrepHeader_GetLifeTime (unit_of_time E) h)"
  have route: "route_of (aged now n) dst = Some rt"
    by (rule route_in_search [OF node_wf_parts(1) [OF assms(1)] assms(4,5)])
  have sock: "map_of (m_socketAddresses n) s = Some iface" by (simp add: assms(3))
  have own: "IsMyOwnAddress n (rrep_origin h)" by (simp add: IsMyOwnAddress_def assms(3,8))
  have ack: "\<not> RrepHeader_GetAckRequired h"
    by (simp add: RrepHeader_GetAckRequired_def get_flag_def assms(11))
  have life: "0 \<le> RrepHeader_GetLifeTime (unit_of_time E) h"
    by (simp add: RrepHeader_GetLifeTime_def assms(13))
  have in_filter: "GetDestination (qe_header e) = dst \<Longrightarrow> e \<in> set (m_queue (m_rqueue n)) \<Longrightarrow> e = entry" for e
    using arg_cong [OF assms(14), of set] by auto
  have tags: "\<forall>e\<in>set (m_queue (m_rqueue n)). GetDestination (qe_header e) = dst \<longrightarrow> tag_allows E (rt_route rt') e"
    using in_filter assms(15) by (auto simp: tag_allows_def)
  have live: "filter (\<lambda>e. GetDestination (qe_header e) = dst)
      (filter (\<lambda>e. \<not> QueueEntry_IsExpired now e) (m_queue (m_rqueue n))) = [entry]"
    by (rule live_only [OF assms(14)])
      (use assms(16) in \<open>simp add: QueueEntry_IsExpired_def QueueEntry_GetExpireTime_def\<close>)
  have fields: "rt_flag rt' = VALID" "GetNextHop rt' = dst" "rt_hops rt' = 1" "rt_seqNo rt' = rrep_dstSeqNo h"
    by (simp_all add: rt'_def RoutingTableEntry_new_def GetNextHop_def assms(12))
  have ne: "rrep_origin h \<noteq> dst" using assms(8,10) by simp
  have "\<not> direct_entry (device_of E (GetLocal iface)) rt" using assms(6) by (simp add: direct_entry_def)
  from neighbour_answer_delivered [OF assms(1,2) sock route this assms(7) own assms(9) ne ack life rt'_def tags, of padding]
  obtain n' where n': "RecvAodv E now s dst (wire (buf E) (Rrep h) @ padding) n = Some n'"
    "route_of n' dst = Some rt'" "\<not> RequestQueue_Find dst (m_rqueue n')"
    "out n' = out n @ map dropped_report (filter (QueueEntry_IsExpired now) (m_queue (m_rqueue n)))
        @ map (handed_over (rt_route rt')) [entry]"
    unfolding live by blast
  show ?thesis
    by (rule exI [of _ n'], rule exI [of _ rt'], rule exI [of _ "filter (QueueEntry_IsExpired now) (m_queue (m_rqueue n))"])
      (use n' fields in simp)
qed

text \<open>C3: A route is discovered and the packet goes out, across two nodes and the air between them. A node of a
  mesh that knows no route and may still ask gets its data packet back over the loopback device; its
  request is in the air. A neighbour with the address asked for, which knows neither a blacklisted
  route to the asking node nor this request, receives the frame and answers; its reply is in the air.
  When the asking node receives that, before the packet's time in the queue is over, its route leads to
  the neighbour in one hop with the neighbour's own sequence number, nothing waits for that
  destination any more, and the last thing the node did was to hand the packet to its forwarding callback
  with that route, source address and a TTL raised by one.\<close>

theorem mesh_discovery:
  fixes ucb ecb :: callback
  assumes "i \<noteq> j" and "buffer_laws B" and "lib Ea = L" and "buf Ea = B" and "lib Eb = L" and "buf Eb = B"
    and "asks Ea t0 p h (at s i)" and "m_socketAddresses (at s i) = (sa, ia) # js" and "dst = GetDestination h"
    and "answers Eb t1 sb ib (GetLocal ia) (GetLocal ia) (m_requestId (at s i) + 1) (at s j)" and "GetLocal ib = dst"
    and "bound i sa = GetLocal ia" and "bound j sb = dst" and "GetLocal ia \<noteq> dst"
    and "t2 \<le> t0 + m_queueTimeout (m_rqueue (at s i))" and "\<forall>k\<ge>0. 0 \<le> MilliSeconds (unit_of_time Ea) k"
  shows "\<exists>s1 s2 s3 rt es. mesh_step L B bound t0 s s1 \<and> mesh_step L B bound t1 s1 s2 \<and> mesh_step L B bound t2 s2 s3
    \<and> route_of (at s3 i) dst = Some rt \<and> rt_flag rt = VALID \<and> GetNextHop rt = dst \<and> rt_hops rt = 1
    \<and> rt_seqNo rt = m_seqNo (at s3 j)
    \<and> \<not> RequestQueue_Find dst (m_rqueue (at s3 i))
    \<and> out (at s3 i) = es @ [UnicastForward ucb (rt_route rt) (p\<lparr>deferred_tag := None\<rparr>)
        (h\<lparr>GetSource := route_source (rt_route rt), GetTtl := GetTtl h + 1\<rparr>)]"
proof -
  define entry where "entry = \<lparr>qe_packet = p, qe_header = h, qe_ucb = ucb, qe_ecb = ecb,
    qe_expire = m_queueTimeout (m_rqueue (at s i)) + t0\<rparr>"
  obtain n q rt d where step1: "mesh_step L B bound t0 s (mesh_after B bound i n s)"
    and air1: "\<lparr>frame_source = GetLocal ia, frame_target = broadcast_of ia, frame_bytes = wire B (Rreq q)\<rparr>
        \<in> set (air (mesh_after B bound i n s))"
    and q: "rreq_dst q = dst" "rreq_requestID q = m_requestId (at s i) + 1" "rreq_origin q = GetLocal ia"
    and n: "node_wf n" "m_socketAddresses n = (sa, ia) # js" "par n = par (at s i)"
      "filter (\<lambda>e. GetDestination (qe_header e) = dst) (m_queue (m_rqueue n)) = [entry]"
      "route_of n dst = Some rt" "rt_flag rt = IN_SEARCH" "\<not> rt_validSeqNo rt"
    using ask_step [where bound = bound, OF assms(7,3,4,8,12,9) entry_def] by blast
  define s1 where "s1 = mesh_after B bound i n s"
  have at1: "at s1 i = n" "at s1 j = at s j" using assms(1) by (simp_all add: s1_def)
  obtain m r where step2: "mesh_step L B bound t1 s1 (mesh_after B bound j m s1)"
    and air2: "\<lparr>frame_source = dst, frame_target = GetLocal ia, frame_bytes = wire B (Rrep r)\<rparr> \<in> set (air (mesh_after B bound j m s1))"
    and r: "rrep_dst r = dst" "rrep_origin r = GetLocal ia" "rrep_hopCount r = 0" "rrep_flags r = 0" "rrep_dstSeqNo r = m_seqNo m"
    using answer_step [of Eb t1 sb ib "GetLocal ia" q s1 j B L _ bound, OF _ assms(2,5,6) air1 [folded s1_def]]
      assms(10,11,13) at1 q by auto
  define s2 where "s2 = mesh_after B bound j m s1"
  have at2: "at s2 i = n" "at s2 j = m" using assms(1) at1 by (simp_all add: s2_def)
  have asked: "0 \<le> ActiveRouteTimeout (par n)" "deferred_tag (qe_packet entry) = Some (- 1)" "t2 \<le> qe_expire entry"
    using assms(7,15) n(3) by (simp_all add: asks_def entry_def)
  obtain n' rt' es where n': "RecvAodv Ea t2 sa dst (wire B (Rrep r) @ []) n = Some n'"
      "route_of n' dst = Some rt'" "rt_flag rt' = VALID" "GetNextHop rt' = dst" "rt_hops rt' = 1"
      "rt_seqNo rt' = rrep_dstSeqNo r" "\<not> RequestQueue_Find dst (m_rqueue n')"
      "out n' = out n @ map dropped_report es @ [handed_over (rt_route rt') entry]"
    using asker_served [OF n(1) _ n(2,5,6,7) asked(1) r(2,1) assms(14) r(4,3) assms(16) n(4) asked(2,3), of "[]"]
      assms(2,4) by auto
  define s3 where "s3 = mesh_after B bound i n' s2"
  have step3: "mesh_step L B bound t2 s2 s3"
    unfolding s3_def by (rule deliver_step [OF air2 [folded s2_def] assms(3,4), where sk = sa and padding = "[]"])
      (use n'(1) at2 in simp)
  have at3: "at s3 i = n'" "at s3 j = m" using assms(1) at2 by (simp_all add: s3_def)
  have "out n' = (out n @ map dropped_report es) @ [UnicastForward ucb (rt_route rt') (p\<lparr>deferred_tag := None\<rparr>)
      (h\<lparr>GetSource := route_source (rt_route rt'), GetTtl := GetTtl h + 1\<rparr>)]"
    using n'(8) by (simp add: handed_over_def entry_def)
  then show ?thesis
    using step1 step2 step3 n'(2-7) r(5) at3 unfolding s1_def [symmetric] s2_def [symmetric] by metis
qed

text \<open>Two nodes on one network, 10.0.0.1 and 10.0.0.2; the first has a packet for the second.\<close>

definition far_iface :: Ipv4InterfaceAddress where
  "far_iface = test_iface\<lparr>GetLocal := 0x0a000002\<rparr>"

definition far_env :: env where
  "far_env = test_env\<lparr>GetAddress := (\<lambda>i. far_iface)\<rparr>"

definition far_node :: node where
  "far_node = idle_node\<lparr>m_socketAddresses := [(3, far_iface)]\<rparr>"

definition pair_mesh :: mesh where
  "pair_mesh = \<lparr>at = (\<lambda>i. if i = 1 then far_node else idle_node), air = []\<rparr>"

lemma far_node_facts:
  "node_wf far_node" "route_of (aged now far_node) a = None" "m_rreqIdCache far_node = m_rreqIdCache idle_node"
proof -
  show "node_wf far_node"
    unfolding far_node_def by (intro node_wf_field idle_node_facts(1)) (simp add: map_ok_Cons)
  show "route_of (aged now far_node) a = None"
    by (simp add: far_node_def idle_node_def node_new_def Let_def RoutingTable_new_def route_of_def aged_def
        RoutingTable_Purge_simp table_map_def purge_entries_def map_filter_simps)
  show "m_rreqIdCache far_node = m_rreqIdCache idle_node" by (simp add: far_node_def)
qed

theorem mesh_discovery_witness:
  "\<exists>s1 s2 s3 rt. mesh_step ns3_library net_buffer (\<lambda>i s. if i = 0 then 0x0a000001 else 0x0a000002) 0 pair_mesh s1
     \<and> mesh_step ns3_library net_buffer (\<lambda>i s. if i = 0 then 0x0a000001 else 0x0a000002) 1 s1 s2
     \<and> mesh_step ns3_library net_buffer (\<lambda>i s. if i = 0 then 0x0a000001 else 0x0a000002) 2 s2 s3
     \<and> route_of (at s3 0) 0x0a000002 = Some rt \<and> rt_flag rt = VALID \<and> GetNextHop rt = 0x0a000002"
proof -
  let ?p = "\<lparr>GetUid = 4, deferred_tag = Some (- 1)\<rparr> :: packet"
  let ?h = "\<lparr>GetSource = 0x0a000001, GetDestination = 0x0a000002, GetTtl = 5\<rparr> :: Ipv4Header"
  let ?bound = "\<lambda>i s. if i = (0 :: nat) then 0x0a000001 else 0x0a000002 :: ipv4addr"
  have env: "lib test_env = ns3_library" "buf test_env = net_buffer" "lib far_env = ns3_library" "buf far_env = net_buffer"
    by (simp_all add: far_env_def test_env_def)
  have nodes: "at pair_mesh 0 = idle_node" "at pair_mesh 1 = far_node" by (simp_all add: pair_mesh_def)
  have "0 \<le> sint (GetInterfaceForDevice test_env (m_lo idle_node))" "m_rreqCount idle_node \<noteq> RreqRateLimit (par idle_node)"
    "0 \<le> ActiveRouteTimeout (par idle_node)" "2 \<le> 0 + m_queueTimeout (m_rqueue idle_node)"
    by code_simp+
  then have asks: "asks test_env 0 ?p ?h (at pair_mesh 0)" "2 \<le> 0 + m_queueTimeout (m_rqueue (at pair_mesh 0))"
    unfolding nodes by (simp_all add: asks_def idle_node_facts)
  have "\<not> fst (IdCache_IsDuplicate 1 (GetLocal test_iface) (m_requestId idle_node + 1) (m_rreqIdCache far_node))"
    unfolding far_node_facts(3) by code_simp
  then have answers: "answers far_env 1 3 far_iface (GetLocal test_iface) (GetLocal test_iface) (m_requestId (at pair_mesh 0) + 1) (at pair_mesh 1)"
    unfolding nodes answers_def using far_node_facts(1,2)
    by (simp add: far_node_def FindSocketWithInterfaceAddress_def iface_of_def far_env_def far_iface_def)
  have sock: "m_socketAddresses (at pair_mesh 0) = (3, test_iface) # []" by (simp add: nodes idle_node_facts)
  have bound: "?bound 0 3 = GetLocal test_iface" "?bound 1 3 = 0x0a000002" "GetLocal test_iface \<noteq> 0x0a000002"
    "\<forall>k\<ge>0. 0 \<le> MilliSeconds (unit_of_time test_env) k" "(0 :: nat) \<noteq> 1" "0x0a000002 = GetDestination ?h"
    "GetLocal far_iface = 0x0a000002"
    by (simp_all add: test_iface_def test_env_def nanoseconds_def far_iface_def)
  from mesh_discovery [of 0 1, OF bound(5) net_buffer_laws env asks(1) sock bound(6) answers bound(7,1,2,3) asks(2) bound(4)]
  show ?thesis by blast
qed

end
