(* ===== verification/Route_Errors.thy ===== *)
theory Route_Errors
  imports Replies
begin

text \<open>
  Route errors: what a node does when a neighbour reports destinations it lost (\<open>RecvError\<close>) and when
  the link to a neighbour breaks (\<open>SendRerrWhenBreaksLinkToNextHop\<close>) of
  \<open>model/aodv-routing-protocol.cc\<close>: which routes become invalid, what is reported, and to whom.
\<close>

section \<open>Routes while errors are sent\<close>

definition same_routes :: "time \<Rightarrow> node \<Rightarrow> node \<Rightarrow> bool" where
  "same_routes now n0 n \<longleftrightarrow> RoutingTable_wf (m_routingTable n) \<and> route_of (aged now n) = route_of (aged now n0)
     \<and> m_badLinkLifetime (m_routingTable n) = m_badLinkLifetime (m_routingTable n0)"

interpretation routes: evolution "\<lambda>n. RoutingTable_wf (m_routingTable n)" "same_routes now" for now
  by unfold_locales (auto simp: same_routes_def)

lemma same_routes_aged: "RoutingTable_wf (m_routingTable n) \<Longrightarrow> same_routes now n (aged now n)"
  by (simp add: same_routes_def aged_wf route_of_aged_twice) (simp add: aged_def)

lemma same_routes_table: "m_routingTable n' = m_routingTable n \<Longrightarrow> RoutingTable_wf (m_routingTable n) \<Longrightarrow> same_routes now n n'"
  by (simp add: same_routes_def route_of_def aged_def fun_eq_iff)

text \<open>A socket for every route that is valid once the table is purged.\<close>

definition sockets_for_routes :: "time \<Rightarrow> node \<Rightarrow> bool" where
  "sockets_for_routes now n \<longleftrightarrow> (\<forall>a rt. route_of (aged now n) a = Some rt \<longrightarrow> rt_flag rt = VALID
     \<longrightarrow> FindSocketWithInterfaceAddress (rt_iface rt) n \<noteq> None)"

text \<open>The interfaces of precursors that have a valid route.\<close>

definition served :: "time \<Rightarrow> node \<Rightarrow> ipv4addr list \<Rightarrow> Ipv4InterfaceAddress set" where
  "served now n ps = {rt_iface rt |p rt. p \<in> set ps \<and> route_of (aged now n) p = Some rt \<and> rt_flag rt = VALID}"

lemma precursor_ifaces_served:
  "RoutingTable_wf (m_routingTable n) \<Longrightarrow> precursor_ifaces now ps ifaces n = (m, js) \<Longrightarrow>
   same_routes now n m \<and> set js = set ifaces \<union> served now n ps \<and> m_socketAddresses m = m_socketAddresses n"
proof (induction ps arbitrary: ifaces n)
  case Nil
  then show ?case by (simp add: routes.refl served_def)
next
  case (Cons p ps)
  let ?js = "case route_of (aged now n) p of None \<Rightarrow> ifaces
    | Some rt \<Rightarrow> if rt_flag rt = VALID \<and> rt_iface rt \<notin> set ifaces then ifaces @ [rt_iface rt] else ifaces"
  have "precursor_ifaces now ps ?js (aged now n) = (m, js)"
    using Cons.prems(2) by (auto simp: lookup_valid_route_eq split: option.splits if_splits)
  from Cons.IH [OF aged_wf [OF Cons.prems(1)] this]
  have IH: "same_routes now (aged now n) m" "set js = set ?js \<union> served now (aged now n) ps"
    "m_socketAddresses m = m_socketAddresses n" by simp_all
  have "served now (aged now n) ps = served now n ps"
    by (simp add: served_def route_of_aged_twice [OF Cons.prems(1)])
  moreover have "set ?js \<union> served now n ps = set ifaces \<union> served now n (p # ps)"
    by (auto simp: served_def split: option.split)
  ultimately show ?case
    using IH routes.trans [OF same_routes_aged [OF Cons.prems(1)] IH(1)] by simp
qed

text \<open>
  The messages that tell the precursors \<open>P\<close>: none once the limit is reached; one on each interface that
  leads to a precursor with a valid route, to that interface's broadcast address, or, if there is a
  single precursor, to that precursor.
\<close>

definition notice :: "node \<Rightarrow> ipv4addr set \<Rightarrow> RerrHeader \<Rightarrow> Ipv4InterfaceAddress \<Rightarrow> effect" where
  "notice n P h i = SendTo (the (FindSocketWithInterfaceAddress i n)) (Rerr h)
     (if is_singleton P then the_elem P else broadcast_of i)"

definition notices :: "time \<Rightarrow> node \<Rightarrow> ipv4addr set \<Rightarrow> RerrHeader \<Rightarrow> effect list \<Rightarrow> bool" where
  "notices now n P h es \<longleftrightarrow> (\<exists>is. distinct is
     \<and> set is = {rt_iface rt |p rt. p \<in> P \<and> route_of (aged now n) p = Some rt \<and> rt_flag rt = VALID}
     \<and> es = (if m_rerrCount n = RerrRateLimit (par n) then [] else map (notice n P h) is))"

lemma notices_served:
  "notices now n (set ps) h es \<longleftrightarrow> (\<exists>is. distinct is \<and> set is = served now n ps
     \<and> es = (if m_rerrCount n = RerrRateLimit (par n) then [] else map (notice n (set ps) h) is))"
  by (simp add: notices_def served_def)

lemma notices_sent: "notices now n P h es \<Longrightarrow> e \<in> set es \<Longrightarrow> \<exists>s a. e = SendTo s (Rerr h) a"
  by (auto simp: notices_def notice_def split: if_splits)

lemma notices_none:
  "notices now n P h es \<Longrightarrow> es = [] \<longleftrightarrow> m_rerrCount n = RerrRateLimit (par n)
     \<or> (\<forall>p rt. p \<in> P \<longrightarrow> route_of (aged now n) p = Some rt \<longrightarrow> rt_flag rt \<noteq> VALID)"
proof -
  assume "notices now n P h es"
  then obtain ifaces where i: "set ifaces = {rt_iface rt |p rt. p \<in> P \<and> route_of (aged now n) p = Some rt \<and> rt_flag rt = VALID}"
    "es = (if m_rerrCount n = RerrRateLimit (par n) then [] else map (notice n P h) ifaces)"
    unfolding notices_def by blast
  have "ifaces = [] \<longleftrightarrow> (\<forall>p rt. p \<in> P \<longrightarrow> route_of (aged now n) p = Some rt \<longrightarrow> rt_flag rt \<noteq> VALID)"
    unfolding set_empty [symmetric] i(1) by blast
  then show ?thesis unfolding i(2) by auto
qed

lemma notices_frame:
  "m_socketAddresses m = m_socketAddresses n \<Longrightarrow> m_rerrCount m = m_rerrCount n \<Longrightarrow> par m = par n \<Longrightarrow>
   route_of (aged now m) = route_of (aged now n) \<Longrightarrow> notices now m P h es = notices now n P h es"
  by (simp add: notices_def notice_def find_socket_frame [of m n] cong: map_cong)

lemma broadcast_rerr_total:
  "\<forall>i\<in>set is. FindSocketWithInterfaceAddress i n \<noteq> None \<Longrightarrow>
   \<exists>n'. broadcast_rerr h is n = Some n' \<and> m_routingTable n' = m_routingTable n
     \<and> out n' = out n @ map (\<lambda>i. SendTo (the (FindSocketWithInterfaceAddress i n)) (Rerr h) (broadcast_of i)) is"
proof (induction "is" arbitrary: n)
  case (Cons i "is")
  then obtain s where s: "FindSocketWithInterfaceAddress i n = Some s" by auto
  define n1 where "n1 = emit (SendTo s (Rerr h) (broadcast_of i)) n\<lparr>m_rerrCount := m_rerrCount n + 1\<rparr>"
  have same: "FindSocketWithInterfaceAddress j n1 = FindSocketWithInterfaceAddress j n" for j
    by (simp add: n1_def emit_def FindSocketWithInterfaceAddress_def)
  have "\<forall>i\<in>set is. FindSocketWithInterfaceAddress i n1 \<noteq> None" using Cons.prems by (simp add: same)
  from Cons.IH [OF this] obtain n' where n': "broadcast_rerr h is n1 = Some n'" "m_routingTable n' = m_routingTable n1"
    "out n' = out n1 @ map (\<lambda>i. SendTo (the (FindSocketWithInterfaceAddress i n)) (Rerr h) (broadcast_of i)) is"
    unfolding same by blast
  have "broadcast_rerr h (i # is) n = broadcast_rerr h is n1"
    by (simp add: send_on_found [OF s] n1_def emit_def)
  with n' s show ?case by (intro exI [of _ n']) (simp add: n1_def emit_def)
qed simp

lemma one_precursor:
  assumes "RoutingTable_wf (m_routingTable n)" "sockets_for_routes now n" "m_rerrCount n \<noteq> RerrRateLimit (par n)"
  shows "\<exists>n' es. SendRerrMessage now h [p] n = Some n' \<and> same_routes now n n' \<and> out n' = out n @ es
    \<and> notices now n (set [p]) h es"
proof (cases "served now n [p] = {}")
  case True
  then have "SendRerrMessage now h [p] n = Some (aged now n)"
    using assms(3) by (auto simp: SendRerrMessage_def lookup_valid_route_eq served_def split: option.splits)
  moreover have "notices now n (set [p]) h []"
    unfolding notices_served True by (rule exI [of _ "[]"]) simp
  ultimately show ?thesis using same_routes_aged [OF assms(1)] by auto
next
  case some: False
  then obtain rt where rt: "route_of (aged now n) p = Some rt" "rt_flag rt = VALID" by (auto simp: served_def)
  then obtain s where s: "FindSocketWithInterfaceAddress (rt_iface rt) n = Some s"
    using assms(2) unfolding sockets_for_routes_def by blast
  then have s': "FindSocketWithInterfaceAddress (rt_iface rt) (aged now n) = Some s"
    using find_socket_frame [of "aged now n" n] by simp
  define n' where "n' = (emit (SendTo s (Rerr h) p) (aged now n))\<lparr>m_rerrCount := m_rerrCount n + 1\<rparr>"
  have "SendRerrMessage now h [p] n = Some n'"
    using assms(3) by (simp add: SendRerrMessage_def lookup_valid_route_eq rt send_on_found [OF s'] n'_def emit_def)
  moreover have "same_routes now n n'"
    by (rule routes.trans [OF same_routes_aged [OF assms(1)] same_routes_table])
      (simp_all add: n'_def emit_def aged_wf [OF assms(1)])
  moreover have "served now n [p] = {rt_iface rt}" using rt by (auto simp: served_def)
  then have "notices now n (set [p]) h [SendTo s (Rerr h) p]"
    unfolding notices_served using assms(3) s by (intro exI [of _ "[rt_iface rt]"]) (simp add: notice_def)
  ultimately show ?thesis by (intro exI [of _ n'] exI [of _ "[SendTo s (Rerr h) p]"]) (simp add: n'_def emit_def)
qed

lemma SendRerrMessage_spec:
  assumes "RoutingTable_wf (m_routingTable n)" "m_rerrRateLimitTimer n \<noteq> None" "sockets_for_routes now n" "distinct ps"
  shows "\<exists>n' es. SendRerrMessage now h ps n = Some n' \<and> same_routes now n n' \<and> out n' = out n @ es
    \<and> notices now n (set ps) h es"
proof (cases "ps = [] \<or> m_rerrCount n = RerrRateLimit (par n)")
  case True
  then have "SendRerrMessage now h ps n = Some n" using assms(2) by (auto simp: SendRerrMessage_def)
  moreover obtain js where "precursor_ifaces now ps [] n = (fst (precursor_ifaces now ps [] n), js)" by (metis prod.collapse)
  with precursor_ifaces_served [OF assms(1) this] precursor_ifaces_spec [OF this]
  have "distinct js" "set js = served now n ps" by simp_all
  then have "notices now n (set ps) h []"
    unfolding notices_served using True by (intro exI [of _ js]) (auto simp: served_def)
  ultimately show ?thesis using routes.refl [OF assms(1)] by auto
next
  case False
  show ?thesis
  proof (cases "length ps = 1")
    case True
    then obtain p where "ps = [p]" by (auto simp: length_Suc_conv)
    with one_precursor [OF assms(1,3), of h p] False show ?thesis by auto
  next
    case many: False
    obtain m js where js: "precursor_ifaces now ps [] n = (m, js)" by fastforce
    note m = precursor_ifaces_served [OF assms(1) js]
    have sock: "FindSocketWithInterfaceAddress i m = FindSocketWithInterfaceAddress i n" for i
      using m find_socket_frame [of m n] by blast
    have "\<forall>i\<in>set js. FindSocketWithInterfaceAddress i m \<noteq> None"
      using m assms(3) sock by (fastforce simp: sockets_for_routes_def served_def)
    from broadcast_rerr_total [OF this, of h] obtain n' where
      n': "broadcast_rerr h js m = Some n'" "m_routingTable n' = m_routingTable m"
        "out n' = out m @ map (\<lambda>i. SendTo (the (FindSocketWithInterfaceAddress i n)) (Rerr h) (broadcast_of i)) js"
      unfolding sock by blast
    have "card (set ps) \<noteq> 1" using many distinct_card [OF assms(4)] by simp
    then have "\<not> is_singleton (set ps)" by (simp add: is_singleton_altdef)
    then have "notices now n (set ps) h (map (\<lambda>i. SendTo (the (FindSocketWithInterfaceAddress i n)) (Rerr h) (broadcast_of i)) js)"
      unfolding notices_served using False m precursor_ifaces_spec [OF js]
      by (intro exI [of _ js]) (simp add: notice_def cong: map_cong)
    moreover have "same_routes now n n'"
      using m routes.trans same_routes_table [OF n'(2)] routes.ok_after by blast
    moreover have "SendRerrMessage now h ps n = Some n'"
      using False many n'(1) by (simp add: SendRerrMessage_def js)
    moreover have "out m = out n" using precursor_ifaces_spec [OF js] by simp
    ultimately show ?thesis
      using n'(3) by (intro exI [of _ n'] exI [of _ "map (\<lambda>i. SendTo (the (FindSocketWithInterfaceAddress i n)) (Rerr h) (broadcast_of i)) js"]) simp
  qed
qed

section \<open>The destinations of an error\<close>

abbreviation listed :: "RerrHeader \<Rightarrow> ipv4addr set" where
  "listed h \<equiv> fst ` set (m_unreachableDstSeqNo h)"

lemma card_listed: "RerrHeader_wf h \<Longrightarrow> card (listed h) = length (m_unreachableDstSeqNo h)"
  by (metis RerrHeader_wf_def map_ok_length)

text \<open>\<open>AddUnDestination\<close> fails its assertion exactly when the report would list more than 255 destinations.\<close>

lemma rerr_add_spec:
  assumes "RerrHeader_wf h"
  shows "rerr_add a k h = None \<longleftrightarrow> 255 < card (insert a (listed h))"
    and "rerr_add a k h = Some h' \<Longrightarrow> RerrHeader_wf h' \<and> listed h' = insert a (listed h)
      \<and> map_of (m_unreachableDstSeqNo h') = (map_of (m_unreachableDstSeqNo h))(a := Some (case map_of (m_unreachableDstSeqNo h) a of None \<Rightarrow> k | Some v \<Rightarrow> v))"
proof -
  have ok: "map_ok (m_unreachableDstSeqNo h)" "length (m_unreachableDstSeqNo h) \<le> 255" using assms by (simp_all add: RerrHeader_wf_def)
  have "unat (of_nat (length (m_unreachableDstSeqNo h)) :: u8) = length (m_unreachableDstSeqNo h)"
    using ok(2) by (simp add: unat_small)
  then have count: "RerrHeader_GetDestCount h < 255 \<longleftrightarrow> length (m_unreachableDstSeqNo h) < 255"
    by (simp add: RerrHeader_GetDestCount_def word_less_nat_alt)
  have known: "map_of (m_unreachableDstSeqNo h) a \<noteq> None \<longleftrightarrow> a \<in> listed h" by (simp add: map_of_eq_None_iff)
  show "rerr_add a k h = None \<longleftrightarrow> 255 < card (insert a (listed h))"
    using card_listed [OF assms] known ok(2) count
    by (auto simp: rerr_add_def RerrHeader_AddUnDestination_def card_insert_if)
  assume add: "rerr_add a k h = Some h'"
  show "RerrHeader_wf h' \<and> listed h' = insert a (listed h)
      \<and> map_of (m_unreachableDstSeqNo h') = (map_of (m_unreachableDstSeqNo h))(a := Some (case map_of (m_unreachableDstSeqNo h) a of None \<Rightarrow> k | Some v \<Rightarrow> v))"
  proof (cases "map_of (m_unreachableDstSeqNo h) a")
    case None
    with add have "h' = h\<lparr>m_unreachableDstSeqNo := map_insert a k (m_unreachableDstSeqNo h)\<rparr>" "length (m_unreachableDstSeqNo h) < 255"
      using count by (auto simp: rerr_add_def RerrHeader_AddUnDestination_def split: if_splits)
    with None ok(1) show ?thesis
      using keys_map_insert [of a k "m_unreachableDstSeqNo h"]
      by (simp add: RerrHeader_wf_def map_ok_insert length_map_insert map_of_insert fun_eq_iff del: set_map)
  next
    case (Some v)
    with add have "h' = h" by (simp add: rerr_add_def RerrHeader_AddUnDestination_def)
    moreover have "a \<in> listed h" using known Some by simp
    ultimately show ?thesis using assms Some by (simp add: insert_absorb fun_upd_idem)
  qed
qed

definition precursors_of :: "env \<Rightarrow> time \<Rightarrow> node \<Rightarrow> ipv4addr \<Rightarrow> ipv4addr set" where
  "precursors_of E now n a = set (rt_precursorList (entry_or_default E now (route_of (aged now n) a)))"

lemma set_GetPrecursors: "set (GetPrecursors rt ps) = set ps \<union> set (rt_precursorList rt)"
  using set_fold_precursors [of "rt_precursorList rt" ps] by (auto simp: GetPrecursors_def IsPrecursorListEmpty_def)

lemma distinct_GetPrecursors: "distinct ps \<Longrightarrow> distinct (GetPrecursors rt ps)"
  by (simp add: GetPrecursors_def distinct_fold_precursors)

lemma collect_distinct:
  "collect_unreachable E now us h ps n = Some (h', ps', n') \<Longrightarrow> distinct ps \<Longrightarrow> distinct ps'"
proof (induction us arbitrary: h ps n)
  case (Cons u us)
  then show ?case
    by (auto simp: lookup_route_eq Let_def split: Option.bind_splits dest!: Cons.IH intro: distinct_GetPrecursors)
qed simp

lemma collect_spec:
  "RoutingTable_wf (m_routingTable n) \<Longrightarrow> RerrHeader_wf h \<Longrightarrow> card (listed h \<union> fst ` set us) \<le> 255 \<Longrightarrow>
   \<exists>h' ps' n'. collect_unreachable E now us h ps n = Some (h', ps', n') \<and> same_routes now n n' \<and> RerrHeader_wf h'
     \<and> (\<exists>t. n' = n\<lparr>m_routingTable := t\<rparr>)
     \<and> map_of (m_unreachableDstSeqNo h') = map_of us ++ map_of (m_unreachableDstSeqNo h)
     \<and> set ps' = set ps \<union> (\<Union>a\<in>fst ` set us. precursors_of E now n a)"
proof (induction us arbitrary: h ps n)
  case Nil
  moreover have "\<exists>t. n = n\<lparr>m_routingTable := t\<rparr>" by (rule exI [of _ "m_routingTable n"]) simp
  ultimately show ?case by (simp add: routes.refl)
next
  case (Cons u us)
  have sub: "insert (fst u) (listed h) \<subseteq> listed h \<union> fst ` set (u # us)" by auto
  have "card (insert (fst u) (listed h)) \<le> 255"
    by (rule order_trans [OF card_mono [OF _ sub] Cons.prems(3)]) simp
  then obtain h1 where "rerr_add (fst u) (snd u) h = Some h1" using rerr_add_spec(1) [OF Cons.prems(2)] by fastforce
  with rerr_add_spec(2) [OF Cons.prems(2) this] have h1: "rerr_add (fst u) (snd u) h = Some h1" "RerrHeader_wf h1"
    "listed h1 = insert (fst u) (listed h)"
    "map_of (m_unreachableDstSeqNo h1) = (map_of (m_unreachableDstSeqNo h))(fst u := Some (case map_of (m_unreachableDstSeqNo h) (fst u) of None \<Rightarrow> snd u | Some v \<Rightarrow> v))"
    by simp_all
  let ?ps = "GetPrecursors (entry_or_default E now (route_of (aged now n) (fst u))) ps"
  have "card (listed h1 \<union> fst ` set us) \<le> 255" using Cons.prems(3) by (simp add: h1(3))
  note step = Cons.IH [OF aged_wf [OF Cons.prems(1), of now] h1(2) this, of ?ps]
  from step obtain h' ps' n' where all: "collect_unreachable E now us h1 ?ps (aged now n) = Some (h', ps', n')
    \<and> same_routes now (aged now n) n' \<and> RerrHeader_wf h' \<and> (\<exists>t. n' = (aged now n)\<lparr>m_routingTable := t\<rparr>)
    \<and> map_of (m_unreachableDstSeqNo h') = map_of us ++ map_of (m_unreachableDstSeqNo h1)
    \<and> set ps' = set ?ps \<union> (\<Union>a\<in>fst ` set us. precursors_of E now (aged now n) a)"
    by (elim exE) (rule that)
  note IH = conjunct1 [OF all] conjunct2 [OF all, THEN conjunct1] conjunct2 [OF all, THEN conjunct2, THEN conjunct1]
    conjunct2 [OF all, THEN conjunct2, THEN conjunct2, THEN conjunct1]
    conjunct2 [OF all, THEN conjunct2, THEN conjunct2, THEN conjunct2, THEN conjunct1]
    conjunct2 [OF all, THEN conjunct2, THEN conjunct2, THEN conjunct2, THEN conjunct2]
  have run: "collect_unreachable E now (u # us) h ps n = Some (h', ps', n')"
    using IH(1) h1(1) by (simp add: lookup_route_eq Let_def)
  moreover have "same_routes now n n'" by (rule routes.trans [OF same_routes_aged [OF Cons.prems(1)] IH(2)])
  moreover have "\<exists>t. n' = n\<lparr>m_routingTable := t\<rparr>" using IH(4) by (auto simp: aged_def)
  moreover have "map_of (m_unreachableDstSeqNo h') = map_of (u # us) ++ map_of (m_unreachableDstSeqNo h)"
    unfolding IH(5) h1(4) by (cases u) (simp add: fun_eq_iff map_add_def split: option.split)
  moreover have "precursors_of E now (aged now n) a = precursors_of E now n a" for a
    by (simp add: precursors_of_def route_of_aged_twice [OF Cons.prems(1)])
  then have "set ps' = set ps \<union> (\<Union>a\<in>fst ` set (u # us). precursors_of E now n a)"
    unfolding IH(6) set_GetPrecursors by (simp add: precursors_of_def Un_assoc)
  ultimately show ?case using IH(3) by blast
qed

lemma collect_fails:
  "RerrHeader_wf h \<Longrightarrow> 255 < card (listed h \<union> fst ` set us) \<Longrightarrow> collect_unreachable E now us h ps n = None"
proof (induction us arbitrary: h ps n)
  case Nil
  then show ?case using card_listed [OF Nil.prems(1)] by (simp add: RerrHeader_wf_def)
next
  case (Cons u us)
  show ?case
  proof (cases "rerr_add (fst u) (snd u) h")
    case (Some h1)
    with rerr_add_spec(2) [OF Cons.prems(1) Some] Cons.prems(2) show ?thesis by (simp add: Cons.IH lookup_route_eq Let_def)
  qed simp
qed

text \<open>The destinations that are lost with a report: those it lists that are reached through its sender.\<close>

definition lost :: "time \<Rightarrow> node \<Rightarrow> ipv4addr \<Rightarrow> RerrHeader \<Rightarrow> ipv4addr \<Rightarrow> u32 option" where
  "lost now n src h a = (case route_of (aged now n) a of
     Some rt \<Rightarrow> if GetNextHop rt = src then map_of (m_unreachableDstSeqNo h) a else None
   | None \<Rightarrow> None)"

lemma fold_lost:
  "map_ok u \<Longrightarrow> map_ok (fold (\<lambda>un u. if P (fst un) then map_insert (fst un) (snd un) u else u) hs u)
     \<and> map_of (fold (\<lambda>un u. if P (fst un) then map_insert (fst un) (snd un) u else u) hs u) a =
         (case map_of u a of Some v \<Rightarrow> Some v | None \<Rightarrow> if P a then map_of hs a else None)
     \<and> length (fold (\<lambda>un u. if P (fst un) then map_insert (fst un) (snd un) u else u) hs u) \<le> length u + length hs"
proof (induction hs arbitrary: u)
  case (Cons un hs)
  let ?u = "if P (fst un) then map_insert (fst un) (snd un) u else u"
  have "map_ok ?u" using Cons.prems by (simp add: map_ok_insert)
  moreover have "length ?u \<le> Suc (length u)" using Cons.prems by (simp add: length_map_insert split: option.split)
  moreover have "map_of ?u a = (if a = fst un \<and> P a \<and> map_of u a = None then Some (snd un) else map_of u a)"
    using Cons.prems by (auto simp: map_of_insert split: option.splits)
  ultimately show ?case
    using Cons.IH [of ?u] by (cases un) (auto split: option.splits if_splits)
qed (simp split: option.split)

lemma destinations_via_map:
  assumes "RoutingTable_wf (m_routingTable n)" "destinations_via now hop n = (m, us)"
  shows "m = aged now n" "map_ok us"
    and "map_of us a = Option.bind (route_of (aged now n) a) (\<lambda>rt. if GetNextHop rt = hop then Some (rt_seqNo rt) else None)"
proof -
  show m: "m = aged now n" using assms(2) destinations_via_eq [of now hop n] by simp
  let ?m = "m_ipv4AddressEntry (m_routingTable (aged now n))"
  have ok: "map_ok ?m" using aged_wf [OF assms(1), of now] by (simp add: RoutingTable_wf_def)
  have us: "us = map (\<lambda>i. (fst i, rt_seqNo (snd i))) (filter (\<lambda>i. GetNextHop (snd i) = hop) ?m)"
    using fold_hops [of "[]" ?m "\<lambda>rt. GetNextHop rt = hop" rt_seqNo] ok assms(2)
    by (auto simp: destinations_via_def GetListOfDestinationWithNextHop_def aged_def Let_def)
  have "map fst us = map fst (filter (\<lambda>i. GetNextHop (snd i) = hop) ?m)" by (simp add: us comp_def)
  with map_ok_filter [OF ok] show "map_ok us" by (simp only: map_ok_def)
  show "map_of us a = Option.bind (route_of (aged now n) a) (\<lambda>rt. if GetNextHop rt = hop then Some (rt_seqNo rt) else None)"
    unfolding us route_of_def table_map_def by (rule map_of_filter_map) (rule map_ok_distinct [OF ok])
qed

lemma keys_map_of: "a \<in> fst ` set m \<longleftrightarrow> map_of m a \<noteq> None"
  by (simp add: map_of_eq_None_iff)

lemma lost_destinations_spec:
  assumes "RoutingTable_wf (m_routingTable n)" "destinations_via now src n = (m, ds)" "RerrHeader_wf h"
  shows "map_of (lost_destinations ds h) = lost now n src h" "length (lost_destinations ds h) \<le> 255"
proof -
  have exists: "(\<exists>i\<in>set ds. fst i = a) \<longleftrightarrow> a \<in> fst ` set ds" for a by force
  note spec = fold_lost [of "[]" "\<lambda>a. a \<in> fst ` set ds" "m_unreachableDstSeqNo h", OF map_ok_Nil, unfolded list.size add_0]
  show "map_of (lost_destinations ds h) = lost now n src h"
  proof
    fix a
    have "map_of (lost_destinations ds h) a = (if map_of ds a \<noteq> None then map_of (m_unreachableDstSeqNo h) a else None)"
      using conjunct1 [OF conjunct2 [OF spec [of a]]] unfolding lost_destinations_def exists keys_map_of by simp
    then show "map_of (lost_destinations ds h) a = lost now n src h a"
      unfolding destinations_via_map(3) [OF assms(1,2)] by (simp add: lost_def split: option.split)
  qed
  show "length (lost_destinations ds h) \<le> 255"
    using conjunct2 [OF conjunct2 [OF spec]] assms(3) unfolding lost_destinations_def exists
    by (simp add: RerrHeader_wf_def)
qed

text \<open>A route that is given up: an invalid one stays as it is.\<close>

definition given_up :: "time \<Rightarrow> RoutingTableEntry \<Rightarrow> RoutingTableEntry" where
  "given_up later rt =
     (if rt_flag rt = VALID then rt\<lparr>rt_flag := INVALID, rt_reqCount := 0, rt_lifeTime := later\<rparr> else rt)"

lemma route_of_invalidate:
  assumes "RoutingTable_wf (m_routingTable n)" "bad = m_badLinkLifetime (m_routingTable n)"
  shows "route_of (invalidate_routes now us n) a =
    map_option (if a \<in> fst ` set us then given_up (bad + now) else id) (route_of (aged now n) a)"
  using table_map_Invalidate [OF assms(1), of now us a]
  by (cases "route_of (aged now n) a")
    (auto simp: assms(2) route_of_def invalidate_routes_def aged_def Invalidate_def given_up_def)

section \<open>Errors from neighbours\<close>

lemma sockets_same:
  "same_routes now n n' \<Longrightarrow> m_socketAddresses n' = m_socketAddresses n \<Longrightarrow> sockets_for_routes now n \<Longrightarrow> sockets_for_routes now n'"
  using find_socket_frame [of n' n] by (simp add: same_routes_def sockets_for_routes_def)

text \<open>The end of both handlers: the collected error is sent, if there is one, and the routes are invalidated.\<close>

lemma report_and_invalidate:
  assumes "RoutingTable_wf (m_routingTable n)" "m_rerrRateLimitTimer n \<noteq> None" "sockets_for_routes now n" "RerrHeader_wf h"
    and "bad = m_badLinkLifetime (m_routingTable n)" and "distinct ps" and "m_unreachableDstSeqNo h = [] \<Longrightarrow> ps = []"
  shows "\<exists>n' n2 es. (if RerrHeader_GetDestCount h \<noteq> 0 then SendRerrMessage now h ps n else Some n) = Some n2
    \<and> n' = invalidate_routes now us n2 \<and> out n' = out n @ es \<and> notices now n (set ps) h es
    \<and> (\<forall>a. route_of n' a = map_option (if a \<in> fst ` set us then given_up (bad + now) else id) (route_of (aged now n) a))"
proof -
  have "unat (of_nat (length (m_unreachableDstSeqNo h)) :: u8) = length (m_unreachableDstSeqNo h)"
    using assms(4) by (simp add: RerrHeader_wf_def unat_small)
  then have count: "RerrHeader_GetDestCount h \<noteq> 0 \<longleftrightarrow> m_unreachableDstSeqNo h \<noteq> []"
    by (auto simp: RerrHeader_GetDestCount_def word_unat_eq_iff)
  have nobody: "SendRerrMessage now h [] n = Some n" by (simp add: SendRerrMessage_def)
  have "(if RerrHeader_GetDestCount h \<noteq> 0 then SendRerrMessage now h ps n else Some n) = SendRerrMessage now h ps n"
    using assms(7) nobody unfolding count by auto
  with SendRerrMessage_spec [OF assms(1-3,6), of h] obtain n2 es where sent:
    "(if RerrHeader_GetDestCount h \<noteq> 0 then SendRerrMessage now h ps n else Some n) = Some n2"
    "same_routes now n n2" "out n2 = out n @ es" "notices now n (set ps) h es" by metis
  have "out (invalidate_routes now us n2) = out n2" by (simp add: invalidate_routes_def)
  moreover have "route_of (invalidate_routes now us n2) a =
      map_option (if a \<in> fst ` set us then given_up (bad + now) else id) (route_of (aged now n) a)" for a
    using route_of_invalidate [of n2 bad now us a] sent(2) assms(5) by (simp add: same_routes_def)
  ultimately show ?thesis
    by (intro exI [of _ "invalidate_routes now us n2"] exI [of _ n2] exI [of _ es]) (use sent in simp)
qed

text \<open>The precursors of what is lost.\<close>

definition told :: "env \<Rightarrow> time \<Rightarrow> node \<Rightarrow> (ipv4addr \<Rightarrow> bool) \<Rightarrow> ipv4addr set" where
  "told E now n gone = {p. \<exists>a. gone a \<and> p \<in> precursors_of E now n a}"

lemma error_handled:
  assumes "node_wf n" and "RerrHeader_wf h" and "m_rerrRateLimitTimer n \<noteq> None" and "sockets_for_routes now n"
    and "bad = m_badLinkLifetime (m_routingTable n)"
  shows "\<exists>n' h' es. handle_error E now h src n = Some n' \<and> out n' = out n @ es
    \<and> (\<forall>a. route_of n' a =
        map_option (if lost now n src h a \<noteq> None then given_up (bad + now) else id) (route_of (aged now n) a))
    \<and> map_of (m_unreachableDstSeqNo h') = lost now n src h
    \<and> notices now n (told E now n (\<lambda>a. lost now n src h a \<noteq> None)) h' es"
proof -
  note wf = node_wf_parts(1) [OF assms(1)]
  obtain ds where ds: "destinations_via now src n = (aged now n, ds)"
    using destinations_via_eq [of now src n] by (metis prod.collapse)
  define us where "us = lost_destinations ds h"
  note us = lost_destinations_spec [OF wf ds assms(2), folded us_def]
  let ?h = "h\<lparr>m_unreachableDstSeqNo := []\<rparr>"
  have "card (fst ` set us) \<le> length us" using card_image_le [of "set us" fst] card_length [of us] by simp
  then have "RerrHeader_wf ?h" "card (listed ?h \<union> fst ` set us) \<le> 255" using us(2) by (simp_all add: RerrHeader_wf_def)
  note collected = collect_spec [OF aged_wf [OF wf, of now] this, of E now "[]"]
  from collected obtain h' ps n1 where
    c: "collect_unreachable E now us ?h [] (aged now n) = Some (h', ps, n1)" "same_routes now (aged now n) n1"
      "RerrHeader_wf h'" "\<exists>t. n1 = (aged now n)\<lparr>m_routingTable := t\<rparr>" "map_of (m_unreachableDstSeqNo h') = map_of us"
      "set ps = (\<Union>a\<in>fst ` set us. precursors_of E now (aged now n) a)" by auto
  have same: "same_routes now n n1" by (rule routes.trans [OF same_routes_aged [OF wf] c(2)])
  have n1: "m_rerrRateLimitTimer n1 = m_rerrRateLimitTimer n" "m_socketAddresses n1 = m_socketAddresses n"
    "out n1 = out n" "m_rerrCount n1 = m_rerrCount n" "par n1 = par n" using c(4) by (auto simp: aged_def)
  have bad: "bad = m_badLinkLifetime (m_routingTable n1)" using same assms(5) by (simp add: same_routes_def)
  have timer: "m_rerrRateLimitTimer n1 \<noteq> None" using n1 assms(3) by simp
  have routes: "route_of (aged now n1) = route_of (aged now n)" using same by (simp add: same_routes_def)
  have keys: "a \<in> fst ` set us \<longleftrightarrow> lost now n src h a \<noteq> None" for a by (simp only: keys_map_of us(1))
  have mem: "set ps = told E now n (\<lambda>a. lost now n src h a \<noteq> None)"
    unfolding c(6) told_def set_eq_iff UN_iff Bex_def keys by (simp add: precursors_of_def route_of_aged_twice [OF wf])
  have empty: "m_unreachableDstSeqNo h' = [] \<Longrightarrow> ps = []" using c(5,6) by (auto simp: map_of_eq_empty_iff)
  have distinct: "distinct ps" by (rule collect_distinct [OF c(1)]) simp
  from report_and_invalidate [OF routes.ok_after [OF same] timer sockets_same [OF same n1(2) assms(4)] c(3) bad distinct empty, of us]
  obtain n2 n' es where r: "(if RerrHeader_GetDestCount h' \<noteq> 0 then SendRerrMessage now h' ps n1 else Some n1) = Some n2"
    "n' = invalidate_routes now us n2" "out n' = out n @ es" "notices now n (set ps) h' es"
    "\<forall>a. route_of n' a = map_option (if a \<in> fst ` set us then given_up (bad + now) else id) (route_of (aged now n) a)"
    unfolding n1 routes notices_frame [OF n1(2,4,5) routes] by blast
  have "handle_error E now h src n = Some n'"
    using c(1) r(1,2) by (simp add: handle_error_def ds us_def)
  then show ?thesis
    using r(3-5) c(5) us(1) unfolding keys mem by (intro exI [of _ n'] exI [of _ h'] exI [of _ es]) simp
qed

lemma error_sent:
  assumes "node_wf n" and "RerrHeader_wf h" and "m_rerrRateLimitTimer n \<noteq> None" and "sockets_for_routes now n"
    and "bad = m_badLinkLifetime (m_routingTable n)"
  shows "\<exists>n' es. handle_error E now h src n = Some n' \<and> out n' = out n @ es
    \<and> (\<forall>a. route_of n' a =
        map_option (if lost now n src h a \<noteq> None then given_up (bad + now) else id) (route_of (aged now n) a))
    \<and> (\<forall>e\<in>set es. \<exists>s h' b. e = SendTo s (Rerr h') b \<and> map_of (m_unreachableDstSeqNo h') = lost now n src h)"
  using error_handled [OF assms, of E src] by (blast dest: notices_sent)

text \<open>C19: A reported loss is passed on to those it concerns. A node told by a neighbour which destinations it
  cannot reach gives up exactly the valid routes to those of them that it reaches through that neighbour, and
  keeps every other route. It always gets through, and, unless the limit is reached, sends one and the same
  route error, listing exactly these destinations with the reported sequence numbers, once on each interface
  that leads to a precursor of a lost route that has a valid route itself, over the socket of that
  interface: to its broadcast address, or, if there is a single precursor, to that precursor. Nothing else is sent.\<close>

theorem error_propagates:
  assumes "node_wf n" and "RerrHeader_wf h" and "m_rerrRateLimitTimer n \<noteq> None" and "sockets_for_routes now n"
    and "bad = m_badLinkLifetime (m_routingTable n)"
    and "P = {p. \<exists>a. lost now n src h a \<noteq> None \<and> p \<in> precursors_of E now n a}"
  shows "\<exists>n' h' ifaces. handle_error E now h src n = Some n'
    \<and> (\<forall>a. route_of n' a =
        map_option (if lost now n src h a \<noteq> None then given_up (bad + now) else id) (route_of (aged now n) a))
    \<and> map_of (m_unreachableDstSeqNo h') = lost now n src h
    \<and> distinct ifaces
    \<and> set ifaces = {rt_iface rt |p rt. p \<in> P \<and> route_of (aged now n) p = Some rt \<and> rt_flag rt = VALID}
    \<and> out n' = out n @ (if m_rerrCount n = RerrRateLimit (par n) then []
        else map (\<lambda>i. SendTo (the (FindSocketWithInterfaceAddress i n)) (Rerr h')
               (if is_singleton P then the_elem P else broadcast_of i)) ifaces)"
  using error_handled [OF assms(1-5), of E src] unfolding notices_def notice_def told_def assms(6) [symmetric] by blast

text \<open>A node that reaches 5 through 4 for its neighbour 6, and hears from 4 that 5 is lost.\<close>

definition middle_node :: node where
  "middle_node = idle_node\<lparr>m_rerrRateLimitTimer := Some 1, m_routingTable := \<lparr>m_ipv4AddressEntry =
     [(4, RoutingTableEntry_new 0 1 4 True 3 test_iface 1 4 20),
      (5, (RoutingTableEntry_new 0 1 5 True 7 test_iface 2 4 20)\<lparr>rt_precursorList := [6]\<rparr>),
      (6, RoutingTableEntry_new 0 1 6 True 2 test_iface 1 6 20)], m_badLinkLifetime = 15\<rparr>\<rparr>"

lemma middle_node_facts:
  "node_wf middle_node" "m_rerrRateLimitTimer middle_node \<noteq> None" "sockets_for_routes 0 middle_node"
  "route_of (aged 0 middle_node) 5 = Some ((RoutingTableEntry_new 0 1 5 True 7 test_iface 2 4 20)\<lparr>rt_precursorList := [6]\<rparr>)"
  "route_of (aged 0 middle_node) 6 = Some (RoutingTableEntry_new 0 1 6 True 2 test_iface 1 6 20)"
proof -
  let ?t = "m_routingTable middle_node"
  have wf: "RoutingTable_wf ?t"
    by (simp add: middle_node_def RoutingTable_wf_def map_ok_Cons)
      (simp add: GetDestinationOf_def RoutingTableEntry_new_def)
  show "node_wf middle_node"
    using wf idle_node_facts(1) by (simp add: middle_node_def node_wf_def)
  show "m_rerrRateLimitTimer middle_node \<noteq> None" by (simp add: middle_node_def)
  have table: "m_ipv4AddressEntry (m_routingTable (aged 0 middle_node)) = m_ipv4AddressEntry ?t" by code_simp
  have routes: "route_of (aged 0 middle_node) a = map_of (m_ipv4AddressEntry ?t) a" for a
    by (simp only: route_of_def table_map_def table)
  show "route_of (aged 0 middle_node) 5 = Some ((RoutingTableEntry_new 0 1 5 True 7 test_iface 2 4 20)\<lparr>rt_precursorList := [6]\<rparr>)"
    "route_of (aged 0 middle_node) 6 = Some (RoutingTableEntry_new 0 1 6 True 2 test_iface 1 6 20)"
    unfolding routes by (simp_all add: middle_node_def)
  have "FindSocketWithInterfaceAddress test_iface middle_node \<noteq> None" by code_simp
  moreover have "rt_iface rt = test_iface" if "map_of (m_ipv4AddressEntry ?t) a = Some rt" for a rt
    using that by (auto simp: middle_node_def split: if_splits)
  ultimately show "sockets_for_routes 0 middle_node" unfolding sockets_for_routes_def routes by metis
qed

theorem error_propagates_witness:
  "\<exists>n' h'. handle_error test_env 0 (RerrHeader_new\<lparr>m_unreachableDstSeqNo := [(5, 9)]\<rparr>) 4 middle_node = Some n'
     \<and> out n' = [SendTo 3 (Rerr h') 6] \<and> map_of (m_unreachableDstSeqNo h') 5 = Some 9
     \<and> map_option rt_flag (route_of n' 5) = Some INVALID \<and> map_option rt_flag (route_of n' 6) = Some VALID"
proof -
  let ?h = "RerrHeader_new\<lparr>m_unreachableDstSeqNo := [(5, 9)]\<rparr>"
  have wf: "RerrHeader_wf ?h" by (simp add: RerrHeader_wf_def map_ok_Cons)
  have lost: "lost 0 middle_node 4 ?h 5 = Some 9" "lost 0 middle_node 4 ?h 6 = None"
    by (simp_all add: lost_def middle_node_facts(4,5) GetNextHop_def RoutingTableEntry_new_def)
  have gone: "lost 0 middle_node 4 ?h a \<noteq> None \<longleftrightarrow> a = 5" for a
    using lost(1) by (auto simp: lost_def split: option.splits if_splits)
  have "precursors_of test_env 0 middle_node 5 = {6}"
    by (simp add: precursors_of_def middle_node_facts(4) entry_or_default_def found_def)
  then have P: "{6} = {p. \<exists>a. lost 0 middle_node 4 ?h a \<noteq> None \<and> p \<in> precursors_of test_env 0 middle_node a}"
    unfolding gone by auto
  have limit: "m_rerrCount middle_node \<noteq> RerrRateLimit (par middle_node)" "out middle_node = []"
    "FindSocketWithInterfaceAddress test_iface middle_node = Some 3" by code_simp+
  obtain n' h' ifaces where n': "handle_error test_env 0 ?h 4 middle_node = Some n'"
    "\<forall>a. route_of n' a = map_option (if lost 0 middle_node 4 ?h a \<noteq> None
        then given_up (m_badLinkLifetime (m_routingTable middle_node) + 0) else id) (route_of (aged 0 middle_node) a)"
    "map_of (m_unreachableDstSeqNo h') = lost 0 middle_node 4 ?h" "distinct ifaces"
    "set ifaces = {rt_iface rt |p rt. p \<in> {6} \<and> route_of (aged 0 middle_node) p = Some rt \<and> rt_flag rt = VALID}"
    "out n' = map (\<lambda>i. SendTo (the (FindSocketWithInterfaceAddress i middle_node)) (Rerr h')
        (if is_singleton {6 :: ipv4addr} then the_elem {6} else broadcast_of i)) ifaces"
    using error_propagates [OF middle_node_facts(1) wf middle_node_facts(2,3) refl P] limit(1,2) by auto
  have "set ifaces = {test_iface}" unfolding n'(5) by (auto simp: middle_node_facts(5))
  with n'(4) have "ifaces = [test_iface]" by (metis distinct_card card.empty card_insert_disjoint empty_iff finite.emptyI
      length_0_conv length_Suc_conv list.set_intros(1) singletonD)
  then show ?thesis
    using n'(1,3,6) lost n'(2) middle_node_facts(4,5) limit(3) by (auto simp: given_up_def)
qed

section \<open>Broken links\<close>

text \<open>What is lost with the link to \<open>hop\<close>: nothing if the table does not know \<open>hop\<close> itself.\<close>

definition broken :: "time \<Rightarrow> node \<Rightarrow> ipv4addr \<Rightarrow> ipv4addr \<Rightarrow> bool" where
  "broken now n hop a \<longleftrightarrow> route_of (aged now n) hop \<noteq> None
     \<and> (a = hop \<or> (\<exists>rt. route_of (aged now n) a = Some rt \<and> GetNextHop rt = hop))"

lemma rerr_first:
  obtains h where "rerr_add a k RerrHeader_new = Some h" "RerrHeader_wf h" "listed h = {a}"
    "map_of (m_unreachableDstSeqNo h) = [a \<mapsto> k]"
proof -
  obtain h where "rerr_add a k RerrHeader_new = Some h"
    using rerr_add_spec(1) [OF RerrHeader_wf_new, of a k] by (fastforce simp: RerrHeader_new_def)
  with rerr_add_spec(2) [OF RerrHeader_wf_new this] that show thesis by (simp add: RerrHeader_new_def)
qed

lemma hop_destinations:
  assumes wf: "RoutingTable_wf (m_routingTable n)"
  shows "\<exists>m us. destinations_via now hop (aged now n) = (m, us) \<and> same_routes now n m \<and> (\<exists>t. m = n\<lparr>m_routingTable := t\<rparr>)
    \<and> (\<forall>a. map_of us a = Option.bind (route_of (aged now n) a) (\<lambda>rt. if GetNextHop rt = hop then Some (rt_seqNo rt) else None))
    \<and> (route_of (aged now n) hop \<noteq> None \<longrightarrow> insert hop (fst ` set us) = {a. broken now n hop a})"
proof -
  note wf1 = aged_wf [OF wf, of now] and twice = route_of_aged_twice [OF wf, of now]
  define m where "m = aged now (aged now n)"
  have m: "same_routes now n m" unfolding m_def
    by (rule routes.trans [OF same_routes_aged [OF wf] same_routes_aged [OF wf1]])
  obtain us where us: "destinations_via now hop (aged now n) = (m, us)"
    using destinations_via_eq [of now hop "aged now n"] unfolding m_def by (metis prod.collapse)
  have list: "map_of us a = Option.bind (route_of (aged now n) a) (\<lambda>rt. if GetNextHop rt = hop then Some (rt_seqNo rt) else None)" for a
    using destinations_via_map(3) [OF wf1 us] by (simp add: twice)
  have "a \<in> fst ` set us \<longleftrightarrow> (\<exists>rt. route_of (aged now n) a = Some rt \<and> GetNextHop rt = hop)" for a
    unfolding keys_map_of list by (cases "route_of (aged now n) a") auto
  then have "insert hop (fst ` set us) = {a. broken now n hop a}" if "route_of (aged now n) hop \<noteq> None"
    using that unfolding set_eq_iff broken_def by simp
  moreover have "\<exists>t. m = n\<lparr>m_routingTable := t\<rparr>" by (auto simp: m_def aged_def)
  ultimately show ?thesis using us m list by blast
qed

text \<open>What the handler collects: the destinations that are lost and their precursors.\<close>

lemma break_collected:
  assumes wf: "RoutingTable_wf (m_routingTable n)" and Some: "route_of (aged now n) hop = Some toHop"
    and few: "card {a. broken now n hop a} \<le> 255"
  shows "\<exists>h m us h' ps n1. rerr_add hop (rt_seqNo toHop) RerrHeader_new = Some h
    \<and> destinations_via now hop (aged now n) = (m, us)
    \<and> collect_unreachable E now us h (GetPrecursors toHop []) m = Some (h', ps, n1)
    \<and> same_routes now n n1 \<and> RerrHeader_wf h' \<and> (\<exists>t. n1 = n\<lparr>m_routingTable := t\<rparr>)
    \<and> (\<forall>a. map_of (m_unreachableDstSeqNo h') a =
        (if broken now n hop a then map_option rt_seqNo (route_of (aged now n) a) else None))
    \<and> (\<forall>p. p \<in> set ps \<longleftrightarrow> (\<exists>a. broken now n hop a \<and> p \<in> precursors_of E now n a))
    \<and> (\<forall>a. a \<in> fst ` set (map_insert hop (rt_seqNo toHop) us) \<longleftrightarrow> broken now n hop a)"
proof -
  obtain m us where us: "destinations_via now hop (aged now n) = (m, us)" and m: "same_routes now n m"
    and frame: "\<exists>t. m = n\<lparr>m_routingTable := t\<rparr>"
    and list: "map_of us a = Option.bind (route_of (aged now n) a) (\<lambda>rt. if GetNextHop rt = hop then Some (rt_seqNo rt) else None)"
    and lost: "insert hop (fst ` set us) = {a. broken now n hop a}" for a
    using hop_destinations [OF wf, of now hop] Some by (metis option.distinct(1))
  obtain h where h: "rerr_add hop (rt_seqNo toHop) RerrHeader_new = Some h" "RerrHeader_wf h"
    "listed h = {hop}" "map_of (m_unreachableDstSeqNo h) = [hop \<mapsto> rt_seqNo toHop]"
    by (rule rerr_first)
  have "card (listed h \<union> fst ` set us) \<le> 255" using few lost by (simp add: h(3))
  from collect_spec [OF routes.ok_after [OF m] h(2) this, of E now "GetPrecursors toHop []"] obtain h' ps n1 where
    c: "collect_unreachable E now us h (GetPrecursors toHop []) m = Some (h', ps, n1)" "same_routes now m n1" "RerrHeader_wf h'"
      "\<exists>t. n1 = m\<lparr>m_routingTable := t\<rparr>" "map_of (m_unreachableDstSeqNo h') = map_of us ++ [hop \<mapsto> rt_seqNo toHop]"
      "set ps = set (rt_precursorList toHop) \<union> (\<Union>a\<in>fst ` set us. precursors_of E now m a)"
    unfolding h(4) by (auto simp: set_GetPrecursors)
  have same: "same_routes now n n1" by (rule routes.trans [OF m c(2)])
  have keys: "a \<in> fst ` set us \<longleftrightarrow> (\<exists>rt. route_of (aged now n) a = Some rt \<and> GetNextHop rt = hop)" for a
    unfolding keys_map_of list by (cases "route_of (aged now n) a") auto
  have invalid: "a \<in> fst ` set (map_insert hop (rt_seqNo toHop) us) \<longleftrightarrow> broken now n hop a" for a
    using Some by (auto simp: keys_map_insert keys broken_def)
  have mem: "p \<in> set ps \<longleftrightarrow> (\<exists>a. broken now n hop a \<and> p \<in> precursors_of E now n a)" for p
  proof -
    have "precursors_of E now m a = precursors_of E now n a" for a using m by (simp add: precursors_of_def same_routes_def)
    moreover have "precursors_of E now n hop = set (rt_precursorList toHop)"
      using Some by (simp add: precursors_of_def entry_or_default_def found_def)
    ultimately show ?thesis unfolding c(6) Un_iff UN_iff Bex_def keys broken_def using Some by auto
  qed
  have "map_of (m_unreachableDstSeqNo h') a =
      (if broken now n hop a then map_option rt_seqNo (route_of (aged now n) a) else None)" for a
    unfolding c(5) using Some by (cases "route_of (aged now n) a") (auto simp: map_add_def list broken_def)
  moreover have "\<exists>t. n1 = n\<lparr>m_routingTable := t\<rparr>" using c(4) frame by auto
  ultimately show ?thesis using h(1) us c(1,3) same mem invalid by blast
qed

lemma broken_few:
  assumes "RoutingTable_wf (m_routingTable n)"
  shows "card {a. broken now n hop a} \<le> Suc (length (snd (destinations_via now hop n)))"
proof -
  obtain us where us: "destinations_via now hop n = (aged now n, us)"
    using destinations_via_eq [of now hop n] by (metis prod.collapse)
  have "{a. broken now n hop a} \<subseteq> insert hop (fst ` set us)"
    using destinations_via_map(3) [OF assms us] by (force simp: broken_def keys_map_of)
  then have "card {a. broken now n hop a} \<le> card (insert hop (fst ` set us))" by (intro card_mono) simp_all
  also have "\<dots> \<le> Suc (card (fst ` set us))" by (simp add: card_insert_if)
  also have "\<dots> \<le> Suc (length us)" using card_image_le [of "set us" fst] card_length [of us] by simp
  finally show ?thesis by (simp add: us)
qed

lemma link_break_handled:
  assumes "node_wf n" and "m_rerrRateLimitTimer n \<noteq> None" and "sockets_for_routes now n"
    and "bad = m_badLinkLifetime (m_routingTable n)" and "card {a. broken now n hop a} \<le> 255"
  shows "\<exists>n' h es. SendRerrWhenBreaksLinkToNextHop E now hop n = Some n' \<and> out n' = out n @ es
    \<and> (\<forall>a. route_of n' a =
        map_option (if broken now n hop a then given_up (bad + now) else id) (route_of (aged now n) a))
    \<and> (\<forall>a. map_of (m_unreachableDstSeqNo h) a =
        (if broken now n hop a then map_option rt_seqNo (route_of (aged now n) a) else None))
    \<and> notices now n (told E now n (broken now n hop)) h es"
proof (cases "route_of (aged now n) hop")
  case None
  then have "SendRerrWhenBreaksLinkToNextHop E now hop n = Some (aged now n)"
    by (simp add: SendRerrWhenBreaksLinkToNextHop_def lookup_route_eq)
  moreover have "\<not> broken now n hop a" for a using None by (simp add: broken_def)
  moreover have "notices now n (told E now n (broken now n hop)) RerrHeader_new []"
    using \<open>\<And>a. \<not> broken now n hop a\<close> by (auto simp: notices_def told_def intro: exI [of _ "[]"])
  ultimately show ?thesis
    by (intro exI [of _ "aged now n"] exI [of _ RerrHeader_new] exI [of _ "[]"]) (simp add: option.map_id RerrHeader_new_def)
next
  case (Some toHop)
  note wf = node_wf_parts(1) [OF assms(1)]
  from break_collected [OF wf Some assms(5), of E] obtain h m us h' ps n1 where
    c: "rerr_add hop (rt_seqNo toHop) RerrHeader_new = Some h" "destinations_via now hop (aged now n) = (m, us)"
      "collect_unreachable E now us h (GetPrecursors toHop []) m = Some (h', ps, n1)" "same_routes now n n1" "RerrHeader_wf h'"
      "\<exists>t. n1 = n\<lparr>m_routingTable := t\<rparr>" and listed: "\<forall>a. map_of (m_unreachableDstSeqNo h') a =
        (if broken now n hop a then map_option rt_seqNo (route_of (aged now n) a) else None)"
    and mem: "\<forall>p. p \<in> set ps \<longleftrightarrow> (\<exists>a. broken now n hop a \<and> p \<in> precursors_of E now n a)"
    and invalid: "\<And>a. a \<in> fst ` set (map_insert hop (rt_seqNo toHop) us) \<longleftrightarrow> broken now n hop a"
    by (elim exE conjE) (rule that, assumption+, (blast | assumption)+)
  have bad: "bad = m_badLinkLifetime (m_routingTable n1)" and routes: "route_of (aged now n1) = route_of (aged now n)"
    using c(4) assms(4) by (simp_all add: same_routes_def)
  have n1: "m_rerrRateLimitTimer n1 = m_rerrRateLimitTimer n" "m_socketAddresses n1 = m_socketAddresses n"
    "out n1 = out n" "m_rerrCount n1 = m_rerrCount n" "par n1 = par n" using c(6) by auto
  have "m_unreachableDstSeqNo h' \<noteq> []" using listed Some by (auto simp: broken_def dest!: spec [of _ hop])
  then have some: "m_unreachableDstSeqNo h' = [] \<Longrightarrow> ps = []" by blast
  have ps: "distinct ps" "set ps = told E now n (broken now n hop)"
    using collect_distinct [OF c(3)] mem by (auto simp: told_def distinct_GetPrecursors)
  have timer: "m_rerrRateLimitTimer n1 \<noteq> None" using n1(1) assms(2) by simp
  from report_and_invalidate [OF routes.ok_after [OF c(4)] timer sockets_same [OF c(4) n1(2) assms(3)] c(5) bad ps(1) some,
      of "map_insert hop (rt_seqNo toHop) us"]
  obtain n2 n' es where r: "(if RerrHeader_GetDestCount h' \<noteq> 0 then SendRerrMessage now h' ps n1 else Some n1) = Some n2"
    "n' = invalidate_routes now (map_insert hop (rt_seqNo toHop) us) n2" "out n' = out n @ es"
    "notices now n (set ps) h' es"
    "\<forall>a. route_of n' a = map_option (if broken now n hop a then given_up (bad + now) else id) (route_of (aged now n) a)"
    unfolding n1 routes notices_frame [OF n1(2,4,5) routes] invalid by blast
  have "SendRerrWhenBreaksLinkToNextHop E now hop n = Some n'"
    using Some c(1-3) r(1,2) by (simp add: SendRerrWhenBreaksLinkToNextHop_def lookup_route_eq)
  then show ?thesis
    using r(3-5) listed unfolding ps(2) by (intro exI [of _ n'] exI [of _ h'] exI [of _ es]) simp
qed

lemma told_nobody:
  "(\<forall>p rt. p \<in> told E now n gone \<longrightarrow> route_of (aged now n) p = Some rt \<longrightarrow> rt_flag rt \<noteq> VALID) \<longleftrightarrow>
   (\<forall>a p rt. gone a \<longrightarrow> p \<in> precursors_of E now n a \<longrightarrow> route_of (aged now n) p = Some rt \<longrightarrow> rt_flag rt \<noteq> VALID)"
  by (auto simp: told_def)

lemma link_break_sent:
  assumes "node_wf n" and "m_rerrRateLimitTimer n \<noteq> None" and "sockets_for_routes now n"
    and "bad = m_badLinkLifetime (m_routingTable n)" and "card {a. broken now n hop a} \<le> 255"
  shows "\<exists>n' es. SendRerrWhenBreaksLinkToNextHop E now hop n = Some n' \<and> out n' = out n @ es
    \<and> (\<forall>a. route_of n' a =
        map_option (if broken now n hop a then given_up (bad + now) else id) (route_of (aged now n) a))
    \<and> (\<forall>e\<in>set es. \<exists>s h b. e = SendTo s (Rerr h) b \<and> (\<forall>a. map_of (m_unreachableDstSeqNo h) a =
        (if broken now n hop a then map_option rt_seqNo (route_of (aged now n) a) else None)))
    \<and> (es = [] \<longleftrightarrow> m_rerrCount n = RerrRateLimit (par n) \<or>
        (\<forall>a p rt. broken now n hop a \<longrightarrow> p \<in> precursors_of E now n a \<longrightarrow>
           route_of (aged now n) p = Some rt \<longrightarrow> rt_flag rt \<noteq> VALID))"
proof -
  obtain n' h es where n': "SendRerrWhenBreaksLinkToNextHop E now hop n = Some n'" "out n' = out n @ es"
    "\<forall>a. route_of n' a =
        map_option (if broken now n hop a then given_up (bad + now) else id) (route_of (aged now n) a)"
    "\<forall>a. map_of (m_unreachableDstSeqNo h) a =
        (if broken now n hop a then map_option rt_seqNo (route_of (aged now n) a) else None)"
    "notices now n (told E now n (broken now n hop)) h es"
    using link_break_handled [OF assms] by blast
  show ?thesis
    using n'(1-3) notices_none [OF n'(5), unfolded told_nobody]
    by (intro exI [of _ n'] exI [of _ es]) (use notices_sent [OF n'(5)] n'(4) in blast)
qed

text \<open>C18: A broken link. When the link to a neighbour that has an entry in the table breaks, exactly the valid routes
  through it, and the one to it, become invalid for the bad link lifetime, every other route stays, and no
  valid route leads through it any more; route errors are sent, each listing exactly these destinations with
  the table's own sequence numbers, unless the limit is reached or no precursor of a lost route has a valid
  route itself. Without an entry for the neighbour nothing is sent and no route through it is given up.\<close>

theorem link_break_reported:
  assumes "node_wf n" and "m_rerrRateLimitTimer n \<noteq> None" and "sockets_for_routes now n"
    and "bad = m_badLinkLifetime (m_routingTable n)" and "card {a. broken now n hop a} \<le> 255"
  shows "\<exists>n' es. SendRerrWhenBreaksLinkToNextHop E now hop n = Some n' \<and> out n' = out n @ es
    \<and> (\<forall>a. route_of n' a =
        map_option (if broken now n hop a then given_up (bad + now) else id) (route_of (aged now n) a))
    \<and> (\<forall>e\<in>set es. \<exists>s h b. e = SendTo s (Rerr h) b \<and> (\<forall>a. map_of (m_unreachableDstSeqNo h) a =
        (if broken now n hop a then map_option rt_seqNo (route_of (aged now n) a) else None)))
    \<and> (es = [] \<longleftrightarrow> m_rerrCount n = RerrRateLimit (par n) \<or>
        (\<forall>a p rt. broken now n hop a \<longrightarrow> p \<in> precursors_of E now n a \<longrightarrow>
           route_of (aged now n) p = Some rt \<longrightarrow> rt_flag rt \<noteq> VALID))"
  using link_break_sent [OF assms] by blast

theorem link_break_reported_witness:
  "\<exists>n' e es. SendRerrWhenBreaksLinkToNextHop test_env 0 4 middle_node = Some n' \<and> out n' = out middle_node @ e # es
     \<and> map_option rt_flag (route_of n' 5) = Some INVALID \<and> map_option rt_flag (route_of n' 6) = Some VALID"
proof -
  have "length (snd (destinations_via 0 4 middle_node)) < 255" by code_simp
  then have short: "card {a. broken 0 middle_node 4 a} \<le> 255"
    using broken_few [OF node_wf_parts(1) [OF middle_node_facts(1)], of 0 4] by simp
  have four: "route_of (aged 0 middle_node) 4 \<noteq> None" by code_simp
  have broken: "broken 0 middle_node 4 5" "\<not> broken 0 middle_node 4 6"
    using four by (simp_all add: broken_def middle_node_facts(4,5) GetNextHop_def RoutingTableEntry_new_def)
  have p: "6 \<in> precursors_of test_env 0 middle_node 5"
    by (simp add: precursors_of_def middle_node_facts(4) entry_or_default_def found_def)
  have "m_rerrCount middle_node \<noteq> RerrRateLimit (par middle_node)" by code_simp
  with link_break_reported [OF middle_node_facts(1-3) refl short, of test_env] broken(1) p middle_node_facts(5)
  obtain n' es where "SendRerrWhenBreaksLinkToNextHop test_env 0 4 middle_node = Some n'" "out n' = out middle_node @ es" "es \<noteq> []"
    "\<forall>a. route_of n' a = map_option (if broken 0 middle_node 4 a then given_up (m_badLinkLifetime (m_routingTable middle_node) + 0) else id)
        (route_of (aged 0 middle_node) a)"
    by (metis new_entry(6))
  then show ?thesis
    using broken middle_node_facts(4,5) by (cases es) (auto simp: given_up_def)
qed

text \<open>C20: How many destinations a link may carry. When the link to a neighbour breaks, the handler gets through exactly if
  at most 255 destinations are lost with it, the neighbour included; with one more the assertion of
  \<open>AddUnDestination\<close> fails, since all of them go into one route error.\<close>

theorem link_break_limit:
  assumes "node_wf n" and "m_rerrRateLimitTimer n \<noteq> None" and "sockets_for_routes now n"
  shows "SendRerrWhenBreaksLinkToNextHop E now hop n = None \<longleftrightarrow> 255 < card {a. broken now n hop a}"
proof (cases "card {a. broken now n hop a} \<le> 255")
  case True
  with link_break_sent [OF assms refl True, of E] show ?thesis by auto
next
  case False
  note wf = node_wf_parts(1) [OF assms(1)]
  have "{a. broken now n hop a} \<noteq> {}" using False by force
  then have "route_of (aged now n) hop \<noteq> None" by (auto simp: broken_def)
  then obtain toHop where Some: "route_of (aged now n) hop = Some toHop" by blast
  from hop_destinations [OF wf, of now hop] obtain m us where us: "destinations_via now hop (aged now n) = (m, us)"
    "route_of (aged now n) hop \<noteq> None \<longrightarrow> insert hop (fst ` set us) = {a. broken now n hop a}"
    by (elim exE conjE) (rule that)
  obtain h where h: "rerr_add hop (rt_seqNo toHop) RerrHeader_new = Some h" "RerrHeader_wf h" "listed h = {hop}"
    by (rule rerr_first)
  have "listed h \<union> fst ` set us = {a. broken now n hop a}" using us(2) Some unfolding h(3) by simp
  then have "collect_unreachable E now us h ps m = None" for ps using collect_fails [OF h(2), of us] False by simp
  then have "SendRerrWhenBreaksLinkToNextHop E now hop n = None"
    using Some h(1) us(1) by (simp add: SendRerrWhenBreaksLinkToNextHop_def lookup_route_eq)
  with False show ?thesis by simp
qed

text \<open>A node whose 300 routes all lead through one neighbour.\<close>

definition crowded_node :: node where
  "crowded_node = idle_node\<lparr>m_rerrRateLimitTimer := Some 1, m_routingTable := \<lparr>m_ipv4AddressEntry =
     map (\<lambda>a. (a, RoutingTableEntry_new 0 1 a True 3 test_iface 1 4 20)) (map of_nat [1..<301]), m_badLinkLifetime = 15\<rparr>\<rparr>"

theorem link_break_limit_witness:
  "SendRerrWhenBreaksLinkToNextHop test_env 0 4 crowded_node = None \<and> node_wf crowded_node"
proof -
  let ?ks = "map of_nat [1..<301] :: ipv4addr list" and ?e = "\<lambda>a. RoutingTableEntry_new 0 1 a True 3 test_iface 1 4 20"
  have small: "of_nat i < (of_nat j :: ipv4addr) \<longleftrightarrow> i < j" if "i < 301" "j < 301" for i j
    using that by (simp add: word_less_nat_alt unat_small)
  have "sorted_wrt (<) ?ks"
    unfolding sorted_wrt_map by (rule sorted_wrt_mono_rel [OF _ sorted_wrt_upt]) (use small in auto)
  then have wf: "RoutingTable_wf (m_routingTable crowded_node)"
    by (auto simp: crowded_node_def RoutingTable_wf_def map_ok_def comp_def)
  then have ok: "node_wf crowded_node" "m_rerrRateLimitTimer crowded_node \<noteq> None"
    using idle_node_facts(1) by (simp_all add: crowded_node_def node_wf_def)
  have "route_of crowded_node a = (if a \<in> set ?ks then Some (?e a) else None)" for a
    by (simp add: crowded_node_def route_of_def table_map_def map_of_map_restrict del: map_map set_map)
  then have routes: "route_of (aged 0 crowded_node) a = (if a \<in> set ?ks then Some (?e a) else None)" for a
    by (simp add: route_of_aged [OF wf] age_entry_def GetLifeTime_def)
  have "FindSocketWithInterfaceAddress test_iface crowded_node \<noteq> None"
    by (simp add: FindSocketWithInterfaceAddress_def crowded_node_def idle_node_facts)
  then have sockets: "sockets_for_routes 0 crowded_node"
    unfolding sockets_for_routes_def routes by (auto split: if_splits)
  have "4 \<in> set ?ks" unfolding set_map by (rule image_eqI [of _ _ 4]) simp_all
  then have "{a. broken 0 crowded_node 4 a} = set ?ks" by (auto simp: broken_def routes)
  moreover have "card (set ?ks) = 300"
  proof -
    have "inj_on (of_nat :: nat \<Rightarrow> ipv4addr) {1..<301}" by (rule inj_onI) (metis small atLeastLessThan_iff linorder_neqE_nat order_less_irrefl)
    then show ?thesis by (simp add: card_image)
  qed
  ultimately show ?thesis using link_break_limit [OF ok sockets, of test_env 4] ok(1) by simp
qed

end
