(* ===== verification/Reply_Forwarding.thy ===== *)
theory Reply_Forwarding
  imports Route_Errors
begin

text \<open>
  A reply on its way: what a node that is neither end of the discovery does with a RREP, the second half of
  \<open>RecvReply\<close> of \<open>model/aodv-routing-protocol.cc\<close>. The chain of lookups and updates there is followed on a
  table that was purged at this instant, so that the later purges leave it as it is.
\<close>

section \<open>Tables just purged\<close>

definition stable :: "time \<Rightarrow> node \<Rightarrow> bool" where
  "stable now n \<longleftrightarrow> RoutingTable_wf (m_routingTable n)
     \<and> (\<forall>a rt. route_of n a = Some rt \<longrightarrow> rt_flag rt \<noteq> IN_SEARCH \<longrightarrow> 0 \<le> GetLifeTime now rt)"

lemma stable_aged:
  assumes "stable now n"
  shows "route_of (aged now n) = route_of n"
proof
  fix a
  show "route_of (aged now n) a = route_of n a"
  proof (cases "route_of n a")
    case (Some rt)
    with assms have "rt_flag rt \<noteq> IN_SEARCH \<longrightarrow> \<not> GetLifeTime now rt < 0" by (force simp: stable_def)
    with assms Some show ?thesis by (auto simp: stable_def route_of_aged age_entry_def split: RouteFlags.split)
  qed (use assms in \<open>simp add: stable_def route_of_aged\<close>)
qed

lemma aged_stable:
  assumes "RoutingTable_wf (m_routingTable n)"
  shows "stable now (aged now n)"
proof -
  have "0 \<le> m_badLinkLifetime (m_routingTable n)" using assms by (simp add: RoutingTable_wf_def)
  then show ?thesis using aged_wf [OF assms]
    by (auto simp: stable_def route_of_aged [OF assms] age_entry_def Invalidate_def GetLifeTime_def
        split: Option.bind_splits if_splits RouteFlags.splits)
qed

lemma stable_frame: "stable now n \<Longrightarrow> stable now (aged now n)"
  using stable_aged [of now n] by (simp add: stable_def aged_wf)

lemma update_stable:
  assumes "stable now n" "route_of n (GetDestinationOf e) \<noteq> None" "rt_flag e \<noteq> IN_SEARCH \<longrightarrow> 0 \<le> GetLifeTime now e"
  shows "stable now (update_route e n)" "route_of (update_route e n) = (route_of n)(GetDestinationOf e \<mapsto> reset_rreq e)"
proof -
  have wf: "RoutingTable_wf (m_routingTable n)" using assms(1) by (simp add: stable_def)
  show r: "route_of (update_route e n) = (route_of n)(GetDestinationOf e \<mapsto> reset_rreq e)"
    using route_of_update [OF wf, of e] assms(2) by auto
  have "RoutingTable_wf (m_routingTable (update_route e n))"
    using wf by (simp add: update_route_def RoutingTable_wf_Update)
  then show "stable now (update_route e n)"
    using assms(1,3) by (auto simp: stable_def r reset_rreq_def GetLifeTime_def)
qed

text \<open>An entry with one more precursor.\<close>

abbreviation with_precursor :: "ipv4addr \<Rightarrow> RoutingTableEntry \<Rightarrow> RoutingTableEntry" where
  "with_precursor p rt \<equiv> snd (InsertPrecursor p rt)"

lemma with_precursor [simp]:
  "GetDestinationOf (with_precursor p rt) = GetDestinationOf rt" "GetNextHop (with_precursor p rt) = GetNextHop rt"
  "rt_flag (with_precursor p rt) = rt_flag rt" "GetLifeTime now (with_precursor p rt) = GetLifeTime now rt"
  "rt_iface (with_precursor p rt) = rt_iface rt"
  "set (rt_precursorList (with_precursor p rt)) = insert p (set (rt_precursorList rt))"
  by (auto simp: InsertPrecursor_def LookupPrecursor_def GetDestinationOf_def GetNextHop_def GetLifeTime_def)

lemma reset_rreq_fields [simp]:
  "rt_flag (reset_rreq rt) = rt_flag rt" "rt_precursorList (reset_rreq rt) = rt_precursorList rt"
  "GetNextHop (reset_rreq rt) = GetNextHop rt" "GetLifeTime now (reset_rreq rt) = GetLifeTime now rt"
  by (simp_all add: reset_rreq_def GetNextHop_def GetLifeTime_def)

lemma add_precursor_stable:
  assumes "stable now n" "route_of n a = Some rt"
  shows "stable now (add_precursor E now a p n)"
    and "route_of (add_precursor E now a p n) = (route_of n)(a \<mapsto> reset_rreq (with_precursor p rt))"
    and "out (add_precursor E now a p n) = out n"
    and "m_socketAddresses (add_precursor E now a p n) = m_socketAddresses n"
proof -
  have key: "GetDestinationOf rt = a" using assms by (auto simp: stable_def dest: route_key)
  have add: "add_precursor E now a p n = update_route (with_precursor p rt) (aged now n)"
    using stable_aged [OF assms(1)] assms(2)
    by (simp add: add_precursor_def lookup_route_eq entry_or_default_def found_def)
  have live: "rt_flag rt \<noteq> IN_SEARCH \<longrightarrow> 0 \<le> GetLifeTime now rt" using assms by (auto simp: stable_def)
  note up = update_stable [OF stable_frame [OF assms(1)], of "with_precursor p rt"]
  show "stable now (add_precursor E now a p n)"
    "route_of (add_precursor E now a p n) = (route_of n)(a \<mapsto> reset_rreq (with_precursor p rt))"
    using up stable_aged [OF assms(1)] key live assms(2) unfolding add by simp_all
  show "out (add_precursor E now a p n) = out n" "m_socketAddresses (add_precursor E now a p n) = m_socketAddresses n"
    unfolding add by simp_all
qed

section \<open>The reply goes on\<close>

text \<open>What of a route does not depend on its precursors and its request count.\<close>

definition core :: "RoutingTableEntry \<Rightarrow> RoutingTableEntry" where
  "core rt = rt\<lparr>rt_precursorList := [], rt_reqCount := 0\<rparr>"

lemma core [simp]: "core (with_precursor p rt) = core rt" "core (reset_rreq rt) = core rt"
  by (simp_all add: core_def InsertPrecursor_def reset_rreq_def)

lemma core_eqD:
  assumes "core rt = core rt'"
  shows "rt_flag rt = rt_flag rt'" "rt_seqNo rt = rt_seqNo rt'" "rt_hops rt = rt_hops rt'" "GetNextHop rt = GetNextHop rt'"
  using arg_cong [OF assms, of rt_flag] arg_cong [OF assms, of rt_seqNo] arg_cong [OF assms, of rt_hops]
    arg_cong [OF assms, of rt_route]
  by (simp_all add: core_def GetNextHop_def)

text \<open>The four precursors of a reply that is passed on over valid routes.\<close>

definition precursors_linked :: "(ipv4addr \<Rightarrow> RoutingTableEntry option) \<Rightarrow> ipv4addr \<Rightarrow> ipv4addr \<Rightarrow> ipv4addr \<Rightarrow> ipv4addr \<Rightarrow> bool" where
  "precursors_linked r dst toDst origin toOrigin \<longleftrightarrow>
     (\<forall>rt. r dst = Some rt \<longrightarrow> toOrigin \<in> set (rt_precursorList rt))
     \<and> (\<forall>rt. r origin = Some rt \<longrightarrow> toDst \<in> set (rt_precursorList rt))
     \<and> (\<forall>rt. r toOrigin = Some rt \<longrightarrow> toDst \<in> set (rt_precursorList rt))
     \<and> (toDst \<noteq> origin \<longrightarrow> (\<forall>rt. r toDst = Some rt \<longrightarrow> toOrigin \<in> set (rt_precursorList rt)))"

text \<open>The updates of the precursors, from the table in which the route to the originator was prolonged.\<close>

lemma precursor_updates:
  assumes "stable now n" "route_of n dst = Some d" "route_of n org = Some ro" "dst \<noteq> org"
    and "GetDestinationOf rto = org" "rt_flag rto \<noteq> IN_SEARCH" "0 \<le> GetLifeTime now rto" "core ro = core rto"
    and "rt_flag d \<noteq> IN_SEARCH"
    and "route_of n (GetNextHop d) \<noteq> None" "route_of n (GetNextHop rto) \<noteq> None"
    and "n1 = update_route (with_precursor (GetNextHop rto) d) n"
    and "n2 = add_precursor E now (GetNextHop d) (GetNextHop rto) n1"
    and "n3 = update_route (with_precursor (GetNextHop d) rto) n2"
    and "n4 = add_precursor E now (GetNextHop rto) (GetNextHop d) n3"
  shows "stable now n4" "out n4 = out n" "m_socketAddresses n4 = m_socketAddresses n"
    and "map_option core (route_of n4 a) = map_option core (route_of n a)"
    and "precursors_linked (route_of n4) dst (GetNextHop d) org (GetNextHop rto)"
proof -
  have key: "GetDestinationOf d = dst" and live: "0 \<le> GetLifeTime now d"
    using assms(1,2,9) by (auto simp: stable_def dest: route_key)
  have u1: "stable now n1" "route_of n1 = (route_of n)(dst \<mapsto> reset_rreq (with_precursor (GetNextHop rto) d))"
    using update_stable [OF assms(1), of "with_precursor (GetNextHop rto) d"] assms(2) key live
    by (simp_all add: assms(12))
  have "route_of n1 (GetNextHop d) \<noteq> None" using assms(10) by (simp add: u1(2))
  then obtain e1 where e1: "route_of n1 (GetNextHop d) = Some e1" by blast
  note u2 = add_precursor_stable [OF u1(1) e1, of E "GetNextHop rto", folded assms(13)]
  have "route_of n2 org \<noteq> None" using u2(2) u1(2) assms(3) by simp
  then have u3: "stable now n3" "route_of n3 = (route_of n2)(org \<mapsto> reset_rreq (with_precursor (GetNextHop d) rto))"
    using update_stable [OF u2(1), of "with_precursor (GetNextHop d) rto"] assms(5-7) by (simp_all add: assms(14))
  have "route_of n3 (GetNextHop rto) \<noteq> None" using assms(11) by (simp add: u3(2) u2(2) u1(2))
  then obtain e3 where e3: "route_of n3 (GetNextHop rto) = Some e3" by blast
  note u4 = add_precursor_stable [OF u3(1) e3, of E "GetNextHop d", folded assms(15)]
  show "stable now n4" by (rule u4(1))
  show "out n4 = out n" "m_socketAddresses n4 = m_socketAddresses n"
    using u4(3,4) u2(3,4) by (simp_all add: assms(12,14))
  have 1: "map_option core (route_of n1 a) = map_option core (route_of n a)" for a
    using assms(2) by (simp add: u1(2))
  have 2: "map_option core (route_of n2 a) = map_option core (route_of n1 a)" for a
    using e1 by (simp add: u2(2))
  have 3: "map_option core (route_of n3 a) = map_option core (route_of n2 a)" for a
    using 1 2 assms(3,8) by (simp add: u3(2))
  show "map_option core (route_of n4 a) = map_option core (route_of n a)"
  proof -
    have "map_option core (route_of n4 a) = map_option core (route_of n3 a)" using e3 by (simp add: u4(2))
    with 1 2 3 show ?thesis by simp
  qed
  show "precursors_linked (route_of n4) dst (GetNextHop d) org (GetNextHop rto)"
    using assms(4) e1 e3 unfolding precursors_linked_def u4(2) u3(2) u2(2) u1(2)
    by (auto split: if_splits)
qed

text \<open>The route to the originator is prolonged.\<close>

definition prolonged :: "time \<Rightarrow> node \<Rightarrow> RoutingTableEntry \<Rightarrow> RoutingTableEntry" where
  "prolonged now n rt = SetLifeTime now (max (ActiveRouteTimeout (par n)) (GetLifeTime now rt)) rt"

lemma forward_reply_spec:
  assumes "stable now n" "route_of n (rrep_origin h) = Some ro" "rt_flag ro \<noteq> IN_SEARCH"
    and "FindSocketWithInterfaceAddress (rt_iface ro) n = Some s" "rrep_dst h \<noteq> rrep_origin h"
    and "route_of n (GetNextHop ro) \<noteq> None"
    and "\<And>d. route_of n (rrep_dst h) = Some d \<Longrightarrow> route_of n (GetNextHop d) \<noteq> None"
  shows "\<exists>n'. forward_reply E now h n = Some n' \<and> out n' = out n @ [SendTo s (Rrep h) (GetNextHop ro)]
    \<and> (\<forall>a. map_option core (route_of n' a) = map_option core (((route_of n)(rrep_origin h \<mapsto> prolonged now n ro)) a))
    \<and> (\<forall>d. route_of n (rrep_dst h) = Some d \<longrightarrow> rt_flag d = VALID \<longrightarrow>
         precursors_linked (route_of n') (rrep_dst h) (GetNextHop d) (rrep_origin h) (GetNextHop ro))"
proof -
  let ?rto = "prolonged now n ro"
  have r: "GetDestinationOf ?rto = rrep_origin h" "rt_flag ?rto = rt_flag ro" "GetNextHop ?rto = GetNextHop ro"
    "rt_iface ?rto = rt_iface ro"
    using assms(1,2) by (auto simp: prolonged_def SetLifeTime_def GetNextHop_def GetDestinationOf_def stable_def dest: route_key)
  have live: "0 \<le> GetLifeTime now ro" using assms(1-3) by (auto simp: stable_def)
  then have "0 \<le> GetLifeTime now ?rto" by (simp add: prolonged_def SetLifeTime_def GetLifeTime_def)
  note r = r this
  define m where "m = update_route ?rto (aged now n)"
  have m: "stable now m" "route_of m = (route_of n)(rrep_origin h \<mapsto> reset_rreq ?rto)"
    using update_stable [OF stable_frame [OF assms(1)], of ?rto] assms(2) r stable_aged [OF assms(1)] by (simp_all add: m_def)
  have frame: "out m = out n" "m_socketAddresses m = m_socketAddresses n" "route_of (aged now m) = route_of m"
    using stable_aged [OF m(1)] by (simp_all add: m_def)
  show ?thesis
  proof (cases "\<exists>d. route_of n (rrep_dst h) = Some d \<and> rt_flag d = VALID")
    case False
    have "forward_reply E now h n = send_on (rt_iface ro) (Rrep h) (GetNextHop ro) (aged now m)"
      using assms(2,3) False r m(2) frame(3) assms(5) unfolding forward_reply_def prolonged_def m_def
      by (auto simp: lookup_route_eq lookup_valid_route_eq stable_aged [OF assms(1)] Let_def split: option.splits)
    moreover have "FindSocketWithInterfaceAddress (rt_iface ro) (aged now m) = Some s"
      using assms(4) find_socket_frame [of "aged now m" n] frame by simp
    ultimately show ?thesis using False frame m(2)
      by (intro exI [of _ "emit (SendTo s (Rrep h) (GetNextHop ro)) (aged now m)"])
        (simp add: send_on_found, simp add: emit_def)
  next
    case True
    then obtain d where d: "route_of n (rrep_dst h) = Some d" "rt_flag d = VALID" by blast
    define n1 where "n1 = update_route (with_precursor (GetNextHop ?rto) d) (aged now m)"
    define n2 where "n2 = add_precursor E now (GetNextHop d) (GetNextHop ?rto) n1"
    define n3 where "n3 = update_route (with_precursor (GetNextHop d) ?rto) n2"
    define n4 where "n4 = add_precursor E now (GetNextHop ?rto) (GetNextHop d) n3"
    have "stable now (aged now m)" "route_of (aged now m) (rrep_dst h) = Some d"
      "route_of (aged now m) (rrep_origin h) = Some (reset_rreq ?rto)" "core (reset_rreq ?rto) = core ?rto"
      "route_of (aged now m) (GetNextHop d) \<noteq> None" "route_of (aged now m) (GetNextHop ?rto) \<noteq> None"
      "rt_flag d \<noteq> IN_SEARCH" "rt_flag ?rto \<noteq> IN_SEARCH"
      using stable_frame [OF m(1)] assms d m(2) frame(3) r by auto
    note p = precursor_updates [OF this(1-3) assms(5) r(1) this(8) r(5) this(4) this(7) this(5,6)
        n1_def n2_def n3_def n4_def]
    have "forward_reply E now h n = send_on (rt_iface ro) (Rrep h) (GetNextHop ro) n4"
      using assms(2,3,5) d r m(2) frame(3) unfolding forward_reply_def n4_def n3_def n2_def n1_def
      by (simp add: lookup_route_eq lookup_valid_route_eq stable_aged [OF assms(1)] Let_def m_def prolonged_def)
    moreover have "FindSocketWithInterfaceAddress (rt_iface ro) n4 = Some s"
      using assms(4) find_socket_frame [of n4 n] frame p(3) by simp
    moreover define n' where "n' = emit (SendTo s (Rrep h) (GetNextHop ro)) n4"
    ultimately have run: "forward_reply E now h n = Some n'" by (simp add: send_on_found)
    have n': "route_of n' = route_of n4" "out n' = out n @ [SendTo s (Rrep h) (GetNextHop ro)]"
      using frame p(2) by (simp_all add: n'_def emit_def)
    have "map_option core (route_of n' a) = map_option core (((route_of n)(rrep_origin h \<mapsto> ?rto)) a)" for a
      unfolding n' p(4) frame(3) m(2) by simp
    moreover have "precursors_linked (route_of n') (rrep_dst h) (GetNextHop d) (rrep_origin h) (GetNextHop ro)"
      using p(5) n'(1) r(3) by simp
    ultimately show ?thesis using run n'(2) d(1) by auto
  qed
qed

text \<open>The entry for the destination after a reply, from the one before and the one the reply offers.\<close>

definition fresher :: "RrepHeader \<Rightarrow> RoutingTableEntry option \<Rightarrow> RoutingTableEntry \<Rightarrow> RoutingTableEntry" where
  "fresher h old new = (case old of None \<Rightarrow> new | Some rt \<Rightarrow>
     if \<not> rt_validSeqNo rt \<or> seqno_diff (rrep_dstSeqNo h) (rt_seqNo rt) > 0
        \<or> rrep_dstSeqNo h = rt_seqNo rt \<and> (rt_flag rt \<noteq> VALID \<or> ucast (rrep_hopCount h) < rt_hops rt)
     then new else rt)"

lemma reply_installed:
  assumes "RoutingTable_wf (m_routingTable n)" "0 \<le> lt"
    and "new = RoutingTableEntry_new now dev (rrep_dst h) True (rrep_dstSeqNo h) i (ucast (rrep_hopCount h)) sender lt"
    and "n1 = fst (install_reply now new h n)"
  shows "stable now n1" "route_of n1 = (route_of (aged now n))(rrep_dst h \<mapsto> fresher h (route_of (aged now n) (rrep_dst h)) new)"
    and "out n1 = out n" "m_socketAddresses n1 = m_socketAddresses n" "par n1 = par n"
proof -
  show r: "route_of n1 = (route_of (aged now n))(rrep_dst h \<mapsto> fresher h (route_of (aged now n) (rrep_dst h)) new)"
    unfolding assms(4) install_reply_route(2) [OF assms(1,3)] fresher_def by (rule refl)
  have "RoutingTable_wf (m_routingTable n1)" unfolding assms(4) by (rule install_wf [OF assms(1)])
  moreover have "0 \<le> GetLifeTime now new" using assms(2,3) by (simp add: GetLifeTime_def)
  ultimately show "stable now n1"
    using aged_stable [OF assms(1), of now] unfolding stable_def r
    by (auto simp: fresher_def split: option.splits if_splits)
  show "out n1 = out n" "m_socketAddresses n1 = m_socketAddresses n" by (simp_all add: assms(4))
  show "par n1 = par n" by (auto simp: assms(4) install_reply_def lookup_route_eq split: option.splits)
qed

text \<open>C16: A reply on its way. A node that is neither end of the discovery, and has a route to the originator that is
  not being searched, passes a RREP on with one more hop to the next hop of that route, and sends nothing else.
  Up to precursors and request counts the table changes in two places only: the destination's entry becomes
  the fresher of the one it had and the reply's, and the originator's route lives at least another active
  route timeout. If the destination's route is valid then, the next hops on both sides become precursors of
  each other's routes, as they become of the two ends'; one of the four is lost when the destination is
  reached through the originator.\<close>

theorem reply_forwarded:
  assumes "RoutingTable_wf (m_routingTable n)" and "rrep_dst h \<noteq> rrep_origin h" and "\<not> IsMyOwnAddress n (rrep_origin h)"
    and "\<not> RrepHeader_GetAckRequired h" and "0 \<le> RrepHeader_GetLifeTime (unit_of_time E) h"
    and "route_of (aged now n) (rrep_origin h) = Some toOrigin" and "rt_flag toOrigin \<noteq> IN_SEARCH"
    and "FindSocketWithInterfaceAddress (rt_iface toOrigin) n = Some s"
    and "route_of (aged now n) sender \<noteq> None" and "route_of (aged now n) (GetNextHop toOrigin) \<noteq> None"
    and "\<forall>d. route_of (aged now n) (rrep_dst h) = Some d \<longrightarrow> route_of (aged now n) (GetNextHop d) \<noteq> None"
    and "h' = h\<lparr>rrep_hopCount := rrep_hopCount h + 1\<rparr>"
    and "newEntry = RoutingTableEntry_new now (device_of E receiver) (rrep_dst h) True (rrep_dstSeqNo h)
      (iface_of E receiver) (ucast (rrep_hopCount h')) sender (RrepHeader_GetLifeTime (unit_of_time E) h)"
    and "toDst = fresher h' (route_of (aged now n) (rrep_dst h)) newEntry"
  shows "\<exists>n'. handle_reply E now h receiver sender n = Some n'
    \<and> out n' = out n @ [SendTo s (Rrep h') (GetNextHop toOrigin)]
    \<and> (\<forall>a. map_option core (route_of n' a) = map_option core
        (((route_of (aged now n))(rrep_dst h \<mapsto> toDst, rrep_origin h \<mapsto> prolonged now n toOrigin)) a))
    \<and> (rt_flag toDst = VALID \<longrightarrow>
         precursors_linked (route_of n') (rrep_dst h) (GetNextHop toDst) (rrep_origin h) (GetNextHop toOrigin))"
proof -
  have h': "rrep_dst h' = rrep_dst h" "rrep_origin h' = rrep_origin h" "rrep_dstSeqNo h' = rrep_dstSeqNo h"
    "RrepHeader_GetLifeTime (unit_of_time E) h' = RrepHeader_GetLifeTime (unit_of_time E) h"
    "RrepHeader_GetAckRequired h' = RrepHeader_GetAckRequired h"
    by (simp_all add: assms(12) RrepHeader_GetLifeTime_def RrepHeader_GetAckRequired_def)
  obtain n1 r where i: "install_reply now newEntry h' n = (n1, r)" by fastforce
  then have n1: "n1 = fst (install_reply now newEntry h' n)" by simp
  note inst = reply_installed [OF assms(1,5) assms(13) [folded h'(1,3)] n1, unfolded h', folded assms(14)]
  have own: "\<not> IsMyOwnAddress n1 (rrep_origin h)" using assms(3) inst(4) by (simp add: IsMyOwnAddress_def)
  have run: "handle_reply E now h receiver sender n = forward_reply E now h' n1"
    using assms(2,4) own i unfolding handle_reply_def Let_def
    by (simp add: assms(12,13) [symmetric] h')
  have origin: "route_of n1 (rrep_origin h') = Some toOrigin" "rrep_dst h' \<noteq> rrep_origin h'"
    using assms(2,6) by (simp_all add: inst(2) h')
  have sock: "FindSocketWithInterfaceAddress (rt_iface toOrigin) n1 = Some s"
    using assms(8) find_socket_frame [OF inst(4)] by simp
  have hop: "route_of n1 (GetNextHop toOrigin) \<noteq> None" using assms(10) by (simp add: inst(2))
  have "route_of (aged now n) (GetNextHop toDst) \<noteq> None"
    using assms(9,11) by (auto simp: assms(13,14) fresher_def split: option.split)
  then have next_hop: "route_of n1 (GetNextHop d) \<noteq> None" if "route_of n1 (rrep_dst h') = Some d" for d
    using that by (auto simp: inst(2) h')
  have "prolonged now n1 toOrigin = prolonged now n toOrigin" by (simp add: prolonged_def inst(5))
  with forward_reply_spec [OF inst(1) origin(1) assms(7) sock origin(2) hop next_hop, of E] show ?thesis
    unfolding run h' inst(2,3) by auto
qed

theorem reply_forwarded_witness:
  "\<exists>n' rt4. handle_reply test_env 0 \<lparr>rrep_flags = 0, rrep_prefixSize = 0, rrep_hopCount = 1, rrep_dst = 5,
       rrep_dstSeqNo = 8, rrep_origin = 6, rrep_lifeTime = 100\<rparr> 0x0a000001 4 middle_node = Some n'
     \<and> out n' = [SendTo 3 (Rrep \<lparr>rrep_flags = 0, rrep_prefixSize = 0, rrep_hopCount = 2, rrep_dst = 5,
         rrep_dstSeqNo = 8, rrep_origin = 6, rrep_lifeTime = 100\<rparr>) 6]
     \<and> map_option (\<lambda>rt. (rt_seqNo rt, rt_hops rt)) (route_of n' 5) = Some (8, 2)
     \<and> route_of n' 4 = Some rt4 \<and> 6 \<in> set (rt_precursorList rt4)"
proof -
  let ?h = "\<lparr>rrep_flags = 0, rrep_prefixSize = 0, rrep_hopCount = 1, rrep_dst = 5, rrep_dstSeqNo = 8, rrep_origin = 6,
    rrep_lifeTime = 100\<rparr> :: RrepHeader"
  let ?new = "RoutingTableEntry_new 0 (device_of test_env 0x0a000001) (rrep_dst ?h) True (rrep_dstSeqNo ?h)
    (iface_of test_env 0x0a000001) (ucast (rrep_hopCount (?h\<lparr>rrep_hopCount := rrep_hopCount ?h + 1\<rparr>))) 4
    (RrepHeader_GetLifeTime (unit_of_time test_env) ?h)"
  let ?to = "RoutingTableEntry_new 0 1 6 True 2 test_iface 1 6 20"
  note wf = node_wf_parts(1) [OF middle_node_facts(1)]
  have ends: "rrep_dst ?h \<noteq> rrep_origin ?h" by simp
  have here: "\<not> IsMyOwnAddress middle_node (rrep_origin ?h)" "\<not> RrepHeader_GetAckRequired ?h"
    "0 \<le> RrepHeader_GetLifeTime (unit_of_time test_env) ?h"
    "FindSocketWithInterfaceAddress (rt_iface ?to) middle_node = Some 3" "out middle_node = []"
    by code_simp+
  have to: "route_of (aged 0 middle_node) (rrep_origin ?h) = Some ?to" using middle_node_facts(5) by simp
  have four: "route_of (aged 0 middle_node) 4 \<noteq> None" by code_simp
  have hops: "route_of (aged 0 middle_node) (GetNextHop ?to) \<noteq> None"
    "\<forall>d. route_of (aged 0 middle_node) (rrep_dst ?h) = Some d \<longrightarrow> route_of (aged 0 middle_node) (GetNextHop d) \<noteq> None"
    using four middle_node_facts(4,5) by (simp_all add: GetNextHop_def RoutingTableEntry_new_def)
  have new: "fresher (?h\<lparr>rrep_hopCount := rrep_hopCount ?h + 1\<rparr>) (route_of (aged 0 middle_node) (rrep_dst ?h)) ?new = ?new"
    using middle_node_facts(4) by (simp add: fresher_def seqno_diff_def RoutingTableEntry_new_def)
  from reply_forwarded [OF wf ends here(1-3) to _ here(4) four hops refl refl new [symmetric]]
  obtain n' where n': "handle_reply test_env 0 ?h 0x0a000001 4 middle_node = Some n'"
    "out n' = [SendTo 3 (Rrep (?h\<lparr>rrep_hopCount := rrep_hopCount ?h + 1\<rparr>)) 6]"
    "\<forall>a. map_option core (route_of n' a) = map_option core
        (((route_of (aged 0 middle_node))(rrep_dst ?h \<mapsto> ?new, rrep_origin ?h \<mapsto> prolonged 0 middle_node ?to)) a)"
    "precursors_linked (route_of n') (rrep_dst ?h) 4 (rrep_origin ?h) 6"
    unfolding here(5) by auto
  have "map_option core (route_of n' 5) = Some (core ?new)" using n'(3) [rule_format, of 5] by simp
  then obtain rt5 where rt5: "route_of n' 5 = Some rt5" "core rt5 = core ?new" by auto
  note core_eqD(2,3) [OF rt5(2)]
  moreover have "route_of n' 4 \<noteq> None" using n'(3) [rule_format, of 4] four by auto
  ultimately show ?thesis using n'(1,2,4) rt5(1) by (auto simp: precursors_linked_def RoutingTableEntry_new_def)
qed

end
