(* ===== verification/Mesh_Relay.thy ===== *)
theory Mesh_Relay
  imports Mesh_Discovery Reply_Forwarding
begin

text \<open>
  A route discovery over two hops: the node that asks, its backbone node, which repeats the request and passes
  the reply on, and the destination behind it. No discovery gets further by requests alone, since a request is
  only repeated by a backbone node of its originator (\<open>request_rebroadcast_gate\<close>).
\<close>

section \<open>Hearing a neighbour\<close>

lemma stable_table: "m_routingTable n' = m_routingTable n \<Longrightarrow> stable now n' \<longleftrightarrow> stable now n"
  by (simp add: stable_def route_of_def)

lemma stable_wf: "stable now n \<Longrightarrow> RoutingTable_wf (m_routingTable n)"
  by (simp add: stable_def)

text \<open>The entry for the sender of a packet, once the route to it has been refreshed: the old one, or a new one
  without a sequence number.\<close>

definition neighbour_entry :: "RoutingTableEntry option \<Rightarrow> ipv4addr \<Rightarrow> Ipv4InterfaceAddress \<Rightarrow> RoutingTableEntry \<Rightarrow> bool" where
  "neighbour_entry old a i e \<longleftrightarrow> old = Some e
     \<or> GetDestinationOf e = a \<and> rt_flag e = VALID \<and> \<not> rt_validSeqNo e \<and> GetNextHop e = a \<and> rt_iface e = i
       \<and> \<not> rt_blackListState e"

lemma neighbour_entry_new:
  "neighbour_entry old a i (RoutingTableEntry_new now d a False 0 i hops a l)"
  by (simp add: neighbour_entry_def) (simp add: RoutingTableEntry_new_def)

lemma refresh_route:
  assumes "RoutingTable_wf (m_routingTable n)" "0 \<le> ActiveRouteTimeout (par n)"
    and "m = UpdateRouteToNeighbor E now sender receiver n"
  shows "stable now m" "\<exists>t. m = n\<lparr>m_routingTable := t\<rparr>"
    and "m_badLinkLifetime (m_routingTable m) = m_badLinkLifetime (m_routingTable n)"
    and "\<exists>e. route_of m = (route_of (aged now n))(sender \<mapsto> e) \<and> neighbour_entry (route_of (aged now n) sender) sender (iface_of E receiver) e"
proof -
  note wf = aged_wf [OF assms(1), of now] and st = aged_stable [OF assms(1), of now]
  let ?new = "\<lambda>l. RoutingTableEntry_new now (device_of E receiver) sender False 0 (iface_of E receiver) 1 sender l"
  show "\<exists>t. m = n\<lparr>m_routingTable := t\<rparr>"
    by (auto simp: assms(3) UpdateRouteToNeighbor_def lookup_route_eq aged_def add_route_def update_route_def Let_def
        split: option.split)
  show "m_badLinkLifetime (m_routingTable m) = m_badLinkLifetime (m_routingTable n)"
    by (simp add: assms(3) UpdateRouteToNeighbor_def lookup_route_eq aged_def add_route_def update_route_def split: option.split)
  have wfm: "RoutingTable_wf (m_routingTable m)" by (rule refresh_spec(1) [OF assms(1,3)])
  have "\<exists>e. route_of m = (route_of (aged now n))(sender \<mapsto> e) \<and> neighbour_entry (route_of (aged now n) sender) sender (iface_of E receiver) e
      \<and> (rt_flag e \<noteq> IN_SEARCH \<longrightarrow> 0 \<le> GetLifeTime now e)"
  proof (cases "route_of (aged now n) sender")
    case None
    then have "m = add_route now (?new (ActiveRouteTimeout (par n))) (aged now n)"
      by (simp add: assms(3) UpdateRouteToNeighbor_def lookup_route_eq)
    then have "route_of m = (route_of (aged now n))(sender \<mapsto> ?new (ActiveRouteTimeout (par n)))"
      using None route_of_add [OF assms(1), of now "?new (ActiveRouteTimeout (par n))"] by simp
    then show ?thesis
      using assms(2) neighbour_entry_new by (intro exI [of _ "?new (ActiveRouteTimeout (par n))"]) (simp add: GetLifeTime_def)
  next
    case (Some rt)
    show ?thesis
    proof (cases "rt_validSeqNo rt \<and> rt_hops rt = 1 \<and> GetOutputDevice rt = device_of E receiver")
      case True
      then have "m = aged now n" using Some by (simp add: assms(3) UpdateRouteToNeighbor_def lookup_route_eq)
      moreover have "neighbour_entry (Some rt) sender (iface_of E receiver) rt" by (simp add: neighbour_entry_def)
      moreover have "rt_flag rt \<noteq> IN_SEARCH \<longrightarrow> 0 \<le> GetLifeTime now rt" using Some st by (simp add: stable_def)
      ultimately show ?thesis using Some by (intro exI [of _ rt]) (simp add: fun_upd_idem)
    next
      case False
      let ?l = "max (ActiveRouteTimeout (par n)) (GetLifeTime now rt)"
      have "m = update_route (?new ?l) (aged now n)"
        using Some False by (auto simp: assms(3) UpdateRouteToNeighbor_def lookup_route_eq)
      then have "route_of m = (route_of (aged now n))(sender \<mapsto> ?new ?l)"
        using Some route_of_update [OF wf, of "?new ?l"] by simp
      then show ?thesis
        using assms(2) neighbour_entry_new by (intro exI [of _ "?new ?l"]) (simp add: GetLifeTime_def)
    qed
  qed
  then obtain e where e: "route_of m = (route_of (aged now n))(sender \<mapsto> e)"
    "neighbour_entry (route_of (aged now n) sender) sender (iface_of E receiver) e" "rt_flag e \<noteq> IN_SEARCH \<longrightarrow> 0 \<le> GetLifeTime now e" by blast
  then show "\<exists>e. route_of m = (route_of (aged now n))(sender \<mapsto> e) \<and> neighbour_entry (route_of (aged now n) sender) sender (iface_of E receiver) e"
    by blast
  show "stable now m" using wfm e st by (auto simp: stable_def)
qed

section \<open>The backbone node repeats the request\<close>

definition repeated :: "RreqHeader \<Rightarrow> socket \<times> Ipv4InterfaceAddress \<Rightarrow> effect" where
  "repeated h j = SendTo (fst j) (Rreq h) (broadcast_of (snd j))"

text \<open>A live client whose requests this backbone node repeats; no neighbour has expired.\<close>

definition serves :: "time \<Rightarrow> node \<Rightarrow> ipv4addr \<Rightarrow> bool" where
  "serves now n a \<longleftrightarrow> m_localNodeStatus (cluster n) = NEIGH_NODE \<and> all_alive now (m_nb n)
     \<and> (case FindNeighborTuple a (m_nb n) of None \<Rightarrow> False | Some nt \<Rightarrow> neighborClient nt)"

lemma rebroadcast_all:
  "Neighbors_wf (m_nb n) \<Longrightarrow> serves now n (rreq_origin h) \<Longrightarrow>
   \<exists>nb. rebroadcast E now h js n = Some (n\<lparr>m_nb := nb, out := out n @ map (repeated h) js\<rparr>)"
proof (induction js arbitrary: n)
  case Nil
  show ?case by (rule exI [of _ "m_nb n"]) simp
next
  case (Cons j js)
  have alive: "all_alive now (m_nb n)" using Cons.prems(2) by (simp add: serves_def)
  obtain nb' where nb': "Neighbors_IsNeighbor now (rreq_origin h) (m_nb n) = (FindNeighborTuple (rreq_origin h) (m_nb n) \<noteq> None, nb', [])"
    "localNeighborList nb' = localNeighborList (m_nb n)" "Neighbors_wf nb'" "all_alive now nb'"
    by (rule IsNeighbor_alive [OF Cons.prems(1) alive])
  have same: "FindNeighborTuple a nb' = FindNeighborTuple a (m_nb n)" for a
    by (simp add: FindNeighborTuple_def nb'(2))
  let ?n = "emit (repeated h j) (n\<lparr>m_nb := nb'\<rparr>)"
  have "Neighbors_wf (m_nb ?n)" "serves now ?n (rreq_origin h)"
    using Cons.prems(2) nb'(3,4) by (simp_all add: emit_def serves_def same)
  from Cons.IH [OF this] obtain nb where
    "rebroadcast E now h js ?n = Some (?n\<lparr>m_nb := nb, out := out ?n @ map (repeated h) js\<rparr>)" by blast
  moreover have "rebroadcast E now h (j # js) n = rebroadcast E now h js ?n"
    using Cons.prems(2) nb'(1) same
    by (auto simp: serves_def nb_is_neighbor_def repeated_def split: option.splits)
  ultimately show ?case by (intro exI [of _ nb]) (simp add: emit_def)
qed

text \<open>The way back, where the originator already has an entry.\<close>

lemma reverse_known:
  assumes "stable now n" "route_of n (rreq_origin h) = Some rt" "rt_flag rt \<noteq> IN_SEARCH"
    and "reverse_route E now h receiver src n = (m, e)"
  shows "stable now m" "route_of m = (route_of n)(rreq_origin h \<mapsto> reset_rreq e)" "\<exists>t. m = n\<lparr>m_routingTable := t\<rparr>"
    and "rt_flag e = rt_flag rt" "GetNextHop e = src" "rt_iface e = iface_of E receiver" "rt_hops e = ucast (rreq_hopCount h)"
    and "now + reverse_lifetime n (rreq_hopCount h) \<le> rt_lifeTime e"
proof -
  have "GetDestinationOf rt = rreq_origin h" by (rule route_key [OF stable_wf [OF assms(1)] assms(2)])
  moreover have "route_of (aged now n) (rreq_origin h) = Some rt" using assms(2) stable_aged [OF assms(1)] by simp
  moreover have "0 \<le> GetLifeTime now rt" using assms(1-3) by (auto simp: stable_def)
  ultimately have e: "m = update_route e (aged now n)" "GetDestinationOf e = rreq_origin h" "0 \<le> GetLifeTime now e"
    "rt_flag e = rt_flag rt \<and> GetNextHop e = src \<and> rt_iface e = iface_of E receiver \<and> rt_hops e = ucast (rreq_hopCount h)
      \<and> now + reverse_lifetime n (rreq_hopCount h) \<le> rt_lifeTime e"
    using assms(4) by (auto simp: reverse_route_def lookup_route_eq Let_def SetLifeTime_def SetOutputDevice_def SetNextHop_def
        GetDestinationOf_def GetNextHop_def GetLifeTime_def reverse_lifetime_def split: if_splits)
  show "rt_flag e = rt_flag rt" "GetNextHop e = src" "rt_iface e = iface_of E receiver" "rt_hops e = ucast (rreq_hopCount h)"
    "now + reverse_lifetime n (rreq_hopCount h) \<le> rt_lifeTime e" using e(4) by simp_all
  show "\<exists>t. m = n\<lparr>m_routingTable := t\<rparr>" by (auto simp: e(1) aged_def update_route_def)
  show "stable now m" "route_of m = (route_of n)(rreq_origin h \<mapsto> reset_rreq e)"
    using update_stable [OF stable_frame [OF assms(1)], of e] e(2,3) assms(2) stable_aged [OF assms(1)]
    by (simp_all add: e(1))
qed

lemma request_repeated:
  assumes "buffer_laws (buf E)" "node_wf n" "0 \<le> ActiveRouteTimeout (par n)" "map_of (m_socketAddresses n) s = Some iface"
    and "\<forall>rt. route_of (aged now n) src = Some rt \<longrightarrow> \<not> rt_blackListState rt \<and> rt_flag rt \<noteq> IN_SEARCH"
    and "\<not> fst (IdCache_IsDuplicate now (rreq_origin h) (rreq_requestID h) (m_rreqIdCache n))"
    and "rreq_origin h = src" "rreq_dst h \<noteq> src" "\<not> IsMyOwnAddress n (rreq_dst h)" "route_of (aged now n) (rreq_dst h) = None"
    and "serves now n src" and "h' = h\<lparr>rreq_hopCount := rreq_hopCount h + 1\<rparr>"
  shows "\<exists>n' e. RecvAodv E now s src (wire (buf E) (Rreq h) @ padding) n = Some n'
    \<and> out n' = out n @ map (repeated h') (m_socketAddresses n) \<and> m_socketAddresses n' = m_socketAddresses n \<and> par n' = par n
    \<and> stable now n' \<and> route_of n' (rreq_dst h) = None
    \<and> route_of n' src = Some e \<and> rt_flag e \<noteq> IN_SEARCH \<and> GetNextHop e = src \<and> rt_iface e = iface_of E (GetLocal iface)
    \<and> now + reverse_lifetime n (rreq_hopCount h') \<le> rt_lifeTime e"
proof -
  define m where "m = UpdateRouteToNeighbor E now src (GetLocal iface) n"
  note m = refresh_route [OF node_wf_parts(1) [OF assms(2)] assms(3) m_def]
  obtain r where r: "route_of m = (route_of (aged now n))(src \<mapsto> r)" "neighbour_entry (route_of (aged now n) src) src (iface_of E (GetLocal iface)) r"
    using m(4) by blast
  have live: "\<not> rt_blackListState r" "rt_flag r \<noteq> IN_SEARCH" using r(2) assms(5) by (auto simp: neighbour_entry_def)
  have frame: "m_rreqIdCache m = m_rreqIdCache n" "m_socketAddresses m = m_socketAddresses n" "out m = out n" "par m = par n"
    "m_nb m = m_nb n" "cluster m = cluster n" using m(2) by auto
  define k where "k = (aged now m)\<lparr>m_rreqIdCache :=
    snd (IdCache_IsDuplicate now (rreq_origin h) (rreq_requestID h) (m_rreqIdCache m))\<rparr>"
  have k: "stable now k" "route_of k = route_of m" "m_socketAddresses k = m_socketAddresses n" "out k = out n" "par k = par n"
    "m_nb k = m_nb n" "cluster k = cluster n"
    using stable_frame [OF m(1)] stable_table [of k "aged now m"] stable_aged [OF m(1)] frame by (simp_all add: k_def)
  obtain k1 e where rev: "reverse_route E now h' (GetLocal iface) src k = (k1, e)" by fastforce
  have origin: "rreq_origin h' = src" "rreq_dst h' = rreq_dst h" using assms(7,12) by simp_all
  have "route_of k (rreq_origin h') = Some r" by (simp add: origin k(2) r(1))
  note way = reverse_known [OF k(1) this live(2) rev]
  have k1: "m_socketAddresses k1 = m_socketAddresses n" "out k1 = out n" "par k1 = par n" "m_nb k1 = m_nb n" "cluster k1 = cluster n"
    using way(3) k(3-7) by auto
  have none: "route_of (aged now k1) (rreq_dst h') = None"
    using assms(8,10) by (simp add: stable_aged [OF way(1)] way(2) k(2) r(1) origin)
  have "Neighbors_wf (m_nb (aged now k1))" "serves now (aged now k1) (rreq_origin h')"
    using assms(2,11) k1 by (simp_all add: node_wf_def serves_def origin)
  from rebroadcast_all [OF this] obtain nb where nb: "rebroadcast E now h' (m_socketAddresses n) (aged now k1) =
      Some ((aged now k1)\<lparr>m_nb := nb, out := out (aged now k1) @ map (repeated h') (m_socketAddresses n)\<rparr>)" by blast
  define n' where "n' = start_hello_timer E now 10 ((aged now k1)\<lparr>m_nb := nb,
      out := out n @ map (repeated h') (m_socketAddresses n)\<rparr>)"
  have "RecvAodv E now s src (wire (buf E) (Rreq h) @ padding) n = handle_request E now h (GetLocal iface) src m"
    using receive_message [OF assms(1) node_wf_parts(7) [OF assms(2)] assms(4) _ m_def, of "Rreq h"] by simp
  also have "\<dots> = answer_request E now h (GetLocal iface) src k"
    using handle_request_new [of now m src h] live(1) assms(6) frame(1) stable_aged [OF m(1)] r(1) by (simp add: k_def)
  also have "\<dots> = forward_request E now h' (aged now k1)"
    using assms(9) none k1(1) unfolding answer_request_def Let_def assms(12) [symmetric] rev
    by (simp add: IsMyOwnAddress_def lookup_route_eq origin)
  also have "\<dots> = Some n'" using nb k1 by (simp add: forward_request_def n'_def)
  finally have run: "RecvAodv E now s src (wire (buf E) (Rreq h) @ padding) n = Some n'" .
  have table: "m_routingTable n' = m_routingTable (aged now k1)" by (simp add: n'_def)
  then have routes: "route_of n' = route_of k1"
    using stable_aged [OF way(1)] by (simp add: route_of_def fun_eq_iff)
  have n': "stable now n'" "m_socketAddresses n' = m_socketAddresses n" "par n' = par n"
    "out n' = out n @ map (repeated h') (m_socketAddresses n)"
    using stable_table [OF table] stable_frame [OF way(1)] k1 by (simp_all add: n'_def)
  have "route_of n' (rreq_dst h) = None" using none stable_aged [OF way(1)] by (simp add: routes origin)
  moreover have "route_of n' src = Some (reset_rreq e)" by (simp add: routes way(2) origin)
  moreover have "rt_iface (reset_rreq e) = rt_iface e" "rt_lifeTime (reset_rreq e) = rt_lifeTime e"
    by (simp_all add: reset_rreq_def)
  moreover have "reverse_lifetime k (rreq_hopCount h') = reverse_lifetime n (rreq_hopCount h')"
    by (simp add: reverse_lifetime_def k(5))
  ultimately show ?thesis
    using run n' way(4-6,8) live(2) by (intro exI [of _ n'] exI [of _ "reset_rreq e"]) simp
qed

section \<open>The backbone node passes the reply on\<close>

lemma reply_relayed:
  assumes "buffer_laws (buf E)" "node_wf n" "0 \<le> ActiveRouteTimeout (par n)" "map_of (m_socketAddresses n) s = Some iface"
    and "route_of n org = Some ro" "rt_flag ro \<noteq> IN_SEARCH" "GetNextHop ro = org" "now \<le> rt_lifeTime ro"
    and "FindSocketWithInterfaceAddress (rt_iface ro) n = Some so" "sender \<noteq> org" "route_of n sender = None"
    and "rrep_dst h = sender" "rrep_origin h = org" "\<not> IsMyOwnAddress n org" "rrep_flags h = 0"
    and "\<forall>k\<ge>0. 0 \<le> MilliSeconds (unit_of_time E) k" and "h' = h\<lparr>rrep_hopCount := rrep_hopCount h + 1\<rparr>"
  shows "\<exists>n' rt. RecvAodv E now s sender (wire (buf E) (Rrep h) @ padding) n = Some n'
    \<and> out n' = out n @ [SendTo so (Rrep h') org]
    \<and> route_of n' sender = Some rt \<and> rt_flag rt = VALID \<and> GetNextHop rt = sender \<and> rt_hops rt = ucast (rrep_hopCount h')
    \<and> rt_seqNo rt = rrep_dstSeqNo h"
proof -
  define m where "m = UpdateRouteToNeighbor E now sender (GetLocal iface) n"
  note wf = node_wf_parts(1) [OF assms(2)]
  note m = refresh_route [OF wf assms(3) m_def]
  have aged: "route_of (aged now n) org = Some ro" "route_of (aged now n) sender = None"
    using assms(5,8,11) by (simp_all add: route_of_aged [OF wf] age_entry_def GetLifeTime_def)
  obtain r where r: "route_of m = (route_of (aged now n))(sender \<mapsto> r)" "neighbour_entry (route_of (aged now n) sender) sender (iface_of E (GetLocal iface)) r"
    using m(4) by blast
  have new: "\<not> rt_validSeqNo r" "GetNextHop r = sender" using r(2) aged(2) by (auto simp: neighbour_entry_def)
  have routes: "route_of (aged now m) org = Some ro" "route_of (aged now m) sender = Some r"
    using aged(1) assms(10) by (simp_all add: stable_aged [OF m(1)] r(1))
  have frame: "m_socketAddresses m = m_socketAddresses n" "out m = out n" using m(2) by auto
  let ?e = "RoutingTableEntry_new now (device_of E (GetLocal iface)) (rrep_dst h) True (rrep_dstSeqNo h)
      (iface_of E (GetLocal iface)) (ucast (rrep_hopCount h')) sender (RrepHeader_GetLifeTime (unit_of_time E) h)"
  have a: "rrep_dst h \<noteq> rrep_origin h" "\<not> IsMyOwnAddress m (rrep_origin h)" "\<not> RrepHeader_GetAckRequired h"
    "0 \<le> RrepHeader_GetLifeTime (unit_of_time E) h" "route_of (aged now m) (rrep_origin h) = Some ro"
    "FindSocketWithInterfaceAddress (rt_iface ro) m = Some so" "route_of (aged now m) sender \<noteq> None"
    "route_of (aged now m) (GetNextHop ro) \<noteq> None"
    "\<forall>d. route_of (aged now m) (rrep_dst h) = Some d \<longrightarrow> route_of (aged now m) (GetNextHop d) \<noteq> None"
    using assms(7,9,10,12-16) routes new frame find_socket_frame [OF frame(1)]
    by (simp_all add: IsMyOwnAddress_def RrepHeader_GetAckRequired_def get_flag_def RrepHeader_GetLifeTime_def)
  have "?e = fresher h' (route_of (aged now m) (rrep_dst h)) ?e"
    using routes new by (simp add: fresher_def assms(12))
  from reply_forwarded [OF stable_wf [OF m(1)] a(1-5) assms(6) a(6-9) assms(17) refl this]
  obtain n' where n': "handle_reply E now h (GetLocal iface) sender m = Some n'" "out n' = out n @ [SendTo so (Rrep h') org]"
    "\<forall>a. map_option core (route_of n' a) = map_option core
        (((route_of (aged now m))(rrep_dst h \<mapsto> ?e, rrep_origin h \<mapsto> prolonged now m ro)) a)"
    unfolding frame(2) assms(7) by blast
  have "map_option core (route_of n' sender) = Some (core ?e)"
    using n'(3) [rule_format, of sender] assms(10,12,13) by simp
  then obtain rt where rt: "route_of n' sender = Some rt" "core rt = core ?e" by auto
  have "RecvAodv E now s sender (wire (buf E) (Rrep h) @ padding) n = Some n'"
    using receive_message [OF assms(1) node_wf_parts(7) [OF assms(2)] assms(4) _ m_def, of "Rrep h"] n'(1) by simp
  with n'(2) rt core_eqD [OF rt(2)] show ?thesis by (intro exI [of _ n'] exI [of _ rt]) simp
qed

section \<open>The node that asked is served\<close>

lemma asker_served_by:
  assumes "node_wf n" "buffer_laws (buf E)" "map_of (m_socketAddresses n) s = Some iface" "0 \<le> ActiveRouteTimeout (par n)"
    and "route_of n dst = Some rt" "rt_flag rt = IN_SEARCH" "sender \<noteq> dst"
    and "IsMyOwnAddress n (rrep_origin h)" "rrep_dst h = dst" "rrep_origin h \<noteq> dst" "rrep_flags h = 0"
    and "\<forall>k\<ge>0. 0 \<le> MilliSeconds (unit_of_time E) k"
    and "filter (\<lambda>e. GetDestination (qe_header e) = dst) (m_queue (m_rqueue n)) = [entry]"
    and "deferred_tag (qe_packet entry) = Some (- 1)" "now \<le> qe_expire entry"
  shows "\<exists>n' rt' es. RecvAodv E now s sender (wire (buf E) (Rrep h) @ padding) n = Some n'
    \<and> route_of n' dst = Some rt' \<and> rt_flag rt' = VALID \<and> GetNextHop rt' = sender
    \<and> rt_hops rt' = ucast (rrep_hopCount h + 1) \<and> rt_seqNo rt' = rrep_dstSeqNo h
    \<and> map_of (m_addressReqTimer n') dst = None \<and> \<not> RequestQueue_Find dst (m_rqueue n')
    \<and> out n' = out n @ map dropped_report es @ [handed_over (rt_route rt') entry]"
proof -
  define m where "m = UpdateRouteToNeighbor E now sender (GetLocal iface) n"
  note wf = node_wf_parts(1) [OF assms(1)]
  note m = refresh_route [OF wf assms(4) m_def]
  have "route_of (aged now n) dst = Some rt" by (rule route_in_search [OF wf assms(5,6)])
  then have route: "route_of (aged now m) (rrep_dst h) = Some rt"
    using m(4) assms(7,9) by (auto simp: stable_aged [OF m(1)])
  have frame: "m_socketAddresses m = m_socketAddresses n" "out m = out n" "m_rqueue m = m_rqueue n" using m(2) by auto
  define e where "e = RoutingTableEntry_new now (device_of E (GetLocal iface)) (rrep_dst h) True (rrep_dstSeqNo h)
      (iface_of E (GetLocal iface)) (ucast (rrep_hopCount h + 1)) sender (RrepHeader_GetLifeTime (unit_of_time E) h)"
  have a: "IsMyOwnAddress m (rrep_origin h)" "rrep_dst h \<noteq> rrep_origin h" "\<not> RrepHeader_GetAckRequired h"
    "0 \<le> RrepHeader_GetLifeTime (unit_of_time E) h"
    using assms(8-12) frame(1)
    by (auto simp: IsMyOwnAddress_def RrepHeader_GetAckRequired_def get_flag_def RrepHeader_GetLifeTime_def)
  have "x = entry" if "x \<in> set (m_queue (m_rqueue n))" "GetDestination (qe_header x) = dst" for x
    using arg_cong [OF assms(13), of set] that by auto
  then have tags: "\<forall>x\<in>set (m_queue (m_rqueue m)). GetDestination (qe_header x) = rrep_dst h \<longrightarrow> tag_allows E (rt_route e) x"
    using assms(9,14) by (auto simp: frame tag_allows_def)
  have live: "filter (\<lambda>x. GetDestination (qe_header x) = rrep_dst h)
      (filter (\<lambda>x. \<not> QueueEntry_IsExpired now x) (m_queue (m_rqueue m))) = [entry]"
    using live_only [OF assms(13), of "\<lambda>x. \<not> QueueEntry_IsExpired now x"] assms(9,15)
    by (simp only: frame) (simp add: QueueEntry_IsExpired_def QueueEntry_GetExpireTime_def)
  from reply_completes_discovery [OF stable_wf [OF m(1)] a(1-3) route assms(6) e_def a(4) tags, unfolded live]
  obtain n' where n': "handle_reply E now h (GetLocal iface) sender m = Some n'" "route_of n' dst = Some e"
    "map_of (m_addressReqTimer n') dst = None" "\<not> RequestQueue_Find dst (m_rqueue n')"
    "out n' = out n @ map dropped_report (filter (QueueEntry_IsExpired now) (m_queue (m_rqueue m))) @ [handed_over (rt_route e) entry]"
    using assms(9) frame(2) by auto
  have run: "RecvAodv E now s sender (wire (buf E) (Rrep h) @ padding) n = Some n'"
    using receive_message [OF assms(2) node_wf_parts(7) [OF assms(1)] assms(3) _ m_def, of "Rrep h"] n'(1) by simp
  show ?thesis
    by (rule exI [of _ n'], rule exI [of _ e], rule exI [of _ "filter (QueueEntry_IsExpired now) (m_queue (m_rqueue m))"])
      (use run n' in \<open>simp add: e_def\<close>)
qed

section \<open>The discovery over two hops\<close>

text \<open>A backbone node that serves the asking node and knows nothing of the destination.\<close>

definition relays :: "env \<Rightarrow> time \<Rightarrow> socket \<Rightarrow> Ipv4InterfaceAddress \<Rightarrow> ipv4addr \<Rightarrow> ipv4addr \<Rightarrow> u32 \<Rightarrow> node \<Rightarrow> bool" where
  "relays E now sk iface client dst request n \<longleftrightarrow> node_wf n \<and> 0 \<le> ActiveRouteTimeout (par n)
     \<and> map_of (m_socketAddresses n) sk = Some iface
     \<and> FindSocketWithInterfaceAddress (iface_of E (GetLocal iface)) n = Some sk \<and> serves now n client
     \<and> (\<forall>rt. route_of (aged now n) client = Some rt \<longrightarrow> \<not> rt_blackListState rt \<and> rt_flag rt \<noteq> IN_SEARCH)
     \<and> \<not> fst (IdCache_IsDuplicate now client request (m_rreqIdCache n))
     \<and> \<not> IsMyOwnAddress n client \<and> \<not> IsMyOwnAddress n dst \<and> route_of (aged now n) dst = None"

lemma repeat_step:
  assumes "relays E now sk iface (rreq_origin h) (rreq_dst h) (rreq_requestID h) (at s k)" "buffer_laws B" "lib E = L" "buf E = B"
    and "f \<in> set (air s)" "frame_source f = rreq_origin h" "frame_bytes f = wire B (Rreq h)" "rreq_dst h \<noteq> rreq_origin h"
    and "map_of (m_socketAddresses (at s k)) sl = Some il" "bound k sl = GetLocal il"
    and "h' = h\<lparr>rreq_hopCount := rreq_hopCount h + 1\<rparr>"
  shows "\<exists>n e. mesh_step L B bound now s (mesh_after B bound k n s)
    \<and> \<lparr>frame_source = GetLocal il, frame_target = broadcast_of il, frame_bytes = wire B (Rreq h')\<rparr>
        \<in> set (air (mesh_after B bound k n s))
    \<and> node_wf n \<and> m_socketAddresses n = m_socketAddresses (at s k) \<and> par n = par (at s k)
    \<and> route_of n (rreq_dst h) = None \<and> route_of n (rreq_origin h) = Some e \<and> rt_flag e \<noteq> IN_SEARCH
    \<and> GetNextHop e = rreq_origin h \<and> rt_iface e = iface_of E (GetLocal iface)
    \<and> now + reverse_lifetime (at s k) (rreq_hopCount h') \<le> rt_lifeTime e"
proof -
  have wf: "node_wf (at s k)" using assms(1) by (simp add: relays_def)
  obtain n e where n: "RecvAodv E now sk (rreq_origin h) (wire B (Rreq h) @ []) (at s k) = Some n"
      "out n = out (at s k) @ map (repeated h') (m_socketAddresses (at s k))" "m_socketAddresses n = m_socketAddresses (at s k)"
      "par n = par (at s k)" "route_of n (rreq_dst h) = None" "route_of n (rreq_origin h) = Some e" "rt_flag e \<noteq> IN_SEARCH"
      "GetNextHop e = rreq_origin h" "rt_iface e = iface_of E (GetLocal iface)"
      "now + reverse_lifetime (at s k) (rreq_hopCount h') \<le> rt_lifeTime e"
    using request_repeated [of E "at s k" sk iface now "rreq_origin h" h h' "[]"] assms(1,2,4,8,11) by (auto simp: relays_def)
  have "node_wf n" by (rule step_wf [OF node_step.receive [OF n(1)] wf])
  moreover have "mesh_step L B bound now s (mesh_after B bound k n s)"
    by (rule deliver_step [OF assms(5,3,4), where sk = sk and padding = "[]"]) (use n(1) assms(6,7) in simp)
  moreover have "(sl, il) \<in> set (m_socketAddresses (at s k))" using assms(9) by (rule map_of_SomeD)
  then have "repeated h' (sl, il) \<in> set (map (repeated h') (m_socketAddresses (at s k)))" unfolding set_map by (rule imageI)
  then have "\<lparr>frame_source = GetLocal il, frame_target = broadcast_of il, frame_bytes = wire B (Rreq h')\<rparr>
      \<in> set (frames_of B (bound k) (map (repeated h') (m_socketAddresses (at s k))))"
    unfolding frames_of_sent using assms(10) by (intro exI conjI) (simp only: repeated_def fst_conv snd_conv, simp)
  then have "\<lparr>frame_source = GetLocal il, frame_target = broadcast_of il, frame_bytes = wire B (Rreq h')\<rparr>
      \<in> set (air (mesh_after B bound k n s))"
    using n(2) by (simp add: mesh_after_def)
  ultimately show ?thesis using n(3-10) by blast
qed

lemma relay_step:
  fixes E :: env
  assumes "node_wf (at s k)" "buffer_laws B" "lib E = L" "buf E = B" "\<forall>k\<ge>0. 0 \<le> MilliSeconds (unit_of_time E) k"
    and "f \<in> set (air s)" "frame_source f = dst" "frame_bytes f = wire B (Rrep r)"
    and "0 \<le> ActiveRouteTimeout (par (at s k))" "map_of (m_socketAddresses (at s k)) sl = Some il"
    and "route_of (at s k) org = Some ro" "rt_flag ro \<noteq> IN_SEARCH" "GetNextHop ro = org" "now \<le> rt_lifeTime ro"
    and "FindSocketWithInterfaceAddress (rt_iface ro) (at s k) = Some sk" "dst \<noteq> org" "route_of (at s k) dst = None"
    and "rrep_dst r = dst" "rrep_origin r = org" "rrep_flags r = 0" "\<not> IsMyOwnAddress (at s k) org"
    and "r' = r\<lparr>rrep_hopCount := rrep_hopCount r + 1\<rparr>"
  shows "\<exists>n rt. mesh_step L B bound now s (mesh_after B bound k n s)
    \<and> \<lparr>frame_source = bound k sk, frame_target = org, frame_bytes = wire B (Rrep r')\<rparr> \<in> set (air (mesh_after B bound k n s))
    \<and> route_of n dst = Some rt \<and> rt_flag rt = VALID \<and> GetNextHop rt = dst \<and> rt_hops rt = ucast (rrep_hopCount r')
    \<and> rt_seqNo rt = rrep_dstSeqNo r"
proof -
  obtain n rt where n: "RecvAodv E now sl dst (wire B (Rrep r) @ []) (at s k) = Some n"
      "out n = out (at s k) @ [SendTo sk (Rrep r') org]" "route_of n dst = Some rt" "rt_flag rt = VALID" "GetNextHop rt = dst"
      "rt_hops rt = ucast (rrep_hopCount r')" "rt_seqNo rt = rrep_dstSeqNo r"
    using reply_relayed [of E "at s k" sl il org ro now sk dst r r' "[]"] assms by auto
  have "mesh_step L B bound now s (mesh_after B bound k n s)"
    by (rule deliver_step [OF assms(6,3,4), where sk = sl and padding = "[]"]) (use n(1) assms(7,8) in simp)
  moreover have "\<lparr>frame_source = bound k sk, frame_target = org, frame_bytes = wire B (Rrep r')\<rparr>
      \<in> set (air (mesh_after B bound k n s))"
    using n(2) by (auto simp: mesh_after_def frames_of_sent)
  ultimately show ?thesis using n(3-7) by blast
qed

text \<open>The first three steps: the request on its way to the destination, and its answer.\<close>

lemma two_hop_request:
  fixes ucb ecb :: callback
  assumes "distinct [i, k, j]" and "buffer_laws B" and "lib Ea = L" and "buf Ea = B" and "lib Ek = L" and "buf Ek = B"
    and "lib Eb = L" and "buf Eb = B"
    and "asks Ea t0 p h (at s i)" and "m_socketAddresses (at s i) = (sa, ia) # js" and "dst = GetDestination h"
    and "relays Ek t1 sk ik (GetLocal ia) dst (m_requestId (at s i) + 1) (at s k)"
    and "map_of (m_socketAddresses (at s k)) sl = Some il"
    and "answers Eb t2 sb ib (GetLocal il) (GetLocal ia) (m_requestId (at s i) + 1) (at s j)" and "GetLocal ib = dst"
    and "bound i sa = GetLocal ia" and "bound k sl = GetLocal il" and "bound j sb = dst" and "GetLocal ia \<noteq> dst"
    and "entry = \<lparr>qe_packet = p, qe_header = h, qe_ucb = ucb, qe_ecb = ecb, qe_expire = m_queueTimeout (m_rqueue (at s i)) + t0\<rparr>"
  shows "\<exists>s1 s2 s3 rt e r. mesh_step L B bound t0 s s1 \<and> mesh_step L B bound t1 s1 s2 \<and> mesh_step L B bound t2 s2 s3
    \<and> \<lparr>frame_source = dst, frame_target = GetLocal il, frame_bytes = wire B (Rrep r)\<rparr> \<in> set (air s3)
    \<and> rrep_dst r = dst \<and> rrep_origin r = GetLocal ia \<and> rrep_hopCount r = 0 \<and> rrep_flags r = 0 \<and> rrep_dstSeqNo r = m_seqNo (at s3 j)
    \<and> node_wf (at s3 i) \<and> m_socketAddresses (at s3 i) = (sa, ia) # js \<and> par (at s3 i) = par (at s i)
    \<and> filter (\<lambda>e. GetDestination (qe_header e) = dst) (m_queue (m_rqueue (at s3 i))) = [entry]
    \<and> route_of (at s3 i) dst = Some rt \<and> rt_flag rt = IN_SEARCH
    \<and> node_wf (at s3 k) \<and> m_socketAddresses (at s3 k) = m_socketAddresses (at s k) \<and> par (at s3 k) = par (at s k)
    \<and> route_of (at s3 k) dst = None \<and> route_of (at s3 k) (GetLocal ia) = Some e \<and> rt_flag e \<noteq> IN_SEARCH
    \<and> GetNextHop e = GetLocal ia \<and> rt_iface e = iface_of Ek (GetLocal ik) \<and> t1 + reverse_lifetime (at s k) 1 \<le> rt_lifeTime e"
proof -
  have ne: "k \<noteq> i" "j \<noteq> i" "j \<noteq> k" "i \<noteq> k" "i \<noteq> j" "k \<noteq> j" using assms(1) by auto
  obtain n q rt0 where step1: "mesh_step L B bound t0 s (mesh_after B bound i n s)"
    and air1: "\<lparr>frame_source = GetLocal ia, frame_target = broadcast_of ia, frame_bytes = wire B (Rreq q)\<rparr>
        \<in> set (air (mesh_after B bound i n s))"
    and q: "rreq_dst q = dst" "rreq_requestID q = m_requestId (at s i) + 1" "rreq_hopCount q = 0" "rreq_origin q = GetLocal ia"
    and n: "node_wf n" "m_socketAddresses n = (sa, ia) # js" "par n = par (at s i)"
      "filter (\<lambda>e. GetDestination (qe_header e) = dst) (m_queue (m_rqueue n)) = [entry]"
      "route_of n dst = Some rt0" "rt_flag rt0 = IN_SEARCH"
    using ask_step [where bound = bound, OF assms(9,3,4,10,16,11,20)] by blast
  define s1 where "s1 = mesh_after B bound i n s"
  have at1: "at s1 i = n" "at s1 j = at s j" "at s1 k = at s k" using ne by (simp_all add: s1_def)
  define q' where "q' = q\<lparr>rreq_hopCount := rreq_hopCount q + 1\<rparr>"
  obtain m e where step2: "mesh_step L B bound t1 s1 (mesh_after B bound k m s1)"
    and air2: "\<lparr>frame_source = GetLocal il, frame_target = broadcast_of il, frame_bytes = wire B (Rreq q')\<rparr>
        \<in> set (air (mesh_after B bound k m s1))"
    and m: "node_wf m" "m_socketAddresses m = m_socketAddresses (at s k)" "par m = par (at s k)" "route_of m dst = None"
      "route_of m (GetLocal ia) = Some e" "rt_flag e \<noteq> IN_SEARCH" "GetNextHop e = GetLocal ia"
      "rt_iface e = iface_of Ek (GetLocal ik)" "t1 + reverse_lifetime (at s k) 1 \<le> rt_lifeTime e"
    using repeat_step [of Ek t1 sk ik q s1 k B L _ sl il bound q', OF _ assms(2,5,6) air1 [folded s1_def] _ _ _ _ assms(17) q'_def]
      assms(12,13,19) q at1 by (auto simp: q'_def)
  define s2 where "s2 = mesh_after B bound k m s1"
  have at2: "at s2 i = n" "at s2 j = at s j" "at s2 k = m" using ne at1 by (simp_all add: s2_def)
  have q': "rreq_dst q' = dst" "rreq_requestID q' = m_requestId (at s i) + 1" "rreq_origin q' = GetLocal ia"
    using q by (simp_all add: q'_def)
  obtain d r where step3: "mesh_step L B bound t2 s2 (mesh_after B bound j d s2)"
    and air3: "\<lparr>frame_source = dst, frame_target = GetLocal il, frame_bytes = wire B (Rrep r)\<rparr> \<in> set (air (mesh_after B bound j d s2))"
    and r: "rrep_dst r = dst" "rrep_origin r = GetLocal ia" "rrep_hopCount r = 0" "rrep_flags r = 0" "rrep_dstSeqNo r = m_seqNo d"
    using answer_step [of Eb t2 sb ib "GetLocal il" q' s2 j B L _ bound, OF _ assms(2,7,8) air2 [folded s2_def]]
      assms(14,15,18) at2 q' by auto
  define s3 where "s3 = mesh_after B bound j d s2"
  have at3: "at s3 i = n" "at s3 j = d" "at s3 k = m" using ne at2 by (simp_all add: s3_def)
  show ?thesis
    using step1 step2 step3 air3 r n m at3 unfolding s1_def [symmetric] s2_def [symmetric] s3_def [symmetric] by metis
qed

text \<open>C4: A route is discovered over two hops. The node that asks broadcasts its request; its backbone node, which has it
  as a live client and knows nothing of the destination, repeats the request; the destination answers it;
  the backbone node passes the reply on, if the way back has not expired; and if the packet still waits
  then, the node that asked has a valid route of two hops through its backbone node, with the destination's
  own sequence number, hands the packet over on it, waits for no answer any more and has no other packet for
  the destination. The backbone node has the valid route of one hop. In contrast to a destination next door,
  the retry timer of the search is gone.\<close>

theorem two_hop_discovery:
  fixes ucb ecb :: callback
  assumes "distinct [i, k, j]" and "buffer_laws B" and "lib Ea = L" and "buf Ea = B" and "lib Ek = L" and "buf Ek = B"
    and "lib Eb = L" and "buf Eb = B"
    and "asks Ea t0 p h (at s i)" and "m_socketAddresses (at s i) = (sa, ia) # js" and "dst = GetDestination h"
    and "relays Ek t1 sk ik (GetLocal ia) dst (m_requestId (at s i) + 1) (at s k)"
    and "map_of (m_socketAddresses (at s k)) sl = Some il"
    and "answers Eb t2 sb ib (GetLocal il) (GetLocal ia) (m_requestId (at s i) + 1) (at s j)" and "GetLocal ib = dst"
    and "bound i sa = GetLocal ia" and "bound k sk = GetLocal ik" and "bound k sl = GetLocal il" and "bound j sb = dst"
    and "GetLocal ia \<noteq> dst"
    and "t3 \<le> t1 + reverse_lifetime (at s k) 1" and "t4 \<le> t0 + m_queueTimeout (m_rqueue (at s i))"
    and "\<forall>k\<ge>0. 0 \<le> MilliSeconds (unit_of_time Ea) k" and "\<forall>k\<ge>0. 0 \<le> MilliSeconds (unit_of_time Ek) k"
  shows "\<exists>s1 s2 s3 s4 s5 rt rk es. mesh_step L B bound t0 s s1 \<and> mesh_step L B bound t1 s1 s2 \<and> mesh_step L B bound t2 s2 s3
    \<and> mesh_step L B bound t3 s3 s4 \<and> mesh_step L B bound t4 s4 s5
    \<and> route_of (at s5 i) dst = Some rt \<and> rt_flag rt = VALID \<and> GetNextHop rt = GetLocal ik \<and> rt_hops rt = 2
    \<and> rt_seqNo rt = m_seqNo (at s5 j)
    \<and> route_of (at s5 k) dst = Some rk \<and> rt_flag rk = VALID \<and> GetNextHop rk = dst \<and> rt_hops rk = 1
    \<and> map_of (m_addressReqTimer (at s5 i)) dst = None \<and> \<not> RequestQueue_Find dst (m_rqueue (at s5 i))
    \<and> out (at s5 i) = es @ [UnicastForward ucb (rt_route rt) (p\<lparr>deferred_tag := None\<rparr>)
        (h\<lparr>GetSource := route_source (rt_route rt), GetTtl := GetTtl h + 1\<rparr>)]"
proof -
  define entry where "entry = \<lparr>qe_packet = p, qe_header = h, qe_ucb = ucb, qe_ecb = ecb,
    qe_expire = m_queueTimeout (m_rqueue (at s i)) + t0\<rparr>"
  have ne: "k \<noteq> i" "j \<noteq> i" "j \<noteq> k" "i \<noteq> k" "i \<noteq> j" "k \<noteq> j" using assms(1) by auto
  obtain s1 s2 s3 rt0 e r where step1: "mesh_step L B bound t0 s s1" and step2: "mesh_step L B bound t1 s1 s2"
    and step3: "mesh_step L B bound t2 s2 s3"
    and air3: "\<lparr>frame_source = dst, frame_target = GetLocal il, frame_bytes = wire B (Rrep r)\<rparr> \<in> set (air s3)"
    and r: "rrep_dst r = dst" "rrep_origin r = GetLocal ia" "rrep_hopCount r = 0" "rrep_flags r = 0" "rrep_dstSeqNo r = m_seqNo (at s3 j)"
    and n: "node_wf (at s3 i)" "m_socketAddresses (at s3 i) = (sa, ia) # js" "par (at s3 i) = par (at s i)"
      "filter (\<lambda>e. GetDestination (qe_header e) = dst) (m_queue (m_rqueue (at s3 i))) = [entry]"
      "route_of (at s3 i) dst = Some rt0" "rt_flag rt0 = IN_SEARCH"
    and m: "node_wf (at s3 k)" "m_socketAddresses (at s3 k) = m_socketAddresses (at s k)" "par (at s3 k) = par (at s k)"
      "route_of (at s3 k) dst = None" "route_of (at s3 k) (GetLocal ia) = Some e" "rt_flag e \<noteq> IN_SEARCH" "GetNextHop e = GetLocal ia"
      "rt_iface e = iface_of Ek (GetLocal ik)" "t1 + reverse_lifetime (at s k) 1 \<le> rt_lifeTime e"
    using two_hop_request [where bound = bound, OF assms(1-16,18-20) entry_def] by blast
  define r' where "r' = r\<lparr>rrep_hopCount := rrep_hopCount r + 1\<rparr>"
  have way: "FindSocketWithInterfaceAddress (rt_iface e) (at s3 k) = Some sk" "\<not> IsMyOwnAddress (at s3 k) (GetLocal ia)"
    "0 \<le> ActiveRouteTimeout (par (at s3 k))" "t3 \<le> rt_lifeTime e" "map_of (m_socketAddresses (at s3 k)) sl = Some il" "GetLocal ik \<noteq> dst"
    using assms(12,13,21) m(2,3,8,9) find_socket_frame [OF m(2)] map_of_SomeD [of "m_socketAddresses (at s k)" sk ik]
    by (force simp: relays_def IsMyOwnAddress_def)+
  obtain m' rk where step4: "mesh_step L B bound t3 s3 (mesh_after B bound k m' s3)"
    and air4: "\<lparr>frame_source = GetLocal ik, frame_target = GetLocal ia, frame_bytes = wire B (Rrep r')\<rparr>
        \<in> set (air (mesh_after B bound k m' s3))"
    and m': "route_of m' dst = Some rk" "rt_flag rk = VALID" "GetNextHop rk = dst" "rt_hops rk = 1"
    using relay_step [of s3 k B Ek L _ dst r sl il "GetLocal ia" e t3 sk r' bound, OF _ assms(2,5,6,24) air3 _ _ _ _ _
        m(6,7) way(4)] m way r assms(17,20) by (auto simp: r'_def)
  define s4 where "s4 = mesh_after B bound k m' s3"
  have at4: "at s4 i = at s3 i" "at s4 j = at s3 j" "at s4 k = m'" using ne by (simp_all add: s4_def)
  have last: "map_of (m_socketAddresses (at s3 i)) sa = Some ia" "0 \<le> ActiveRouteTimeout (par (at s3 i))" "IsMyOwnAddress (at s3 i) (rrep_origin r')"
    "deferred_tag (qe_packet entry) = Some (- 1)" "t4 \<le> qe_expire entry" "rrep_dst r' = dst" "rrep_origin r' \<noteq> dst" "rrep_flags r' = 0"
    using assms(9,20,22) n(2,3) r by (simp_all add: asks_def entry_def r'_def IsMyOwnAddress_def)
  obtain n' rt es where n': "RecvAodv Ea t4 sa (GetLocal ik) (wire B (Rrep r') @ []) (at s3 i) = Some n'"
      "route_of n' dst = Some rt" "rt_flag rt = VALID" "GetNextHop rt = GetLocal ik" "rt_hops rt = ucast (rrep_hopCount r' + 1)"
      "rt_seqNo rt = rrep_dstSeqNo r'" "map_of (m_addressReqTimer n') dst = None" "\<not> RequestQueue_Find dst (m_rqueue n')"
      "out n' = out (at s3 i) @ map dropped_report es @ [handed_over (rt_route rt) entry]"
    using asker_served_by [OF n(1) _ last(1,2) n(5,6) way(6) last(3,6,7,8) assms(23) n(4) last(4,5), of "[]"] assms(2,4) by auto
  define s5 where "s5 = mesh_after B bound i n' s4"
  have step5: "mesh_step L B bound t4 s4 s5"
    unfolding s5_def by (rule deliver_step [OF air4 [folded s4_def] assms(3,4), where sk = sa and padding = "[]"])
      (use n'(1) at4 in simp)
  have at5: "at s5 i = n'" "at s5 j = at s3 j" "at s5 k = m'" using ne at4 by (simp_all add: s5_def)
  have "out n' = (out (at s3 i) @ map dropped_report es) @ [UnicastForward ucb (rt_route rt) (p\<lparr>deferred_tag := None\<rparr>)
      (h\<lparr>GetSource := route_source (rt_route rt), GetTtl := GetTtl h + 1\<rparr>)]" "rt_hops rt = 2" "rt_seqNo rt = m_seqNo (at s3 j)"
    using n'(5,6,9) r(3,5) by (simp_all add: handed_over_def entry_def r'_def)
  then show ?thesis
    using step1 step2 step3 step4 step5 n'(2-4,7,8) m' at5
    unfolding s4_def [symmetric] by metis
qed

text \<open>A backbone node, 10.0.0.3, that serves 10.0.0.1, between the two nodes of \<open>pair_mesh\<close>.\<close>

definition hub_iface :: Ipv4InterfaceAddress where
  "hub_iface = test_iface\<lparr>GetLocal := 0x0a000003\<rparr>"

definition hub_env :: env where
  "hub_env = test_env\<lparr>GetAddress := (\<lambda>i. hub_iface)\<rparr>"

definition hub_node :: node where
  "hub_node = idle_node\<lparr>m_socketAddresses := [(3, hub_iface)],
     m_nb := (Neighbors_SetCallback (Neighbors_new 6))\<lparr>localNeighborList :=
       [(NeighborTuple_new ns3_library 0x0a000001 0 100)\<lparr>neighborClient := True\<rparr>]\<rparr>,
     cluster := Clustering_new\<lparr>m_localNodeStatus := NEIGH_NODE\<rparr>\<rparr>"

definition line_mesh :: mesh where
  "line_mesh = \<lparr>at = (\<lambda>i. if i = 1 then hub_node else if i = 2 then far_node else idle_node), air = []\<rparr>"

lemma hub_relays: "relays hub_env 1 3 hub_iface 0x0a000001 0x0a000002 1 hub_node"
proof -
  have "Neighbors_wf (m_nb hub_node)"
    by (simp add: hub_node_def Neighbors_wf_def Neighbors_SetCallback_def Neighbors_new_def NeighborTuple_new_def)
  then have "node_wf hub_node"
    using idle_node_facts(1) by (simp add: hub_node_def node_wf_def map_ok_Cons)
  moreover have "route_of (aged 1 hub_node) a = None" for a
    by (simp add: hub_node_def idle_node_def node_new_def Let_def RoutingTable_new_def route_of_def aged_def
        RoutingTable_Purge_simp table_map_def purge_entries_def map_filter_simps)
  moreover have "serves 1 hub_node 0x0a000001" "0 \<le> ActiveRouteTimeout (par hub_node)"
    "\<not> fst (IdCache_IsDuplicate 1 0x0a000001 1 (m_rreqIdCache hub_node))"
    "FindSocketWithInterfaceAddress (iface_of hub_env (GetLocal hub_iface)) hub_node = Some 3"
    "map_of (m_socketAddresses hub_node) 3 = Some hub_iface" "\<not> IsMyOwnAddress hub_node 0x0a000001"
    "\<not> IsMyOwnAddress hub_node 0x0a000002"
    by code_simp+
  ultimately show ?thesis by (simp add: relays_def)
qed

theorem two_hop_discovery_witness:
  "\<exists>s1 s2 s3 s4 s5 rt rk bound. mesh_step ns3_library net_buffer bound 0 line_mesh s1 \<and> mesh_step ns3_library net_buffer bound 1 s1 s2
     \<and> mesh_step ns3_library net_buffer bound 2 s2 s3 \<and> mesh_step ns3_library net_buffer bound 3 s3 s4
     \<and> mesh_step ns3_library net_buffer bound 4 s4 s5
     \<and> route_of (at s5 0) 0x0a000002 = Some rt \<and> rt_flag rt = VALID \<and> GetNextHop rt = 0x0a000003 \<and> rt_hops rt = 2
     \<and> route_of (at s5 1) 0x0a000002 = Some rk \<and> GetNextHop rk = 0x0a000002"
proof -
  let ?p = "\<lparr>GetUid = 4, deferred_tag = Some (- 1)\<rparr> :: packet"
  let ?h = "\<lparr>GetSource = 0x0a000001, GetDestination = 0x0a000002, GetTtl = 5\<rparr> :: Ipv4Header"
  let ?bound = "\<lambda>i s. if i = 1 then 0x0a000003 else if i = (2 :: nat) then 0x0a000002 else 0x0a000001 :: ipv4addr"
  have env: "lib test_env = ns3_library" "buf test_env = net_buffer" "lib hub_env = ns3_library" "buf hub_env = net_buffer"
    "lib far_env = ns3_library" "buf far_env = net_buffer"
    by (simp_all add: far_env_def hub_env_def test_env_def)
  have nodes: "at line_mesh 0 = idle_node" "at line_mesh 1 = hub_node" "at line_mesh 2 = far_node" by (simp_all add: line_mesh_def)
  have "0 \<le> sint (GetInterfaceForDevice test_env (m_lo idle_node))" "m_rreqCount idle_node \<noteq> RreqRateLimit (par idle_node)"
    "0 \<le> ActiveRouteTimeout (par idle_node)" "4 \<le> 0 + m_queueTimeout (m_rqueue idle_node)" "3 \<le> 1 + reverse_lifetime hub_node 1"
    by code_simp+
  then have asks: "asks test_env 0 ?p ?h (at line_mesh 0)" "4 \<le> 0 + m_queueTimeout (m_rqueue (at line_mesh 0))"
    "3 \<le> 1 + reverse_lifetime (at line_mesh 1) 1"
    unfolding nodes by (simp_all add: asks_def idle_node_facts)
  have addr: "GetLocal test_iface = 0x0a000001" "GetLocal hub_iface = 0x0a000003" "GetLocal far_iface = 0x0a000002"
    by (simp_all add: test_iface_def hub_iface_def far_iface_def)
  have request: "m_requestId idle_node + 1 = 1" by code_simp
  have relays: "relays hub_env 1 3 hub_iface (GetLocal test_iface) 0x0a000002 (m_requestId (at line_mesh 0) + 1) (at line_mesh 1)"
    unfolding nodes addr request by (rule hub_relays)
  have "\<not> fst (IdCache_IsDuplicate 2 0x0a000001 1 (m_rreqIdCache far_node))"
    unfolding far_node_facts(3) by code_simp
  then have answers: "answers far_env 2 3 far_iface (GetLocal hub_iface) (GetLocal test_iface) (m_requestId (at line_mesh 0) + 1) (at line_mesh 2)"
    unfolding nodes answers_def addr request using far_node_facts(1,2)
    by (simp add: far_node_def FindSocketWithInterfaceAddress_def iface_of_def far_env_def)
  have sock: "m_socketAddresses (at line_mesh 0) = (3, test_iface) # []" "map_of (m_socketAddresses (at line_mesh 1)) 3 = Some hub_iface"
    unfolding nodes by (simp_all only: idle_node_facts) (simp add: hub_node_def)
  have rest: "distinct [0, 1, 2 :: nat]" "0x0a000002 = GetDestination ?h" "?bound 0 3 = GetLocal test_iface" "?bound 1 3 = GetLocal hub_iface"
    "?bound 2 3 = 0x0a000002" "GetLocal test_iface \<noteq> 0x0a000002" "\<forall>k\<ge>0. 0 \<le> MilliSeconds (unit_of_time test_env) k"
    "\<forall>k\<ge>0. 0 \<le> MilliSeconds (unit_of_time hub_env) k"
    by (simp_all add: addr hub_env_def test_env_def nanoseconds_def)
  from two_hop_discovery [OF rest(1) net_buffer_laws env asks(1) sock(1) rest(2) relays sock(2) answers addr(3) rest(3,4,4,5,6)
      asks(3,2) rest(7,8)]
  show ?thesis unfolding addr(2) by blast
qed

end
