(* ===== verification/Mesh_Error.thy ===== *)
theory Mesh_Error
  imports Mesh_Relay
begin

text \<open>
  A route error between two nodes of a mesh: a node loses a neighbour and tells those who send through it.
\<close>

section \<open>The node that loses a neighbour\<close>

lemma neighbours_apart:
  "route_of (aged now (n\<lparr>m_nb := nb\<rparr>)) = route_of (aged now n)" "broken now (n\<lparr>m_nb := nb\<rparr>) = broken now n"
  "precursors_of E now (n\<lparr>m_nb := nb\<rparr>) = precursors_of E now n"
  by (simp_all add: route_of_def aged_def broken_def precursors_of_def fun_eq_iff)

lemma broken_known: "broken now n hop a \<Longrightarrow> \<exists>rt. route_of (aged now n) a = Some rt"
  by (auto simp: broken_def)

text \<open>A node that is about to notice that \<open>hop\<close>, and no other neighbour, has gone, and may tell a precursor.\<close>

definition loses :: "env \<Rightarrow> time \<Rightarrow> ipv4addr \<Rightarrow> node \<Rightarrow> bool" where
  "loses E now hop n \<longleftrightarrow> node_wf n \<and> m_ntimer (m_nb n) = Some now \<and> snd (Neighbors_Purge now (m_nb n)) = [hop]
     \<and> m_rerrRateLimitTimer n \<noteq> None \<and> sockets_for_routes now n \<and> card {a. broken now n hop a} \<le> 255
     \<and> m_rerrCount n \<noteq> RerrRateLimit (par n)
     \<and> (\<exists>a p rt. broken now n hop a \<and> p \<in> precursors_of E now n a \<and> route_of (aged now n) p = Some rt \<and> rt_flag rt = VALID)"

lemma loss_step:
  assumes "loses E now hop (at s k)" "lib E = L" "buf E = B" "\<forall>sk. bound k sk = src"
    and "bad = m_badLinkLifetime (m_routingTable (at s k))"
  shows "\<exists>n f h. mesh_step L B bound now s (mesh_after B bound k n s) \<and> f \<in> set (air (mesh_after B bound k n s))
    \<and> frame_source f = src \<and> frame_bytes f = wire B (Rerr h) \<and> RerrHeader_wf h
    \<and> (\<forall>a. map_of (m_unreachableDstSeqNo h) a \<noteq> None \<longleftrightarrow> broken now (at s k) hop a)
    \<and> (\<forall>a. route_of n a = map_option (if broken now (at s k) hop a then given_up (bad + now) else id)
        (route_of (aged now (at s k)) a))"
proof -
  let ?n = "at s k"
  obtain nb where nb: "Neighbors_Purge now (m_nb ?n) = (nb, [hop])"
    using assms(1) unfolding loses_def by (metis prod.collapse)
  define m where "m = ?n\<lparr>m_nb := nb\<rparr>"
  have l: "node_wf ?n" "m_ntimer (m_nb ?n) = Some now" "m_rerrRateLimitTimer ?n \<noteq> None" "sockets_for_routes now ?n"
    using assms(1) by (simp_all add: loses_def)
  have "Neighbors_wf nb" using Purge_wf [of "m_nb ?n" now] l(1) nb by (simp add: node_wf_def)
  then have m: "node_wf m" "m_rerrRateLimitTimer m \<noteq> None" "bad = m_badLinkLifetime (m_routingTable m)" "out m = out ?n"
    "m_rerrCount m = m_rerrCount ?n" "par m = par ?n"
    using node_wf_field(2) [OF l(1)] l(3) assms(5) by (simp_all add: m_def)
  note apart = neighbours_apart [where n = ?n and nb = nb, folded m_def]
  have sockets: "sockets_for_routes now m"
    by (rule sockets_same [OF same_routes_table _ l(4)]) (simp_all add: m_def node_wf_parts(1) [OF l(1)])
  have "card {a. broken now m hop a} \<le> 255" using assms(1) by (simp add: apart loses_def)
  from link_break_sent [OF m(1,2) sockets m(3) this, of E] obtain n es where
    n: "SendRerrWhenBreaksLinkToNextHop E now hop m = Some n" "out n = out ?n @ es"
      "\<forall>a. route_of n a = map_option (if broken now ?n hop a then given_up (bad + now) else id) (route_of (aged now ?n) a)"
      "\<forall>e\<in>set es. \<exists>s h b. e = SendTo s (Rerr h) b \<and> (\<forall>a. map_of (m_unreachableDstSeqNo h) a =
        (if broken now ?n hop a then map_option rt_seqNo (route_of (aged now ?n) a) else None))"
      "es = [] \<longleftrightarrow> m_rerrCount ?n = RerrRateLimit (par ?n) \<or> (\<forall>a p rt. broken now ?n hop a \<longrightarrow> p \<in> precursors_of E now ?n a \<longrightarrow>
           route_of (aged now ?n) p = Some rt \<longrightarrow> rt_flag rt \<noteq> VALID)"
    unfolding m(4-6) apart by (elim exE conjE) (rule that)
  have "es \<noteq> []" using assms(1) unfolding n(5) loses_def by blast
  then obtain sk h b where e: "SendTo sk (Rerr h) b \<in> set es" "\<forall>a. map_of (m_unreachableDstSeqNo h) a =
        (if broken now ?n hop a then map_option rt_seqNo (route_of (aged now ?n) a) else None)"
    using n(4) by (metis list.set_intros(1) neq_Nil_conv)
  have step: "node_step E now NeighborTimer ?n n"
    by (rule node_step.neighbor_timer [OF l(2)]) (use n(1) nb in \<open>simp add: nb_timer_expire_def m_def\<close>)
  have "mesh_step L B bound now s (mesh_after B bound k n s)"
    by (rule mesh_step.node [OF assms(2,3) _ step]) simp
  moreover obtain es' where "out n = out ?n @ es'" "\<forall>e\<in>set es'. effect_ok e" using step_effects [OF step l(1)] by blast
  then have "effect_ok (SendTo sk (Rerr h) b)" using e(1) n(2) by fastforce
  then have "RerrHeader_wf h" by (simp add: message_ok.simps)
  moreover have "\<lparr>frame_source = src, frame_target = b, frame_bytes = wire B (Rerr h)\<rparr> \<in> set (frames_of B (bound k) es)"
    unfolding frames_of_sent using assms(4) by (intro exI conjI) (rule e(1), simp)
  then have "\<lparr>frame_source = src, frame_target = b, frame_bytes = wire B (Rerr h)\<rparr> \<in> set (air (mesh_after B bound k n s))"
    using n(2) by (simp add: mesh_after_def)
  then have "\<exists>f\<in>set (air (mesh_after B bound k n s)). frame_source f = src \<and> frame_bytes f = wire B (Rerr h)"
    by (rule bexI [rotated]) (simp only: frame.simps simp_thms)
  moreover have "\<forall>a. map_of (m_unreachableDstSeqNo h) a \<noteq> None \<longleftrightarrow> broken now ?n hop a"
    using broken_known by (auto simp: e(2))
  ultimately show ?thesis using n(3) by blast
qed

section \<open>The node that is told\<close>

text \<open>A node that can act on a route error: its timer runs, and it has sockets for its valid routes and for the interface.\<close>

definition listens :: "env \<Rightarrow> time \<Rightarrow> socket \<Rightarrow> Ipv4InterfaceAddress \<Rightarrow> node \<Rightarrow> bool" where
  "listens E now sk iface n \<longleftrightarrow> node_wf n \<and> m_rerrRateLimitTimer n \<noteq> None \<and> 0 \<le> ActiveRouteTimeout (par n)
     \<and> map_of (m_socketAddresses n) sk = Some iface \<and> sockets_for_routes now n
     \<and> FindSocketWithInterfaceAddress (iface_of E (GetLocal iface)) n \<noteq> None"

lemma refresh_sockets:
  assumes "listens E now sk iface n" "m = UpdateRouteToNeighbor E now src (GetLocal iface) n"
  shows "sockets_for_routes now m"
proof -
  have l: "RoutingTable_wf (m_routingTable n)" "0 \<le> ActiveRouteTimeout (par n)" "sockets_for_routes now n"
    "FindSocketWithInterfaceAddress (iface_of E (GetLocal iface)) n \<noteq> None"
    using assms(1) by (simp_all add: listens_def node_wf_parts(1))
  note m = refresh_route [OF l(1,2) assms(2)]
  obtain r where r: "route_of m = (route_of (aged now n))(src \<mapsto> r)"
    "neighbour_entry (route_of (aged now n) src) src (iface_of E (GetLocal iface)) r"
    using m(4) by blast
  have "m_socketAddresses m = m_socketAddresses n" using m(2) by auto
  note find = find_socket_frame [OF this]
  show ?thesis
    using l(3,4) r(2) unfolding sockets_for_routes_def stable_aged [OF m(1)] r(1) find neighbour_entry_def
    by (auto split: if_splits)
qed

lemma told_step:
  assumes "listens E now sk iface (at s i)" "buffer_laws B" "lib E = L" "buf E = B"
    and "f \<in> set (air s)" "frame_source f = src" "frame_bytes f = wire B (Rerr h)" "RerrHeader_wf h"
    and "bad = m_badLinkLifetime (m_routingTable (at s i))"
  shows "\<exists>n. mesh_step L B bound now s (mesh_after B bound i n s)
    \<and> (\<forall>a. a \<noteq> src \<longrightarrow> route_of n a = map_option (\<lambda>rt. if GetNextHop rt = src \<and> map_of (m_unreachableDstSeqNo h) a \<noteq> None
        then given_up (bad + now) rt else rt) (route_of (aged now (at s i)) a))"
proof -
  let ?n = "at s i"
  define m where "m = UpdateRouteToNeighbor E now src (GetLocal iface) ?n"
  have l: "node_wf ?n" "m_rerrRateLimitTimer ?n \<noteq> None" "0 \<le> ActiveRouteTimeout (par ?n)" "map_of (m_socketAddresses ?n) sk = Some iface"
    using assms(1) by (simp_all add: listens_def)
  note m = refresh_route [OF node_wf_parts(1) [OF l(1)] l(3) m_def]
  have "node_wf m" using m(2) node_wf_field(1) [OF l(1)] stable_wf [OF m(1)] by auto
  moreover have "m_rerrRateLimitTimer m \<noteq> None" using m(2) l(2) by auto
  moreover have "bad = m_badLinkLifetime (m_routingTable m)" by (simp add: m(3) assms(9))
  ultimately obtain n where n: "handle_error E now h src m = Some n"
    "\<forall>a. route_of n a = map_option (if lost now m src h a \<noteq> None then given_up (bad + now) else id) (route_of (aged now m) a)"
    using error_sent [OF _ assms(8) _ refresh_sockets [OF assms(1) m_def], of bad E src] by blast
  have run: "RecvAodv E now sk src (wire B (Rerr h) @ []) ?n = Some n"
    using receive_message [OF _ node_wf_parts(7) [OF l(1)] l(4) _ m_def, of "Rerr h" "[]"] n(1) assms(2,4,8) by simp
  have "mesh_step L B bound now s (mesh_after B bound i n s)"
    by (rule deliver_step [OF assms(5,3,4), where sk = sk and padding = "[]"]) (use run assms(6,7) in simp)
  moreover have "route_of n a = map_option (\<lambda>rt. if GetNextHop rt = src \<and> map_of (m_unreachableDstSeqNo h) a \<noteq> None
        then given_up (bad + now) rt else rt) (route_of (aged now ?n) a)" if "a \<noteq> src" for a
  proof -
    have "route_of (aged now m) a = route_of (aged now ?n) a" using m(4) that by (auto simp: stable_aged [OF m(1)])
    then show ?thesis using n(2) by (cases "route_of (aged now ?n) a") (simp_all add: lost_def)
  qed
  ultimately show ?thesis by blast
qed

text \<open>C5: A route error travels back. When a node notices that a neighbour has gone, and may report it to a precursor,
  every valid route through that neighbour becomes invalid, and there is a frame in the air with which any
  node that receives it gives up exactly its valid routes to these destinations that lead through the sender,
  and keeps all others, the route to the sender apart, which receiving the frame refreshes.\<close>

theorem mesh_error:
  assumes "i \<noteq> k" and "buffer_laws B" and "lib Ek = L" and "buf Ek = B" and "lib Ei = L" and "buf Ei = B"
    and "loses Ek t0 hop (at s k)" and "\<forall>sk. bound k sk = src" and "listens Ei t1 si ii (at s i)"
    and "lifetime = (\<lambda>j. m_badLinkLifetime (m_routingTable (at s j)))"
  shows "\<exists>s1 s2. mesh_step L B bound t0 s s1 \<and> mesh_step L B bound t1 s1 s2
    \<and> (\<forall>a. route_of (at s2 k) a =
        map_option (if broken t0 (at s k) hop a then given_up (lifetime k + t0) else id) (route_of (aged t0 (at s k)) a))
    \<and> (\<forall>a. a \<noteq> src \<longrightarrow> route_of (at s2 i) a = map_option (\<lambda>rt.
          if GetNextHop rt = src \<and> broken t0 (at s k) hop a then given_up (lifetime i + t1) rt else rt) (route_of (aged t1 (at s i)) a))"
proof -
  obtain n f h where n: "mesh_step L B bound t0 s (mesh_after B bound k n s)" "f \<in> set (air (mesh_after B bound k n s))"
    "frame_source f = src" "frame_bytes f = wire B (Rerr h)" "RerrHeader_wf h"
    "\<forall>a. map_of (m_unreachableDstSeqNo h) a \<noteq> None \<longleftrightarrow> broken t0 (at s k) hop a"
    "\<forall>a. route_of n a = map_option (if broken t0 (at s k) hop a then given_up (lifetime k + t0) else id) (route_of (aged t0 (at s k)) a)"
    using loss_step [where bound = bound, OF assms(7,3,4,8) refl] unfolding assms(10) by blast
  define s1 where "s1 = mesh_after B bound k n s"
  have at1: "at s1 k = n" "at s1 i = at s i" using assms(1) by (simp_all add: s1_def)
  obtain m where m: "mesh_step L B bound t1 s1 (mesh_after B bound i m s1)"
    "\<forall>a. a \<noteq> src \<longrightarrow> route_of m a = map_option (\<lambda>rt. if GetNextHop rt = src \<and> map_of (m_unreachableDstSeqNo h) a \<noteq> None
        then given_up (lifetime i + t1) rt else rt) (route_of (aged t1 (at s i)) a)"
    using told_step [of Ei t1 si ii s1 i B L f src h "lifetime i" bound] assms(2,5,6,9) n(2-5) at1
    unfolding s1_def [symmetric] assms(10) by auto
  have "at (mesh_after B bound i m s1) k = n" "at (mesh_after B bound i m s1) i = m" using assms(1) at1 by simp_all
  then show ?thesis
    using n(1,7) m unfolding n(6) [rule_format] s1_def [symmetric]
    by (intro exI [of _ s1] exI [of _ "mesh_after B bound i m s1"]) simp
qed

text \<open>The node of \<open>middle_node\<close> loses 4; its neighbour with address 6 reaches 5 through it.\<close>

definition leaving_node :: node where
  "leaving_node = middle_node\<lparr>m_nb := (Neighbors_SetCallback (Neighbors_new 6))\<lparr>localNeighborList :=
     [(NeighborTuple_new ns3_library 4 0 100)\<lparr>nt_close := True\<rparr>], m_ntimer := Some 0\<rparr>\<rparr>"

definition six_iface :: Ipv4InterfaceAddress where
  "six_iface = test_iface\<lparr>GetLocal := 6\<rparr>"

definition six_node :: node where
  "six_node = idle_node\<lparr>m_socketAddresses := [(3, six_iface)], m_rerrRateLimitTimer := Some 5, m_routingTable :=
     \<lparr>m_ipv4AddressEntry = [(5, RoutingTableEntry_new 0 1 5 True 7 six_iface 3 0x0a000001 20)], m_badLinkLifetime = 15\<rparr>\<rparr>"

lemma leaving_loses: "loses test_env 0 4 leaving_node"
proof -
  define nb where "nb = (Neighbors_SetCallback (Neighbors_new 6))\<lparr>localNeighborList :=
     [(NeighborTuple_new ns3_library 4 0 100)\<lparr>nt_close := True\<rparr>], m_ntimer := Some 0\<rparr>"
  have node: "leaving_node = middle_node\<lparr>m_nb := nb\<rparr>" by (simp add: leaving_node_def nb_def)
  have "Neighbors_wf nb"
    by (simp add: nb_def Neighbors_wf_def Neighbors_SetCallback_def Neighbors_new_def NeighborTuple_new_def)
  then have wf: "node_wf leaving_node" unfolding node by (rule node_wf_field(2) [OF middle_node_facts(1)])
  have sockets: "sockets_for_routes 0 leaving_node"
    by (rule sockets_same [OF same_routes_table _ middle_node_facts(3)])
      (simp_all add: node node_wf_parts(1) [OF middle_node_facts(1)])
  have "length (snd (destinations_via 0 4 middle_node)) < 255" by code_simp
  then have few: "card {a. broken 0 leaving_node 4 a} \<le> 255"
    using broken_few [OF node_wf_parts(1) [OF middle_node_facts(1)], of 0 4] by (simp add: node neighbours_apart)
  have "route_of (aged 0 middle_node) 4 \<noteq> None" by code_simp
  then have "broken 0 leaving_node 4 5"
    by (simp add: node neighbours_apart broken_def middle_node_facts(4) GetNextHop_def RoutingTableEntry_new_def)
  moreover have "6 \<in> precursors_of test_env 0 leaving_node 5"
    by (simp add: node neighbours_apart precursors_of_def middle_node_facts(4) entry_or_default_def found_def)
  moreover have "route_of (aged 0 leaving_node) 6 = Some (RoutingTableEntry_new 0 1 6 True 2 test_iface 1 6 20)"
    by (simp add: node neighbours_apart middle_node_facts(5))
  moreover have "m_ntimer (m_nb leaving_node) = Some 0" "snd (Neighbors_Purge 0 (m_nb leaving_node)) = [4]"
    "m_rerrCount leaving_node \<noteq> RerrRateLimit (par leaving_node)" by code_simp+
  moreover have "m_rerrRateLimitTimer leaving_node \<noteq> None" using middle_node_facts(2) by (simp add: node)
  moreover have "rt_flag (RoutingTableEntry_new 0 1 6 True 2 test_iface 1 6 20) = VALID" by simp
  ultimately show ?thesis using wf sockets few unfolding loses_def by blast
qed

lemma six_listens:
  "listens (test_env\<lparr>GetAddress := (\<lambda>i. six_iface)\<rparr>) 1 3 six_iface six_node"
  "route_of (aged 1 six_node) = [5 \<mapsto> RoutingTableEntry_new 0 1 5 True 7 six_iface 3 0x0a000001 20]"
proof -
  have wf: "RoutingTable_wf (m_routingTable six_node)" by (simp add: six_node_def RoutingTable_wf_def map_ok_Cons)
  have "route_of six_node = [5 \<mapsto> RoutingTableEntry_new 0 1 5 True 7 six_iface 3 0x0a000001 20]"
    by (simp add: six_node_def route_of_def table_map_def fun_eq_iff)
  then show routes: "route_of (aged 1 six_node) = [5 \<mapsto> RoutingTableEntry_new 0 1 5 True 7 six_iface 3 0x0a000001 20]"
    by (intro ext) (simp add: route_of_aged [OF wf] age_entry_def GetLifeTime_def)
  have "node_wf six_node" using wf idle_node_facts(1) by (simp add: six_node_def node_wf_def map_ok_Cons)
  moreover have "0 \<le> ActiveRouteTimeout (par six_node)" by code_simp
  ultimately show "listens (test_env\<lparr>GetAddress := (\<lambda>i. six_iface)\<rparr>) 1 3 six_iface six_node"
    unfolding listens_def sockets_for_routes_def routes
    by (simp add: six_node_def FindSocketWithInterfaceAddress_def iface_of_def)
qed

theorem mesh_error_witness:
  "\<exists>s1 s2. mesh_step ns3_library net_buffer (\<lambda>i s. if i = 0 then 0x0a000001 else 6) 0
       \<lparr>at = (\<lambda>i. if i = 0 then leaving_node else six_node), air = []\<rparr> s1
     \<and> mesh_step ns3_library net_buffer (\<lambda>i s. if i = 0 then 0x0a000001 else 6) 1 s1 s2
     \<and> map_option rt_flag (route_of (at s2 0) 5) = Some INVALID \<and> map_option rt_flag (route_of (at s2 1) 5) = Some INVALID"
proof -
  let ?s = "\<lparr>at = (\<lambda>i. if i = 0 then leaving_node else six_node), air = []\<rparr> :: mesh"
  let ?bound = "\<lambda>i s. if i = (0 :: nat) then 0x0a000001 else 6 :: ipv4addr"
  let ?E = "test_env\<lparr>GetAddress := (\<lambda>i. six_iface)\<rparr>"
  have env: "lib test_env = ns3_library" "buf test_env = net_buffer" "lib ?E = ns3_library" "buf ?E = net_buffer"
    by (simp_all add: test_env_def)
  have nodes: "at ?s 0 = leaving_node" "at ?s 1 = six_node" by simp_all
  have at: "loses test_env 0 4 (at ?s 0)" "\<forall>sk. ?bound 0 sk = 0x0a000001" "listens ?E 1 3 six_iface (at ?s 1)"
    unfolding nodes using leaving_loses six_listens(1) by simp_all
  have same: "route_of (aged 0 leaving_node) = route_of (aged 0 middle_node)" "broken 0 leaving_node = broken 0 middle_node"
    by (simp_all add: leaving_node_def neighbours_apart)
  have "route_of (aged 0 middle_node) 4 \<noteq> None" by code_simp
  then have broken: "broken 0 leaving_node 4 5"
    by (simp add: same broken_def middle_node_facts(4) GetNextHop_def RoutingTableEntry_new_def)
  have ne: "(1 :: nat) \<noteq> 0" by simp
  from mesh_error [where bound = ?bound and s = ?s, OF ne net_buffer_laws env at refl] obtain s1 s2 where
    s: "mesh_step ns3_library net_buffer ?bound 0 ?s s1" "mesh_step ns3_library net_buffer ?bound 1 s1 s2"
      "route_of (at s2 0) 5 = map_option (given_up (m_badLinkLifetime (m_routingTable leaving_node) + 0)) (route_of (aged 0 leaving_node) 5)"
      "route_of (at s2 1) 5 = map_option (\<lambda>rt. if GetNextHop rt = 0x0a000001 \<and> broken 0 leaving_node 4 5
          then given_up (m_badLinkLifetime (m_routingTable six_node) + 1) rt else rt) (route_of (aged 1 six_node) 5)"
    unfolding nodes using broken by force
  have "map_option rt_flag (route_of (at s2 0) 5) = Some INVALID"
    unfolding s(3) same middle_node_facts(4) by (simp add: given_up_def)
  moreover have "map_option rt_flag (route_of (at s2 1) 5) = Some INVALID"
    unfolding s(4) six_listens(2) using broken by (simp add: given_up_def)
  ultimately show ?thesis using s(1,2) by blast
qed

end
