(* ===== verification/Printing.thy ===== *)
theory Printing
  imports Protocol_State "HOL-Library.Char_ord"
begin

text \<open>
  What the program prints: the headers (\<open>Print\<close> of \<open>model/aodv-packet.cc\<close>, to which each
  \<open>operator<<\<close> delegates), the tuples of \<open>aodv-common.h\<close> and \<open>aodv-neighbor.h\<close>, the routing table
  (\<open>aodv-rtable.cc\<close>) and the node's own dump and log (\<open>aodv-routing-protocol.cc\<close>, \<open>aodv-neighbor.cc\<close>);
  and the names under which the header classes are registered. A \<open>Print\<close> is the string it writes.

  How an address and a number of seconds look is the library's: the record \<open>printer\<close>. The seconds
  are doubles, written as the stream is set: \<open>show_seconds P True\<close> after \<open>std::fixed\<close> and
  \<open>setprecision (2)\<close>, which stay set once the routing table has used them. An integer is written in decimal, a
  \<open>bool\<close> as 0 or 1, an enumerator as its code, and a \<open>uint8_t\<close>, being a character type, as that character.
\<close>

record printer =
  show_address :: "ipv4addr \<Rightarrow> string"
  show_seconds :: "bool \<Rightarrow> time \<Rightarrow> string"

section \<open>Numbers\<close>

definition digit :: "nat \<Rightarrow> char" where
  "digit n = char_of (48 + n)"

fun show_nat :: "nat \<Rightarrow> string" where
  "show_nat n = (if n < 10 then [digit n] else show_nat (n div 10) @ [digit (n mod 10)])"

declare show_nat.simps [simp del]

definition show_bool :: "bool \<Rightarrow> string" where
  "show_bool b = (if b then ''1'' else ''0'')"

definition show_u8 :: "u8 \<Rightarrow> string" where
  "show_u8 w = [char_of (unat w)]"

text \<open>\<open>std::setw (n)\<close> with \<open>std::left\<close>.\<close>

definition pad_right :: "nat \<Rightarrow> string \<Rightarrow> string" where
  "pad_right n s = s @ replicate (n - length s) (CHR '' '')"

section \<open>Headers\<close>

definition newline :: string where "newline = [CHR 0x0A]"
definition tab :: string where "tab = [CHR 0x09]"

fun TypeHeader_Print :: "MessageType \<Rightarrow> string" where
  "TypeHeader_Print AODVTYPE_RREQ = ''RREQ''"
| "TypeHeader_Print AODVTYPE_RREP = ''RREP''"
| "TypeHeader_Print AODVTYPE_RERR = ''RERR''"
| "TypeHeader_Print AODVTYPE_RREP_ACK = ''RREP_ACK''"
| "TypeHeader_Print TYPE_HELLO = ''HELLO''"

definition TypeHeader_eq :: "TypeHeader \<Rightarrow> TypeHeader \<Rightarrow> bool" where
  "TypeHeader_eq h p \<longleftrightarrow> m_type h = m_type p \<and> m_valid h = m_valid p"

fun print_bn_neighbors :: "printer \<Rightarrow> MulticastBnNeighborSet \<Rightarrow> string" where
  "print_bn_neighbors P [] = []"
| "print_bn_neighbors P (t # ts) =
     tab @ ''| '' @ show_address P (twoHopBnNeighborIfaceAddr t) @ '' |.| ''
     @ show_nat (unat (twoHopBnNeighborWeight t)) @ '' |.| ''
     @ show_nat (indicator_code (twoHopBnNeighborIndicator t)) @ '' |'' @ newline
     @ print_bn_neighbors P ts"

definition HelloHeader_Print :: "printer \<Rightarrow> HelloHeader \<Rightarrow> string" where
  "HelloHeader_Print P h =
     ''| '' @ show_nat (NodeStatus_code (m_nodeStatus h)) @ '' | ''
     @ show_nat (indicator_code (m_bnBcnIndicator h)) @ '' | '' @ show_nat (unat (m_listSize h)) @ '' |'' @ newline
     @ ''| '' @ show_nat (unat (m_messageLength h)) @ '' | ''
     @ show_nat (unat (m_helloSequenceNumber h)) @ '' |'' @ newline @ ''|''
     @ show_address P (m_nodeIdentifier h) @ '' |'' @ newline @ ''|''
     @ show_address P (m_associatedBnIdentifier h)
     @ '' |'' @ newline @ ''| '' @ show_nat (unat (m_helloWeightSize h)) @ '' | ''
     @ show_nat (WeightFunction_code (m_weightFunction h)) @ '' |'' @ newline
     @ ''| '' @ show_nat (unat (m_weightValue h)) @ '' |'' @ newline
     @ (if m_listSize h > 0 then print_bn_neighbors P (m_MulticastBnNeighbors h) else [])"

definition RreqHeader_Print :: "printer \<Rightarrow> RreqHeader \<Rightarrow> string" where
  "RreqHeader_Print P h =
     ''RREQ ID '' @ show_nat (unat (rreq_requestID h)) @ '' destination: ipv4 '' @ show_address P (rreq_dst h)
     @ '' sequence number '' @ show_nat (unat (rreq_dstSeqNo h)) @ '' source: ipv4 ''
     @ show_address P (rreq_origin h) @ '' sequence number '' @ show_nat (unat (rreq_originSeqNo h))
     @ '' flags:'' @ '' Gratuitous RREP '' @ show_bool (RreqHeader_GetGratiousRrep h)
     @ '' Destination only '' @ show_bool (RreqHeader_GetDestinationOnly h)
     @ '' Unknown sequence number '' @ show_bool (RreqHeader_GetUnknownSeqno h)"

definition RrepHeader_Print :: "printer \<Rightarrow> RrepHeader \<Rightarrow> string" where
  "RrepHeader_Print P h =
     ''destination: ipv4 '' @ show_address P (rrep_dst h) @ '' sequence number ''
     @ show_nat (unat (rrep_dstSeqNo h))
     @ (if rrep_prefixSize h \<noteq> 0 then '' prefix size '' @ show_u8 (rrep_prefixSize h) else [])
     @ '' source ipv4 '' @ show_address P (rrep_origin h) @ '' lifetime '' @ show_nat (unat (rrep_lifeTime h))
     @ '' acknowledgment required flag '' @ show_bool (RrepHeader_GetAckRequired h)"

definition RrepAckHeader_Print :: "RrepAckHeader \<Rightarrow> string" where
  "RrepAckHeader_Print h = []"

fun print_destinations :: "printer \<Rightarrow> (ipv4addr \<times> u32) list \<Rightarrow> string" where
  "print_destinations P [] = []"
| "print_destinations P (j # js) =
     show_address P (fst j) @ '', '' @ show_nat (unat (snd j)) @ print_destinations P js"

definition RerrHeader_Print :: "printer \<Rightarrow> RerrHeader \<Rightarrow> string" where
  "RerrHeader_Print P h =
     ''Unreachable destination (ipv4 address, seq. number):'' @ print_destinations P (m_unreachableDstSeqNo h)
     @ ''No delete flag '' @ show_bool (RerrHeader_GetNoDelete h)"

section \<open>Neighbour tuples\<close>

fun indicator_text :: "core_noncore_Indicator \<Rightarrow> string" where
  "indicator_text CONVERT_BREAK = ''BREAK''"
| "indicator_text CONVERT_ALLOW = ''ALLOW''"
| "indicator_text CONVERT_OTHER = ''OTHER''"

fun status_text :: "NodeStatus \<Rightarrow> string" where
  "status_text RN_NODE = ''RN''"
| "status_text NEIGH_NODE = ''BN''"
| "status_text CORE = ''BCN''"

text \<open>The argument \<open>fx\<close> says whether the stream has been set to fixed notation.\<close>

definition MulticastBnNeighborTuple_print :: "printer \<Rightarrow> bool \<Rightarrow> MulticastBnNeighborTuple \<Rightarrow> string" where
  "MulticastBnNeighborTuple_print P fx t =
     ''[ IP: '' @ show_address P (twoHopBnNeighborIfaceAddr t)
     @ '', Ind '' @ indicator_text (twoHopBnNeighborIndicator t)
     @ '', W '' @ show_nat (unat (twoHopBnNeighborWeight t))
     @ '', T '' @ show_seconds P fx (twoHopBnNeighborTimeout t) @ '']; ''"

definition NeighborTuple_print :: "printer \<Rightarrow> bool \<Rightarrow> NeighborTuple \<Rightarrow> string" where
  "NeighborTuple_print P fx t =
     ''Neighbor(Addr='' @ show_address P (neighborIfaceAddr t)
     @ '', close='' @ show_bool (nt_close t)
     @ '', expire='' @ show_seconds P fx (m_expireTime t)
     @ '', Weight='' @ show_nat (unat (neighborWeight t))
     @ '', Status='' @ status_text (neighborNodeStatus t)
     @ '', AssBN='' @ show_address P (neighborAssociatedCORE t)
     @ '', core_noncoreInd='' @ indicator_text (neighborcore_noncoreIndicator t) @ '')''"

definition NeighborPair_print :: "printer \<Rightarrow> ipv4addr \<times> ipv4addr \<Rightarrow> string" where
  "NeighborPair_print P p =
     ''NeighborPair(neighborMainIfaceAddr='' @ show_address P (fst p)
     @ '', neighborOneIfaceAddr='' @ show_address P (snd p) @ '')''"

definition NeighborTriple_print :: "printer \<Rightarrow> ipv4addr \<times> ipv4addr \<times> ipv4addr \<Rightarrow> string" where
  "NeighborTriple_print P t = (case t of (common, one, two) \<Rightarrow>
     ''NeighborTriple(neighborMainIfaceAddr='' @ show_address P common
     @ '', neighborOneIfaceAddr='' @ show_address P one
     @ '', neighborTwoIfaceAddr='' @ show_address P two @ '')'')"

text \<open>The log lines of \<open>PrintLocalNeighborList\<close> and \<open>PrintAddressSet\<close>, one string per \<open>NS_LOG\<close> call.\<close>

definition PrintLocalNeighborList :: "printer \<Rightarrow> Neighbors \<Rightarrow> string list" where
  "PrintLocalNeighborList P nb = concat (map (\<lambda>nt. NeighborTuple_print P False nt
       # map (\<lambda>twohop. tab @ MulticastBnNeighborTuple_print P False twohop) (neighborBnNeighbors nt))
     (localNeighborList nb))"

definition PrintAddressSet :: "printer \<Rightarrow> ipv4addr list \<Rightarrow> string" where
  "PrintAddressSet P as = ''AddressSet: '' @ concat (map (\<lambda>one. show_address P one @ '','') as)"

section \<open>The routing table\<close>

text \<open>An output stream: what was written to it, and whether it was set to fixed notation.\<close>

record ostream =
  written :: string
  fixed_notation :: bool

definition put :: "string \<Rightarrow> ostream \<Rightarrow> ostream" where
  "put s os = os\<lparr>written := written os @ s\<rparr>"

fun flag_text :: "RouteFlags \<Rightarrow> string" where
  "flag_text VALID = ''UP''"
| "flag_text INVALID = ''DOWN''"
| "flag_text IN_SEARCH = ''IN_SEARCH''"

definition RoutingTableEntry_Print :: "printer \<Rightarrow> time \<Rightarrow> RoutingTableEntry \<Rightarrow> ostream \<Rightarrow> ostream" where
  "RoutingTableEntry_Print P now rt os =
     (let os = put (show_address P (route_destination (rt_route rt)) @ tab
                    @ show_address P (route_gateway (rt_route rt)) @ tab
                    @ show_address P (GetLocal (rt_iface rt)) @ tab) os;
          os = put (flag_text (rt_flag rt)) os;
          os = put tab os;
          os = os\<lparr>fixed_notation := True\<rparr>;
          os = put (pad_right 14 (show_seconds P True (rt_lifeTime rt - now))) os
      in put (tab @ show_nat (unat (rt_hops rt)) @ newline) os)"

definition RoutingTable_Print :: "printer \<Rightarrow> time \<Rightarrow> RoutingTable \<Rightarrow> ostream \<Rightarrow> ostream" where
  "RoutingTable_Print P now t os =
     (let table = m_ipv4AddressEntry (RoutingTable_Purge now t);
          os = put (newline @ ''AODVMESH Routing table'' @ newline @ ''Destination'' @ tab @ ''Gateway'' @ tab @ tab
                    @ ''Interface'' @ tab @ ''Flag'' @ tab @ ''Expire'' @ tab @ tab @ ''Hops'' @ newline) os;
          os = fold (\<lambda>i. RoutingTableEntry_Print P now (snd i)) table os
      in put newline os)"

section \<open>The node\<close>

text \<open>\<open>GetId ()\<close> of the node the stack belongs to is the argument \<open>nodeId\<close>.\<close>

definition PrintRoutingTable :: "printer \<Rightarrow> u32 \<Rightarrow> time \<Rightarrow> node \<Rightarrow> ostream \<Rightarrow> ostream" where
  "PrintRoutingTable P nodeId now n os =
     RoutingTable_Print P now (m_routingTable n)
       (put (''Node: '' @ show_nat (unat nodeId) @ '' Time: '' @ show_seconds P (fixed_notation os) now @ ''s '') os)"

definition GetLocalState :: "printer \<Rightarrow> node \<Rightarrow> string list" where
  "GetLocalState P n =
     (let c = cluster n
      in (''Node '' @ show_address P (m_mainAddress c)
          @ '', Status '' @ (if m_localNodeStatus c = NEIGH_NODE then ''BN''
                            else if m_localNodeStatus c = CORE then ''BCN'' else ''RN'')
          @ '', W='' @ show_nat (unat (m_localWeight c))
          @ '', F='' @ show_nat (WeightFunction_code (m_localWeightFunction c))
          @ '', I='' @ (if m_localcore_noncoreIndicator c = CONVERT_BREAK then ''BREAK''
                       else if m_localcore_noncoreIndicator c = CONVERT_OTHER then ''OTHER'' else ''ALLOW'')
          @ '', AssBN='' @ show_address P (m_localAssociatedCORE c)
          @ '', BNs='' @ show_nat (unat (m_localCurrentBnNeighbors c))
          @ '', lBNs='' @ show_nat (unat (m_localLastBnNeighbors c))
          @ '', ST='' @ show_seconds P False (ShortInterval (par n))
          @ '', LT='' @ show_seconds P False (LongInterval (par n)))
         # PrintLocalNeighborList P (m_nb n))"

text \<open>\<open>AssignStreams\<close>: the stream number the random variable is set to, and how many were used.\<close>

definition AssignStreams :: "int \<Rightarrow> int \<times> int" where
  "AssignStreams stream = (stream, 1)"

section \<open>Registered types\<close>

text \<open>\<open>GetTypeId\<close>: the name, the parent and the group a class is registered with.\<close>

record type_id =
  type_name :: string
  type_parent :: string
  type_group :: string

definition TypeHeader_TypeId :: type_id where
  "TypeHeader_TypeId = \<lparr>type_name = ''ns3::aodvmesh::TypeHeader'', type_parent = ''Header'', type_group = ''Aodv''\<rparr>"

definition HelloHeader_TypeId :: type_id where
  "HelloHeader_TypeId = \<lparr>type_name = ''ns3::aodvmesh::HelloHeader'', type_parent = ''Header'', type_group = ''Aodv''\<rparr>"

definition RreqHeader_TypeId :: type_id where
  "RreqHeader_TypeId = \<lparr>type_name = ''ns3::aodvmesh::RreqHeader'', type_parent = ''Header'', type_group = ''Aodv''\<rparr>"

definition RrepHeader_TypeId :: type_id where
  "RrepHeader_TypeId = \<lparr>type_name = ''ns3::aodvmesh::RrepHeader'', type_parent = ''Header'', type_group = ''Aodv''\<rparr>"

definition RrepAckHeader_TypeId :: type_id where
  "RrepAckHeader_TypeId = \<lparr>type_name = ''ns3::aodvmesh::RrepAckHeader'', type_parent = ''Header'', type_group = ''Aodv''\<rparr>"

definition RerrHeader_TypeId :: type_id where
  "RerrHeader_TypeId = \<lparr>type_name = ''ns3::aodvmesh::RerrHeader'', type_parent = ''Header'', type_group = ''Aodv''\<rparr>"

lemma registered_names_distinct:
  "distinct (map type_name [TypeHeader_TypeId, HelloHeader_TypeId, RreqHeader_TypeId, RrepHeader_TypeId,
     RrepAckHeader_TypeId, RerrHeader_TypeId])"
  by (simp add: TypeHeader_TypeId_def HelloHeader_TypeId_def RreqHeader_TypeId_def RrepHeader_TypeId_def
      RrepAckHeader_TypeId_def RerrHeader_TypeId_def)

section \<open>Reading what was printed\<close>

fun split_on :: "char \<Rightarrow> string \<Rightarrow> string list" where
  "split_on c [] = [[]]"
| "split_on c (x # xs) = (if x = c then [] # split_on c xs
     else (case split_on c xs of [] \<Rightarrow> [[x]] | w # ws \<Rightarrow> (x # w) # ws))"

lemma split_on_append: "c \<notin> set a \<Longrightarrow> split_on c (a @ c # b) = a # split_on c b"
  by (induction a) auto

lemma split_on_whole: "c \<notin> set a \<Longrightarrow> split_on c a = [a]"
  by (induction a) auto

lemma split_on_lines:
  "\<forall>a\<in>set as. c \<notin> set a \<Longrightarrow> split_on c (concat (map (\<lambda>a. a @ [c]) as) @ b) = as @ split_on c b"
  by (induction as) (simp_all add: split_on_append)

lemma word_apart:
  assumes "c \<notin> set a" "c \<notin> set b" "a @ c # r = b @ c # r'"
  shows "a = b \<and> r = r'"
  using assms
proof (induction a arbitrary: b)
  case Nil
  then show ?case by (cases b) auto
next
  case (Cons x a)
  then show ?case by (cases b) auto
qed

definition digit_value :: "char \<Rightarrow> nat" where
  "digit_value c = of_char c - 48"

definition read_nat :: "string \<Rightarrow> nat" where
  "read_nat s = foldl (\<lambda>v c. 10 * v + digit_value c) 0 s"

lemma digit_of_char: "n < 10 \<Longrightarrow> of_char (digit n) = 48 + n"
  by (simp add: digit_def)

lemma read_show_nat [simp]: "read_nat (show_nat n) = n"
proof (induction n rule: show_nat.induct)
  case (1 n)
  have "digit_value (digit k) = k" if "k < 10" for k
    using digit_of_char [OF that] by (simp add: digit_value_def)
  with 1 show ?case
    by (cases "n < 10") (simp_all add: show_nat.simps [of n] read_nat_def)
qed

lemma show_nat_inj: "show_nat m = show_nat n \<longleftrightarrow> m = n"
  using read_show_nat by metis

lemma show_nat_digits: "c \<in> set (show_nat n) \<Longrightarrow> (of_char c :: nat) \<in> {48..57}"
proof (induction n rule: show_nat.induct)
  case (1 n)
  have "(of_char (digit k) :: nat) \<in> {48..57}" if "k < 10" for k
    using digit_of_char [OF that] that by simp
  with 1 show ?case by (cases "n < 10") (auto simp: show_nat.simps [of n])
qed

lemma no_digit: "(of_char c :: nat) \<notin> {48..57} \<Longrightarrow> c \<notin> set (show_nat n)"
  using show_nat_digits by blast

text \<open>Addresses in dotted decimal, whole seconds: the instance of \<open>printer\<close> for concrete texts.\<close>

definition dotted :: "ipv4addr \<Rightarrow> string" where
  "dotted a = show_nat (unat (ucast (drop_bit 24 a) :: u8)) @ CHR ''.'' # show_nat (unat (ucast (drop_bit 16 a) :: u8))
     @ CHR ''.'' # show_nat (unat (ucast (drop_bit 8 a) :: u8)) @ CHR ''.'' # show_nat (unat (ucast a :: u8))"

definition test_printer :: printer where
  "test_printer = \<lparr>show_address = dotted,
     show_seconds = (\<lambda>fx t. show_nat (nat (t div 1000000000)) @ (if fx then ''.00'' else []))\<rparr>"

lemma dotted_inj: "inj dotted"
proof (rule injI)
  fix a b assume eq: "dotted a = dotted b"
  have parts: "split_on (CHR ''.'') (dotted a) = [show_nat (unat (ucast (drop_bit 24 a) :: u8)),
      show_nat (unat (ucast (drop_bit 16 a) :: u8)), show_nat (unat (ucast (drop_bit 8 a) :: u8)),
      show_nat (unat (ucast a :: u8))]" for a
    by (simp add: dotted_def split_on_append split_on_whole no_digit)
  have same: "x = y" if "show_nat (unat x) = show_nat (unat y)" for x y :: u8
    using that by (simp only: show_nat_inj word_unat_eq_iff)
  note all = trans [OF sym [OF parts [of a, unfolded eq]] parts [of b], unfolded list.inject]
  have "(ucast (drop_bit 24 a) :: u8) = ucast (drop_bit 24 b)" "(ucast (drop_bit 16 a) :: u8) = ucast (drop_bit 16 b)"
    "(ucast (drop_bit 8 a) :: u8) = ucast (drop_bit 8 b)" "(ucast a :: u8) = ucast b"
    using all by (blast intro: same)+
  then show "a = b" using join32 [of a] join32 [of b] by metis
qed

lemma dotted_chars: "c \<in> set (dotted a) \<Longrightarrow> c = CHR ''.'' \<or> (of_char c :: nat) \<in> {48..57}"
  unfolding dotted_def using show_nat_digits by auto

lemma test_printer_chars:
  "CHR '' '' \<notin> set (show_address test_printer a)" "CHR 0x09 \<notin> set (show_address test_printer a)"
  "CHR 0x0A \<notin> set (show_address test_printer a)"
  "CHR 0x09 \<notin> set (show_seconds test_printer fx t)" "CHR 0x0A \<notin> set (show_seconds test_printer fx t)"
  using dotted_chars [of "CHR '' ''" a] dotted_chars [of "CHR 0x09" a] dotted_chars [of "CHR 0x0A" a]
  by (auto simp: test_printer_def no_digit)

section \<open>Properties of the texts\<close>

definition entry_row :: "printer \<Rightarrow> time \<Rightarrow> RoutingTableEntry \<Rightarrow> string list" where
  "entry_row P now rt = [show_address P (route_destination (rt_route rt)), show_address P (route_gateway (rt_route rt)),
     show_address P (GetLocal (rt_iface rt)), flag_text (rt_flag rt),
     pad_right 14 (show_seconds P True (rt_lifeTime rt - now)), show_nat (unat (rt_hops rt))]"

definition joined :: "string list \<Rightarrow> string" where
  "joined ws = concat (map (\<lambda>w. w @ tab) (butlast ws)) @ last ws"

lemma entry_print:
  "RoutingTableEntry_Print P now rt os = \<lparr>written = written os @ joined (entry_row P now rt) @ newline, fixed_notation = True\<rparr>"
  by (simp add: RoutingTableEntry_Print_def put_def entry_row_def joined_def Let_def)

lemma entries_print:
  "fold (\<lambda>i. RoutingTableEntry_Print P now (snd i)) m os =
    \<lparr>written = written os @ concat (map (\<lambda>i. joined (entry_row P now (snd i)) @ newline) m),
     fixed_notation = (fixed_notation os \<or> m \<noteq> [])\<rparr>"
  by (induction m arbitrary: os) (simp_all add: entry_print)

lemma no_special:
  "CHR 0x09 \<notin> set (show_nat n)" "CHR 0x0A \<notin> set (show_nat n)" "CHR '' '' \<notin> set (show_nat n)"
  by (simp_all add: no_digit)

lemma flag_text_chars: "CHR 0x09 \<notin> set (flag_text f)" "CHR 0x0A \<notin> set (flag_text f)"
  by (cases f; simp)+

lemma split_joined:
  "ws \<noteq> [] \<Longrightarrow> \<forall>w\<in>set ws. CHR 0x09 \<notin> set w \<Longrightarrow> split_on (CHR 0x09) (joined ws) = ws"
proof -
  assume ws: "ws \<noteq> []" "\<forall>w\<in>set ws. CHR 0x09 \<notin> set w"
  then have "\<forall>w\<in>set (butlast ws). CHR 0x09 \<notin> set w" "CHR 0x09 \<notin> set (last ws)"
    by (auto dest: in_set_butlastD)
  then show ?thesis using ws(1) by (simp add: joined_def tab_def split_on_lines split_on_whole)
qed

text \<open>C39: The routing table dump can be read back. Its lines are a blank one, the title, the column headings and
  one line per entry that is not dead by now, in ascending order of destination; the tab separated
  fields of such a line are the destination, the gateway, the interface, the state, the time left
  padded to 14 places and the number of hops. Printing purges only a copy of the table, and leaves the
  stream in fixed notation once an entry was written.\<close>

theorem routing_table_dump:
  assumes "RoutingTable_wf t"
    and "\<forall>a. CHR 0x09 \<notin> set (show_address P a) \<and> CHR 0x0A \<notin> set (show_address P a)"
    and "\<forall>b u. CHR 0x09 \<notin> set (show_seconds P b u) \<and> CHR 0x0A \<notin> set (show_seconds P b u)"
    and "live = m_ipv4AddressEntry (RoutingTable_Purge now t)"
  shows "\<exists>dump rows. written (RoutingTable_Print P now t os) = written os @ dump
    \<and> split_on (CHR 0x0A) dump = [[], ''AODVMESH Routing table'',
        ''Destination'' @ tab @ ''Gateway'' @ tab @ tab @ ''Interface'' @ tab @ ''Flag'' @ tab @ ''Expire'' @ tab @ tab @ ''Hops'']
        @ rows @ [[], []]
    \<and> map (split_on (CHR 0x09)) rows = map (\<lambda>(a, rt). [show_address P a, show_address P (GetNextHop rt),
        show_address P (GetLocal (rt_iface rt)), flag_text (rt_flag rt),
        pad_right 14 (show_seconds P True (GetLifeTime now rt)), show_nat (unat (rt_hops rt))]) live
    \<and> sorted_wrt (<) (map fst live)
    \<and> (\<forall>a. map_of live a = Option.bind (table_map t a) (age_entry (m_badLinkLifetime t) now))
    \<and> fixed_notation (RoutingTable_Print P now t os) = (fixed_notation os \<or> live \<noteq> [])"
proof -
  let ?head = "[[], ''AODVMESH Routing table'',
    ''Destination'' @ tab @ ''Gateway'' @ tab @ tab @ ''Interface'' @ tab @ ''Flag'' @ tab @ ''Expire'' @ tab @ tab @ ''Hops'']"
  define rows where "rows = map (\<lambda>i. joined (entry_row P now (snd i))) live"
  define dump where "dump = concat (map (\<lambda>w. w @ [CHR 0x0A]) (?head @ rows @ [[]])) @ []"
  have words: "\<forall>w\<in>set (entry_row P now rt). CHR 0x09 \<notin> set w \<and> CHR 0x0A \<notin> set w" for rt
    using assms(2,3) by (auto simp: entry_row_def flag_text_chars no_special pad_right_def)
  then have "CHR 0x0A \<notin> set (joined (entry_row P now rt))" for rt
    by (auto simp: joined_def tab_def dest: in_set_butlastD) (auto simp: entry_row_def)
  then have "\<forall>w\<in>set (?head @ rows @ [[]]). CHR 0x0A \<notin> set w"
    by (auto simp: rows_def tab_def)
  then have lines: "split_on (CHR 0x0A) dump = ?head @ rows @ [[], []]"
    unfolding dump_def by (subst split_on_lines) simp_all
  have wf: "RoutingTable_wf (RoutingTable_Purge now t)" by (rule RoutingTable_wf_Purge [OF assms(1)])
  have key: "route_destination (rt_route rt) = a" if "(a, rt) \<in> set live" for a rt
    using wf that by (auto simp: assms(4) RoutingTable_wf_def GetDestinationOf_def)
  have row: "split_on (CHR 0x09) (joined (entry_row P now rt)) = entry_row P now rt" for rt
    using words by (intro split_joined) (auto simp: entry_row_def)
  have fields: "map (split_on (CHR 0x09)) rows = map (\<lambda>(a, rt). [show_address P a, show_address P (GetNextHop rt),
        show_address P (GetLocal (rt_iface rt)), flag_text (rt_flag rt),
        pad_right 14 (show_seconds P True (GetLifeTime now rt)), show_nat (unat (rt_hops rt))]) live"
    unfolding rows_def map_map by (rule map_cong [OF refl])
      (auto simp: row key, simp add: entry_row_def GetNextHop_def GetLifeTime_def key)
  have "sorted_wrt (<) (map fst live)" using wf by (simp add: assms(4) RoutingTable_wf_def map_ok_def)
  moreover have "map_of live a = Option.bind (table_map t a) (age_entry (m_badLinkLifetime t) now)" for a
    using table_map_Purge [OF assms(1)] by (simp add: assms(4) table_map_def)
  moreover have "written (RoutingTable_Print P now t os) = written os @ dump"
    "fixed_notation (RoutingTable_Print P now t os) = (fixed_notation os \<or> live \<noteq> [])"
    by (simp_all add: RoutingTable_Print_def entries_print put_def dump_def rows_def assms(4) newline_def comp_def Let_def)
  ultimately show ?thesis using lines fields by blast
qed

theorem routing_table_dump_witness:
  "\<exists>dump rows. written (RoutingTable_Print test_printer 15 test_table \<lparr>written = ''>'', fixed_notation = False\<rparr>) = ''>'' @ dump
     \<and> map (split_on (CHR 0x09)) rows =
         [[''0.0.0.4'', ''0.0.0.4'', ''10.0.0.1'', ''UP'', pad_right 14 ''0.00'', ''1''],
          [''0.0.0.5'', ''0.0.0.4'', ''10.0.0.1'', ''DOWN'', pad_right 14 ''0.00'', ''2'']]"
proof -
  let ?e4 = "RoutingTableEntry_new 0 1 4 True 3 test_iface 1 4 20"
  let ?e5 = "(RoutingTableEntry_new 0 1 5 True 7 test_iface 2 4 10)\<lparr>rt_flag := INVALID, rt_lifeTime := 30\<rparr>"
  have live: "m_ipv4AddressEntry (RoutingTable_Purge 15 test_table) = [(4, ?e4), (5, ?e5)]"
    by code_simp
  have texts: "show_address test_printer 5 = ''0.0.0.5''" "show_address test_printer 4 = ''0.0.0.4''"
    "show_address test_printer (GetLocal test_iface) = ''10.0.0.1''" "show_nat (unat (2 :: u16)) = ''2''"
    "show_nat (unat (1 :: u16)) = ''1''"
    "show_seconds test_printer True 5 = ''0.00''" "show_seconds test_printer True 15 = ''0.00''"
    by code_simp+
  have fields: "GetNextHop ?e4 = 4" "rt_iface ?e4 = test_iface" "rt_flag ?e4 = VALID" "GetLifeTime 15 ?e4 = 5" "rt_hops ?e4 = 1"
    "GetNextHop ?e5 = 4" "rt_iface ?e5 = test_iface" "rt_flag ?e5 = INVALID" "GetLifeTime 15 ?e5 = 15" "rt_hops ?e5 = 2"
    by (simp_all add: RoutingTableEntry_new_def GetNextHop_def GetLifeTime_def)
  have chars: "\<forall>a. CHR 0x09 \<notin> set (show_address test_printer a) \<and> CHR 0x0A \<notin> set (show_address test_printer a)"
    "\<forall>b u. CHR 0x09 \<notin> set (show_seconds test_printer b u) \<and> CHR 0x0A \<notin> set (show_seconds test_printer b u)"
    using test_printer_chars by blast+
  from routing_table_dump [OF test_table_wf chars live [symmetric], of "\<lparr>written = ''>'', fixed_notation = False\<rparr>"]
  obtain dump rows where "written (RoutingTable_Print test_printer 15 test_table \<lparr>written = ''>'', fixed_notation = False\<rparr>) = ''>'' @ dump"
    "map (split_on (CHR 0x09)) rows = map (\<lambda>(a, rt). [show_address test_printer a, show_address test_printer (GetNextHop rt),
        show_address test_printer (GetLocal (rt_iface rt)), flag_text (rt_flag rt),
        pad_right 14 (show_seconds test_printer True (GetLifeTime 15 rt)), show_nat (unat (rt_hops rt))])
        [(4, ?e4), (5, ?e5)]"
    unfolding ostream.select_convs by blast
  note read = this [unfolded list.map prod.case fields texts flag_text.simps]
  show ?thesis
    by (rule exI [of _ dump], rule exI [of _ rows], rule conjI, rule read(1), rule read(2))
qed

text \<open>A printed RREQ tells what was asked. If addresses are printed without blanks and no two alike, two
  route requests with the same text have the same number, destination, originator, both sequence
  numbers and the three flags; only the hop count, the reserved byte and unused flag bits do not
  show.\<close>

theorem rreq_print_faithful:
  assumes "RreqHeader_Print P h = RreqHeader_Print P h'"
    and "inj (show_address P)" and "\<forall>a. CHR '' '' \<notin> set (show_address P a)"
  shows "rreq_requestID h = rreq_requestID h' \<and> rreq_dst h = rreq_dst h' \<and> rreq_dstSeqNo h = rreq_dstSeqNo h'
    \<and> rreq_origin h = rreq_origin h' \<and> rreq_originSeqNo h = rreq_originSeqNo h'
    \<and> RreqHeader_GetGratiousRrep h = RreqHeader_GetGratiousRrep h'
    \<and> RreqHeader_GetDestinationOnly h = RreqHeader_GetDestinationOnly h'
    \<and> RreqHeader_GetUnknownSeqno h = RreqHeader_GetUnknownSeqno h'"
proof -
  have bool: "show_bool b = show_bool b' \<longleftrightarrow> b = b'" "CHR '' '' \<notin> set (show_bool b)" for b b'
    by (simp_all add: show_bool_def)
  have number: "x = y" if "show_nat (unat x) = show_nat (unat y)" for x y :: u32
    using that by (simp only: show_nat_inj word_unat_eq_iff)
  have address: "a = b" if "show_address P a = show_address P b" for a b
    using assms(2) that by (rule injD)
  note blank = no_special(3) assms(3) [rule_format] bool(2)
  note t1 = word_apart [OF blank(1) blank(1) assms(1) [unfolded RreqHeader_Print_def, simplified]]
  note t2 = word_apart [OF blank(2) blank(2) conjunct2 [OF t1, simplified]]
  note t3 = word_apart [OF blank(1) blank(1) conjunct2 [OF t2, simplified]]
  note t4 = word_apart [OF blank(2) blank(2) conjunct2 [OF t3, simplified]]
  note t5 = word_apart [OF blank(1) blank(1) conjunct2 [OF t4, simplified]]
  note t6 = word_apart [OF blank(3) blank(3) conjunct2 [OF t5, simplified]]
  note t7 = word_apart [OF blank(3) blank(3) conjunct2 [OF t6, simplified]]
  show ?thesis
    using conjunct1 [OF t1] conjunct1 [OF t2] conjunct1 [OF t3] conjunct1 [OF t4] conjunct1 [OF t5]
      conjunct1 [OF t6] conjunct1 [OF t7] conjunct2 [OF t7]
    by (auto simp: bool(1) intro: number address)
qed

theorem rreq_print_faithful_witness:
  "RreqHeader_Print test_printer (RreqHeader_new 8 0 3 1 77 0 9 4) = RreqHeader_Print test_printer (RreqHeader_new 8 0 0 1 77 0 9 4)
   \<and> rreq_dst (RreqHeader_new 8 0 3 1 77 0 9 4) = rreq_dst (RreqHeader_new 8 0 0 1 77 0 9 4)"
proof -
  have eq: "RreqHeader_Print test_printer (RreqHeader_new 8 0 3 1 77 0 9 4) = RreqHeader_Print test_printer (RreqHeader_new 8 0 0 1 77 0 9 4)"
    by (simp add: RreqHeader_Print_def RreqHeader_new_def RreqHeader_GetGratiousRrep_def
        RreqHeader_GetDestinationOnly_def RreqHeader_GetUnknownSeqno_def)
  have "inj (show_address test_printer)" by (simp add: test_printer_def dotted_inj)
  from rreq_print_faithful [OF eq this] eq test_printer_chars(1) show ?thesis by blast
qed

text \<open>A printed RERR does not tell which destinations were lost: nothing separates the sequence number of
  one from the address of the next, so different errors, both sound, have the same text.\<close>

theorem rerr_print_ambiguous:
  "\<exists>h h'. RerrHeader_wf h \<and> RerrHeader_wf h' \<and> m_unreachableDstSeqNo h \<noteq> m_unreachableDstSeqNo h'
     \<and> length (m_unreachableDstSeqNo h) = 2 \<and> RerrHeader_Print test_printer h = RerrHeader_Print test_printer h'"
proof -
  let ?h = "RerrHeader_new\<lparr>m_unreachableDstSeqNo := [(0x0a000001, 1), (0x6e000002, 7)]\<rparr>"
  let ?h' = "RerrHeader_new\<lparr>m_unreachableDstSeqNo := [(0x0a000001, 11), (0x0a000002, 7)]\<rparr>"
  have "RerrHeader_Print test_printer ?h = RerrHeader_Print test_printer ?h'" by code_simp
  moreover have "RerrHeader_wf ?h" "RerrHeader_wf ?h'" by (simp_all add: RerrHeader_wf_def map_ok_Cons)
  ultimately show ?thesis by (intro exI [of _ ?h] exI [of _ ?h']) simp
qed

text \<open>The prefix size of a RREP is written as the character with that code, not as a number.\<close>

lemma rrep_prefix_as_character:
  assumes "rrep_prefixSize h = 65"
  shows "RrepHeader_Print P h = ''destination: ipv4 '' @ show_address P (rrep_dst h)
     @ '' sequence number '' @ show_nat (unat (rrep_dstSeqNo h)) @ '' prefix size A'' @ '' source ipv4 ''
     @ show_address P (rrep_origin h) @ '' lifetime '' @ show_nat (unat (rrep_lifeTime h))
     @ '' acknowledgment required flag '' @ show_bool (RrepHeader_GetAckRequired h)"
proof -
  have "char_of (unat (65 :: u8)) = CHR ''A''" by code_simp
  with assms show ?thesis by (simp add: RrepHeader_Print_def show_u8_def)
qed

end
