(* ===== verification/Attributes.thy ===== *)
theory Attributes
  imports Protocol_Correct
begin

text \<open>
  The attributes a node is configured with: \<open>GetTypeId\<close> of \<open>model/aodv-routing-protocol.cc\<close> and the
  setters it names in \<open>aodv-routing-protocol.h\<close>. Setting attributes leads exactly to the initial states the
  theorems over runs start from; what no attribute reaches, whatever happens afterwards, is shown last.
\<close>

section \<open>Settings\<close>

text \<open>
  One constructor per attribute, with the type its checker admits. The two rate limits are checked as
  32-bit numbers and stored in 16 bits. \<open>UniformRv\<close> replaces the source of random numbers, which is part of
  the surroundings.
\<close>

datatype setting =
    Attr_HelloInterval time
  | Attr_RreqRetries u32
  | Attr_RreqRateLimit u32
  | Attr_RerrRateLimit u32
  | Attr_NodeTraversalTime time
  | Attr_NextHopWait time
  | Attr_ActiveRouteTimeout time
  | Attr_MyRouteTimeout time
  | Attr_BlackListTimeout time
  | Attr_DeletePeriod time
  | Attr_TimeoutBuffer u16
  | Attr_NetDiameter u32
  | Attr_NetTraversalTime time
  | Attr_PathDiscoveryTime time
  | Attr_MaxQueueLen u32
  | Attr_MaxQueueTime time
  | Attr_AllowedHelloLoss u16
  | Attr_GratuitousReply bool
  | Attr_DestinationOnly bool
  | Attr_EnableHello bool
  | Attr_EnableBroadcast bool
  | Attr_Rule1 bool
  | Attr_Rule2 bool
  | Attr_localNodeStatus NodeStatus
  | Attr_localWeightFunction WeightFunction
  | Attr_localWeight u32
  | Attr_ShortInterval time
  | Attr_LongInterval time
  | Attr_IsMalicious bool

definition SetDesinationOnlyFlag :: "bool \<Rightarrow> node \<Rightarrow> node" where
  "SetDesinationOnlyFlag f n = n\<lparr>par := (par n)\<lparr>DestinationOnly := f\<rparr>\<rparr>"

definition SetGratuitousReplyFlag :: "bool \<Rightarrow> node \<Rightarrow> node" where
  "SetGratuitousReplyFlag f n = n\<lparr>par := (par n)\<lparr>GratuitousReply := f\<rparr>\<rparr>"

definition SetHelloEnable :: "bool \<Rightarrow> node \<Rightarrow> node" where
  "SetHelloEnable f n = n\<lparr>par := (par n)\<lparr>EnableHello := f\<rparr>\<rparr>"

definition SetBroadcastEnable :: "bool \<Rightarrow> node \<Rightarrow> node" where
  "SetBroadcastEnable f n = n\<lparr>par := (par n)\<lparr>EnableBroadcast := f\<rparr>\<rparr>"

definition SetMaliciousEnable :: "bool \<Rightarrow> node \<Rightarrow> node" where
  "SetMaliciousEnable f n = n\<lparr>par := (par n)\<lparr>IsMalicious := f\<rparr>\<rparr>"

definition SetRule1 :: "bool \<Rightarrow> node \<Rightarrow> node" where
  "SetRule1 f n = n\<lparr>cluster := (cluster n)\<lparr>Rule1 := f\<rparr>\<rparr>"

definition SetRule2 :: "bool \<Rightarrow> node \<Rightarrow> node" where
  "SetRule2 f n = n\<lparr>cluster := (cluster n)\<lparr>Rule2 := f\<rparr>\<rparr>"

definition SetShortInterval :: "time \<Rightarrow> node \<Rightarrow> node" where
  "SetShortInterval t n = n\<lparr>par := (par n)\<lparr>ShortInterval := t\<rparr>\<rparr>"

definition SetLongInterval :: "time \<Rightarrow> node \<Rightarrow> node" where
  "SetLongInterval t n = n\<lparr>par := (par n)\<lparr>LongInterval := t\<rparr>\<rparr>"

definition SetLocalWeight :: "u32 \<Rightarrow> node \<Rightarrow> node" where
  "SetLocalWeight w n = n\<lparr>cluster := (cluster n)\<lparr>m_localWeight := w\<rparr>\<rparr>"

definition SetLocalWeightFunction :: "WeightFunction \<Rightarrow> node \<Rightarrow> node" where
  "SetLocalWeightFunction f n = n\<lparr>cluster := (cluster n)\<lparr>m_localWeightFunction := f\<rparr>\<rparr>"

lemmas setters = SetDesinationOnlyFlag_def SetGratuitousReplyFlag_def SetHelloEnable_def SetBroadcastEnable_def
  SetMaliciousEnable_def SetRule1_def SetRule2_def SetShortInterval_def SetLongInterval_def
  SetMaxQueueLen_def SetMaxQueueTime_def SetLocalNodeStatus_def SetLocalWeight_def
  SetLocalWeightFunction_def

fun set_attribute :: "setting \<Rightarrow> node \<Rightarrow> node" where
  "set_attribute (Attr_HelloInterval x) n = n\<lparr>par := (par n)\<lparr>HelloInterval := x\<rparr>\<rparr>"
| "set_attribute (Attr_RreqRetries x) n = n\<lparr>par := (par n)\<lparr>RreqRetries := x\<rparr>\<rparr>"
| "set_attribute (Attr_RreqRateLimit x) n = n\<lparr>par := (par n)\<lparr>RreqRateLimit := ucast x\<rparr>\<rparr>"
| "set_attribute (Attr_RerrRateLimit x) n = n\<lparr>par := (par n)\<lparr>RerrRateLimit := ucast x\<rparr>\<rparr>"
| "set_attribute (Attr_NodeTraversalTime x) n = n\<lparr>par := (par n)\<lparr>NodeTraversalTime := x\<rparr>\<rparr>"
| "set_attribute (Attr_NextHopWait x) n = n\<lparr>par := (par n)\<lparr>NextHopWait := x\<rparr>\<rparr>"
| "set_attribute (Attr_ActiveRouteTimeout x) n = n\<lparr>par := (par n)\<lparr>ActiveRouteTimeout := x\<rparr>\<rparr>"
| "set_attribute (Attr_MyRouteTimeout x) n = n\<lparr>par := (par n)\<lparr>MyRouteTimeout := x\<rparr>\<rparr>"
| "set_attribute (Attr_BlackListTimeout x) n = n\<lparr>par := (par n)\<lparr>BlackListTimeout := x\<rparr>\<rparr>"
| "set_attribute (Attr_DeletePeriod x) n = n\<lparr>par := (par n)\<lparr>DeletePeriod := x\<rparr>\<rparr>"
| "set_attribute (Attr_TimeoutBuffer x) n = n\<lparr>par := (par n)\<lparr>TimeoutBuffer := x\<rparr>\<rparr>"
| "set_attribute (Attr_NetDiameter x) n = n\<lparr>par := (par n)\<lparr>NetDiameter := x\<rparr>\<rparr>"
| "set_attribute (Attr_NetTraversalTime x) n = n\<lparr>par := (par n)\<lparr>NetTraversalTime := x\<rparr>\<rparr>"
| "set_attribute (Attr_PathDiscoveryTime x) n = n\<lparr>par := (par n)\<lparr>PathDiscoveryTime := x\<rparr>\<rparr>"
| "set_attribute (Attr_MaxQueueLen x) n = SetMaxQueueLen x n"
| "set_attribute (Attr_MaxQueueTime x) n = SetMaxQueueTime x n"
| "set_attribute (Attr_AllowedHelloLoss x) n = n\<lparr>par := (par n)\<lparr>AllowedHelloLoss := ucast x\<rparr>\<rparr>"
| "set_attribute (Attr_GratuitousReply x) n = SetGratuitousReplyFlag x n"
| "set_attribute (Attr_DestinationOnly x) n = SetDesinationOnlyFlag x n"
| "set_attribute (Attr_EnableHello x) n = SetHelloEnable x n"
| "set_attribute (Attr_EnableBroadcast x) n = SetBroadcastEnable x n"
| "set_attribute (Attr_Rule1 x) n = SetRule1 x n"
| "set_attribute (Attr_Rule2 x) n = SetRule2 x n"
| "set_attribute (Attr_localNodeStatus x) n = n\<lparr>cluster := SetLocalNodeStatus x (cluster n)\<rparr>"
| "set_attribute (Attr_localWeightFunction x) n = SetLocalWeightFunction x n"
| "set_attribute (Attr_localWeight x) n = SetLocalWeight x n"
| "set_attribute (Attr_ShortInterval x) n = SetShortInterval x n"
| "set_attribute (Attr_LongInterval x) n = SetLongInterval x n"
| "set_attribute (Attr_IsMalicious x) n = SetMaliciousEnable x n"

text \<open>What \<open>GetAttribute\<close> answers for the attribute of a setting, whatever its value.\<close>

fun get_attribute :: "setting \<Rightarrow> node \<Rightarrow> setting" where
  "get_attribute (Attr_HelloInterval x) n = Attr_HelloInterval (HelloInterval (par n))"
| "get_attribute (Attr_RreqRetries x) n = Attr_RreqRetries (RreqRetries (par n))"
| "get_attribute (Attr_RreqRateLimit x) n = Attr_RreqRateLimit (ucast (RreqRateLimit (par n)))"
| "get_attribute (Attr_RerrRateLimit x) n = Attr_RerrRateLimit (ucast (RerrRateLimit (par n)))"
| "get_attribute (Attr_NodeTraversalTime x) n = Attr_NodeTraversalTime (NodeTraversalTime (par n))"
| "get_attribute (Attr_NextHopWait x) n = Attr_NextHopWait (NextHopWait (par n))"
| "get_attribute (Attr_ActiveRouteTimeout x) n = Attr_ActiveRouteTimeout (ActiveRouteTimeout (par n))"
| "get_attribute (Attr_MyRouteTimeout x) n = Attr_MyRouteTimeout (MyRouteTimeout (par n))"
| "get_attribute (Attr_BlackListTimeout x) n = Attr_BlackListTimeout (BlackListTimeout (par n))"
| "get_attribute (Attr_DeletePeriod x) n = Attr_DeletePeriod (DeletePeriod (par n))"
| "get_attribute (Attr_TimeoutBuffer x) n = Attr_TimeoutBuffer (TimeoutBuffer (par n))"
| "get_attribute (Attr_NetDiameter x) n = Attr_NetDiameter (NetDiameter (par n))"
| "get_attribute (Attr_NetTraversalTime x) n = Attr_NetTraversalTime (NetTraversalTime (par n))"
| "get_attribute (Attr_PathDiscoveryTime x) n = Attr_PathDiscoveryTime (PathDiscoveryTime (par n))"
| "get_attribute (Attr_MaxQueueLen x) n = Attr_MaxQueueLen (MaxQueueLen (par n))"
| "get_attribute (Attr_MaxQueueTime x) n = Attr_MaxQueueTime (MaxQueueTime (par n))"
| "get_attribute (Attr_AllowedHelloLoss x) n = Attr_AllowedHelloLoss (ucast (AllowedHelloLoss (par n)))"
| "get_attribute (Attr_GratuitousReply x) n = Attr_GratuitousReply (GratuitousReply (par n))"
| "get_attribute (Attr_DestinationOnly x) n = Attr_DestinationOnly (DestinationOnly (par n))"
| "get_attribute (Attr_EnableHello x) n = Attr_EnableHello (EnableHello (par n))"
| "get_attribute (Attr_EnableBroadcast x) n = Attr_EnableBroadcast (EnableBroadcast (par n))"
| "get_attribute (Attr_Rule1 x) n = Attr_Rule1 (Rule1 (cluster n))"
| "get_attribute (Attr_Rule2 x) n = Attr_Rule2 (Rule2 (cluster n))"
| "get_attribute (Attr_localNodeStatus x) n = Attr_localNodeStatus (m_localNodeStatus (cluster n))"
| "get_attribute (Attr_localWeightFunction x) n = Attr_localWeightFunction (m_localWeightFunction (cluster n))"
| "get_attribute (Attr_localWeight x) n = Attr_localWeight (m_localWeight (cluster n))"
| "get_attribute (Attr_ShortInterval x) n = Attr_ShortInterval (ShortInterval (par n))"
| "get_attribute (Attr_LongInterval x) n = Attr_LongInterval (LongInterval (par n))"
| "get_attribute (Attr_IsMalicious x) n = Attr_IsMalicious (IsMalicious (par n))"

text \<open>The initial values \<open>GetTypeId\<close> gives, in its order.\<close>

definition initial_settings :: "library \<Rightarrow> setting list" where
  "initial_settings L =
     [Attr_HelloInterval (Seconds L 1), Attr_RreqRetries 2, Attr_RreqRateLimit 10,
      Attr_RerrRateLimit 10, Attr_NodeTraversalTime (Milli L 40), Attr_NextHopWait (Milli L 50),
      Attr_ActiveRouteTimeout (Seconds L 3), Attr_MyRouteTimeout (Milli L 11200),
      Attr_BlackListTimeout (Milli L 5600), Attr_DeletePeriod (Seconds L 15), Attr_TimeoutBuffer 2,
      Attr_NetDiameter 35, Attr_NetTraversalTime (Milli L 2800), Attr_PathDiscoveryTime (Milli L 5600),
      Attr_MaxQueueLen 64, Attr_MaxQueueTime (Seconds L 30), Attr_AllowedHelloLoss 1,
      Attr_GratuitousReply True, Attr_DestinationOnly False, Attr_EnableHello True,
      Attr_EnableBroadcast True, Attr_Rule1 True, Attr_Rule2 True, Attr_localNodeStatus CORE,
      Attr_localWeightFunction W_NODE_DEGREE, Attr_localWeight 0,
      Attr_ShortInterval (Seconds L SHORT_INTERVAL), Attr_LongInterval (Seconds L LONG_INTERVAL),
      Attr_IsMalicious False]"

text \<open>A node is constructed, gets its initial attributes and then those of its user.\<close>

definition construct :: "library \<Rightarrow> setting list \<Rightarrow> node" where
  "construct L ss = fold set_attribute (initial_settings L @ ss) (node_new L)"

section \<open>Configured nodes\<close>

definition configured :: "library \<Rightarrow> node \<Rightarrow> bool" where
  "configured L n \<longleftrightarrow> n = configure (par n) (m_localNodeStatus (cluster n)) (m_localWeightFunction (cluster n))
     (m_localWeight (cluster n)) (Rule1 (cluster n)) (Rule2 (cluster n)) (node_new L)"

lemmas configured_simps = configured_def configure_def setters RequestQueue_SetMaxQueueLen_def
  RequestQueue_SetQueueTimeout_def Let_def

lemma configured_node: "configured L (node_new L)"
  by (simp add: configured_simps node_new_def Clustering_new_def RequestQueue_new_def params_default_def)

lemma set_configured: "configured L (set_attribute s (configure p st f w r1 r2 (node_new L)))"
  by (cases s) (simp_all add: configured_simps)

lemma configured_set: "configured L n \<Longrightarrow> configured L (set_attribute s n)"
  using set_configured unfolding configured_def [of L n] by metis

lemma configured_all: "configured L n \<Longrightarrow> configured L (fold set_attribute ss n)"
  by (induction ss arbitrary: n) (auto intro: configured_set)

lemma construct_configured: "configured L (construct L ss)"
  unfolding construct_def by (intro configured_all configured_node)

lemma construct_reachable: "reachable L (par (construct L ss)) 0 (construct L ss)"
  using construct_configured [of L ss] reachable.start unfolding configured_def by metis

lemma construct_defaults:
  "construct L [] = configure (attribute_defaults L (params_default L)) CORE W_NODE_DEGREE 0 True True (node_new L)"
  by (simp add: construct_def initial_settings_def configured_simps attribute_defaults_def)

text \<open>What was set is read back, unless a rate limit does not fit into 16 bits; another attribute is as it was.\<close>

fun fits :: "setting \<Rightarrow> bool" where
  "fits (Attr_RreqRateLimit x) \<longleftrightarrow> unat x < 2 ^ 16"
| "fits (Attr_RerrRateLimit x) \<longleftrightarrow> unat x < 2 ^ 16"
| "fits s \<longleftrightarrow> True"

lemma unat_rate_limit: "unat (ucast (x :: u32) :: u16) = unat x mod 2 ^ 16"
  by (simp only: unsigned_ucast_eq take_bit_eq_mod) simp

lemma ucast_fits: "ucast (ucast x :: u16) = (x :: u32) \<longleftrightarrow> unat x < 2 ^ 16"
proof -
  have "unat (ucast (ucast x :: u16) :: u32) = unat x mod 2 ^ 16" by (simp add: unat_ucast_up unat_rate_limit)
  then show ?thesis by (auto simp: word_unat_eq_iff mod_eq_self_iff_div_eq_0)
qed

lemma ucast_back: "ucast (ucast (x :: u16) :: u32) = x"
proof -
  have "unat (ucast (ucast x :: u32) :: u16) = unat (ucast x :: u32) mod 2 ^ 16" by (rule unat_rate_limit)
  also have "\<dots> = unat x" using unsigned_less [of x, where 'a = nat] by (simp add: unat_ucast_up)
  finally show ?thesis by (simp only: word_unat_eq_iff)
qed

lemma get_set_attribute: "get_attribute s (set_attribute s n) = s \<longleftrightarrow> fits s"
  by (cases s) (simp_all add: setters ucast_fits ucast_back)

lemma get_set_other:
  assumes "\<forall>n. get_attribute s n \<noteq> get_attribute s' n"
  shows "get_attribute s (set_attribute s' n) = get_attribute s n"
proof (rule ccontr)
  assume changed: "get_attribute s (set_attribute s' n) \<noteq> get_attribute s n"
  with assms show False
    by (cases s'; cases s; simp add: setters)
qed

section \<open>What no attribute reaches\<close>

text \<open>The parameters but for the hello interval, which \<open>Start\<close> sets, and the lifetimes of the containers.\<close>

definition settled :: "node \<Rightarrow> node \<Rightarrow> bool" where
  "settled n0 n \<longleftrightarrow> node_wf n \<and> (par n)\<lparr>HelloInterval := 0\<rparr> = (par n0)\<lparr>HelloInterval := 0\<rparr>
     \<and> m_badLinkLifetime (m_routingTable n) = m_badLinkLifetime (m_routingTable n0)
     \<and> m_lifetime (m_rreqIdCache n) = m_lifetime (m_rreqIdCache n0) \<and> m_lifetime (m_dpd n) = m_lifetime (m_dpd n0)
     \<and> m_lifetime (m_helloIdCache n) = m_lifetime (m_helloIdCache n0)"

interpretation settings: node_relation settled "\<lambda>_. True"
proof
qed (auto simp: settled_def node_wf_field node_wf_asked count_below IsDuplicate_abs(4) node_wf_parts)

lemma step_settled:
  assumes "node_step E now e n n'" "node_wf n"
  shows "settled n n'"
proof (cases "e = RreqLimitTimer")
  case True
  with assms limit_timer_wf show ?thesis
    by (auto elim!: limit_timer_step simp: RreqRateLimitTimerExpire_def settled_def)
next
  case False
  from settings.step [OF assms(1) TrueI assms(2) False] show ?thesis .
qed

lemma steps_settled:
  assumes "(\<lambda>x y. \<exists>E now e. node_step E now e x y)\<^sup>*\<^sup>* m n" "node_wf m"
  shows "settled m n"
  using assms(1)
proof induction
  case base
  show ?case by (rule settings.refl [OF assms(2)])
next
  case (step y z)
  from step.hyps(2) step.IH step_settled show ?case by (meson settings.ok_after settings.trans)
qed

text \<open>Whatever is set, the containers are those of the constructor.\<close>

lemma construct_containers:
  "m_lifetime (m_rreqIdCache (construct L ss)) = 2 * (70 * Milli L 40)"
  "m_lifetime (m_dpd (construct L ss)) = 2 * (70 * Milli L 40)"
  "m_lifetime (m_helloIdCache (construct L ss)) = Seconds L 2"
  "m_badLinkLifetime (m_routingTable (construct L ss)) = 5 * max (Seconds L 3) (Seconds L 2)"
proof -
  let ?same = "\<lambda>n. m_lifetime (m_rreqIdCache n) = 2 * (70 * Milli L 40) \<and> m_lifetime (m_dpd n) = 2 * (70 * Milli L 40)
    \<and> m_lifetime (m_helloIdCache n) = Seconds L 2
    \<and> m_badLinkLifetime (m_routingTable n) = 5 * max (Seconds L 3) (Seconds L 2)"
  have set: "?same (set_attribute s n)" if "?same n" for s n using that by (cases s) (simp_all add: setters)
  have "?same (fold set_attribute xs n)" if "?same n" for xs n using that set by (induction xs arbitrary: n) auto
  moreover have "?same (node_new L)"
    by (simp add: node_new_def params_default_def RoutingTable_new_def IdCache_new_def SHORT_INTERVAL_def Let_def)
  ultimately have "?same (construct L ss)" unfolding construct_def by blast
  then show "m_lifetime (m_rreqIdCache (construct L ss)) = 2 * (70 * Milli L 40)"
    "m_lifetime (m_dpd (construct L ss)) = 2 * (70 * Milli L 40)"
    "m_lifetime (m_helloIdCache (construct L ss)) = Seconds L 2"
    "m_badLinkLifetime (m_routingTable (construct L ss)) = 5 * max (Seconds L 3) (Seconds L 2)" by blast+
qed

lemma construct_wf: "0 < MaxQueueLen (par (construct L ss)) \<Longrightarrow> 0 \<le> Seconds L 3 \<Longrightarrow> node_wf (construct L ss)"
  by (rule reachable_node_wf [OF construct_reachable])

text \<open>C28: The constructor's times stay. Whatever a user sets, \<open>PathDiscoveryTime\<close> and \<open>DeletePeriod\<close> last, the node that
  is constructed with these settings has them as parameters, and keeps them through any events; but its request and
  duplicate caches go on remembering for 2 * 70 * 40 ms and 2 s, and its table goes on keeping broken
  routes for 15 s, as the constructor built them.\<close>

theorem constructor_times_stay:
  assumes "m = construct L (ss @ [Attr_PathDiscoveryTime v, Attr_DeletePeriod w])"
    and "(\<lambda>x y. \<exists>E now e. node_step E now e x y)\<^sup>*\<^sup>* m n"
    and "0 < MaxQueueLen (par m)" and "0 \<le> Seconds L 3"
  shows "PathDiscoveryTime (par n) = v \<and> DeletePeriod (par n) = w
    \<and> m_lifetime (m_rreqIdCache n) = 2 * (70 * Milli L 40) \<and> m_lifetime (m_dpd n) = 2 * (70 * Milli L 40)
    \<and> m_lifetime (m_helloIdCache n) = Seconds L 2
    \<and> m_badLinkLifetime (m_routingTable n) = 5 * max (Seconds L 3) (Seconds L 2)"
proof -
  have run: "settled m n" by (rule steps_settled [OF assms(2)]) (use assms construct_wf in blast)
  have asked: "PathDiscoveryTime (par m) = v" "DeletePeriod (par m) = w" by (simp_all add: assms(1) construct_def)
  have same: "(par n)\<lparr>HelloInterval := 0\<rparr> = (par m)\<lparr>HelloInterval := 0\<rparr>" using run by (simp add: settled_def)
  have "PathDiscoveryTime (par n) = v" "DeletePeriod (par n) = w"
    using arg_cong [OF same, of PathDiscoveryTime, simplified] arg_cong [OF same, of DeletePeriod, simplified]
    by (simp_all add: asked)
  then show ?thesis
    using run construct_containers [of L "ss @ [Attr_PathDiscoveryTime v, Attr_DeletePeriod w]"]
    unfolding settled_def assms(1) [symmetric] by simp
qed

theorem constructor_times_stay_witness:
  "\<exists>n. node_step test_env 0 StackSet
       (construct ns3_library ([Attr_NetDiameter 9] @ [Attr_PathDiscoveryTime 60000000000, Attr_DeletePeriod 1])) n
     \<and> PathDiscoveryTime (par n) = 60000000000
     \<and> m_lifetime (m_rreqIdCache n) = 5600000000 \<and> m_badLinkLifetime (m_routingTable n) = 15000000000"
proof -
  let ?m = "construct ns3_library ([Attr_NetDiameter 9] @ [Attr_PathDiscoveryTime 60000000000, Attr_DeletePeriod 1])"
  have "\<not> m_ipv4 ?m" by code_simp
  then have "SetIpv4 test_env 0 ?m \<noteq> None" by (simp add: SetIpv4_def test_env_def Let_def)
  then obtain n where n: "node_step test_env 0 StackSet ?m n" by (auto simp: stack_step)
  then have "(\<lambda>x y. \<exists>E now e. node_step E now e x y)\<^sup>*\<^sup>* ?m n" by blast
  moreover have "0 < MaxQueueLen (par ?m)" by (simp add: construct_def initial_settings_def setters)
  ultimately show ?thesis
    using n constructor_times_stay [OF refl, of ns3_library "[Attr_NetDiameter 9]" 60000000000 1 n]
    by (intro exI [of _ n]) (simp add: ns3_library_def)
qed

end
