(* ===== verification/Unit_Tests.thy ===== *)
theory Unit_Tests
  imports Packet_Codec IdCache
begin

text \<open>
  The two unit tests inside the sources, \<open>IdCacheTest\<close> (\<open>model/aodv-id-cache.cc\<close>) and \<open>MbnHelloTest\<close>
  (\<open>model/aodv-packet.cc\<close>), as programs over the model: what each check compares, and which checks hold.
\<close>

section \<open>The id cache\<close>

text \<open>
  The state of the test: the cache and the checks done so far, each with its message. \<open>NS_TEST_EXPECT\<close>
  goes on after a check that fails.
\<close>

definition expect :: "bool \<Rightarrow> string \<Rightarrow> IdCache \<times> (string \<times> bool) list \<Rightarrow> IdCache \<times> (string \<times> bool) list" where
  "expect b text s = (fst s, snd s @ [(text, b)])"

definition expect_duplicate ::
  "time \<Rightarrow> ipv4addr \<Rightarrow> u32 \<Rightarrow> bool \<Rightarrow> string \<Rightarrow> IdCache \<times> (string \<times> bool) list \<Rightarrow> IdCache \<times> (string \<times> bool) list" where
  "expect_duplicate now a k b text s =
     (case IdCache_IsDuplicate now a k (fst s) of (r, cache) \<Rightarrow> expect (r = b) text (cache, snd s))"

definition expect_size ::
  "time \<Rightarrow> u32 \<Rightarrow> string \<Rightarrow> IdCache \<times> (string \<times> bool) list \<Rightarrow> IdCache \<times> (string \<times> bool) list" where
  "expect_size now k text s = (case IdCache_GetSize now (fst s) of (r, cache) \<Rightarrow> expect (r = k) text (cache, snd s))"

definition insert_id :: "time \<Rightarrow> ipv4addr \<Rightarrow> u32 \<Rightarrow> IdCache \<times> (string \<times> bool) list \<Rightarrow> IdCache \<times> (string \<times> bool) list" where
  "insert_id now a k s = (snd (IdCache_IsDuplicate now a k (fst s)), snd s)"

text \<open>\<open>sec\<close> is \<open>Seconds (1)\<close>; the test starts at time 0 and schedules its three timeouts.\<close>

definition IdCacheTest_DoRun :: "time \<Rightarrow> (string \<times> bool) list" where
  "IdCacheTest_DoRun sec =
     (let s = (IdCache_new (10 * sec), []);
          s = expect (IdCache_GetLifeTime (fst s) = 10 * sec) ''Lifetime'' s;
          s = expect_duplicate 0 0x01020304 3 False ''Unknown ID & address'' s;
          s = expect_duplicate 0 0x01020304 4 False ''Unknown ID'' s;
          s = expect_duplicate 0 0x04030201 3 False ''Unknown address'' s;
          s = expect_duplicate 0 0x01020304 3 True ''Known address & ID'' s;
          s = (IdCache_SetLifetime (15 * sec) (fst s), snd s);
          s = expect (IdCache_GetLifeTime (fst s) = 15 * sec) ''New lifetime'' s;
          s = insert_id 0 0x01010101 4 s;
          s = insert_id 0 0x01010101 4 s;
          s = insert_id 0 0x02020202 5 s;
          s = insert_id 0 0x03030303 6 s;
          s = expect_size 0 6 ''trivial'' s;
          s = expect_size (5 * sec) 6 ''Nothing expire'' s;
          s = expect_size (11 * sec) 3 ''3 records left'' s;
          s = expect_size (30 * sec) 0 ''All records expire'' s
      in snd s)"

text \<open>Every check of the test holds, with time in nanoseconds, the default resolution, as well as in whole seconds.\<close>

theorem id_cache_test_passes:
  "map snd (IdCacheTest_DoRun 1000000000) = replicate 10 True" "map snd (IdCacheTest_DoRun 1) = replicate 10 True"
  by code_simp+

section \<open>The hello header\<close>

text \<open>
  \<open>NS_TEST_ASSERT\<close> returns from the test at the first check that fails. A check is its message and what it
  compares, \<open>None\<close> if that reads the front of an empty list.
\<close>

fun first_failure :: "(string \<times> bool option) list \<Rightarrow> string option option" where
  "first_failure [] = Some None"
| "first_failure ((text, None) # cs) = None"
| "first_failure ((text, Some b) # cs) = (if b then first_failure cs else Some (Some text))"

definition test_neighbors :: "time \<Rightarrow> MulticastBnNeighborSet" where
  "test_neighbors stamp =
     [MulticastBnNeighborTuple_new 0xc0a80101 4 CONVERT_ALLOW stamp,
      MulticastBnNeighborTuple_new 0xc0a80102 8 CONVERT_OTHER stamp,
      MulticastBnNeighborTuple_new 0xc0a80105 9 CONVERT_BREAK stamp]"

definition hello_checks :: "NodeStatus \<Rightarrow> u16 \<Rightarrow> u16 \<Rightarrow> HelloHeader \<Rightarrow> (string \<times> bool option) list" where
  "hello_checks status listSize messageLength msg1 =
     (let bnNeighborList = m_MulticastBnNeighbors msg1;
          begin = (case bnNeighborList of [] \<Rightarrow> None | t # ts \<Rightarrow> Some t);
          sizeLeft = HelloHeader_GetSerializedSize msg1;
          sizeLeft = sizeLeft - HelloHeader_GetSerializedSize msg1
      in [(''Message size'', Some (m_messageLength msg1 = messageLength)),
          (''Message sequence number'', Some (m_helloSequenceNumber msg1 = 101)),
          (''Node status'', Some (m_nodeStatus msg1 = status)),
          (''BN-BCN indicator'', Some (m_bnBcnIndicator msg1 = CONVERT_ALLOW)),
          (''List size'', Some (ucast (m_listSize msg1) = listSize)),
          (''Originator Address'', Some (m_nodeIdentifier msg1 = 0xc0a80104)),
          (''Associated BN'', Some (m_associatedBnIdentifier msg1 = 0xc0a80102)),
          (''Weight size'', Some (m_helloWeightSize msg1 = 4)),
          (''Weight function'', Some (m_weightFunction msg1 = W_NODE_DEGREE)),
          (''Weight value'', Some (m_weightValue msg1 = 5)),
          (''List size'', Some (length bnNeighborList = unat listSize)),
          (''First element IP'', map_option (\<lambda>t. twoHopBnNeighborIfaceAddr t = 0xc0a80101) begin),
          (''First element Weight'', map_option (\<lambda>t. twoHopBnNeighborWeight t = 4) begin),
          (''First element Indicator'', map_option (\<lambda>t. twoHopBnNeighborIndicator t = CONVERT_ALLOW) begin),
          (''There are some bytes not matched!'', Some (sizeLeft = 0))])"

text \<open>
  The test with the node status as an argument; \<open>padding\<close> is what the reserved bytes hold that \<open>Serialize\<close> does
  not write. \<open>Some None\<close>: it passes; \<open>Some (Some text)\<close>: the check with that message fails.
\<close>

definition hello_test :: "NodeStatus \<Rightarrow> buffer_ops \<Rightarrow> time \<Rightarrow> u8 list \<Rightarrow> string option option" where
  "hello_test status B stamp padding =
     (let thn = test_neighbors stamp;
          listSize = of_nat (length thn);
          messageLength = of_nat AODVMESH_HELLO_HEADER_SIZE + of_nat AODVMESH_HELLO_BNNEIGHBOR_ENTRY * listSize;
          msgIn = HelloHeader_new 101 status CONVERT_ALLOW 0xc0a80104 0xc0a80102 W_NODE_DEGREE 5 thn;
          packet = HelloHeader_Serialize B msgIn @ padding;
          packet = TypeHeader_Serialize B (TypeHeader_new TYPE_HELLO) @ packet
      in do {
        (msg0, k) \<leftarrow> TypeHeader_Deserialize B (TypeHeader_new TYPE_HELLO) packet;
        let packet = drop (unat k) packet;
        (msg1, k) \<leftarrow> HelloHeader_Deserialize B stamp packet;
        first_failure (hello_checks status listSize messageLength msg1)
      })"

definition MbnHelloTest_DoRun :: "buffer_ops \<Rightarrow> time \<Rightarrow> u8 list \<Rightarrow> string option option" where
  "MbnHelloTest_DoRun = hello_test RN_NODE"

text \<open>
  The unit test of the hello header fails at its first check, the message length, because a hello built with
  the status of a regular node keeps no neighbours; with the status of a backbone or core node the same
  test passes, whatever the reserved bytes hold that are not written.
\<close>

theorem hello_test_outcome:
  assumes "buffer_laws B"
  shows "hello_test status B stamp padding = Some (if status = RN_NODE then Some ''Message size'' else None)"
proof -
  let ?h = "HelloHeader_new 101 status CONVERT_ALLOW 0xc0a80104 0xc0a80102 W_NODE_DEGREE 5 (test_neighbors stamp)"
  have wf: "HelloHeader_wf ?h" by (rule HelloHeader_new_wf) (simp add: test_neighbors_def)
  have "hello_test status B stamp padding = first_failure (hello_checks status 3 95 (restamp stamp ?h))"
    using type_codec.de_ser [OF assms TrueI] hello_codec.de_ser [OF assms wf] fixed_ser_length(1) [OF assms]
    by (simp add: hello_test_def Let_def test_neighbors_def TypeHeader_GetSerializedSize_def hello_sizes)
  then show ?thesis
    by (auto simp: hello_checks_def restamp_def HelloHeader_new_def test_neighbors_def hello_sizes
        MulticastBnNeighborTuple_new_def)
qed

theorem hello_test_fails:
  "buffer_laws B \<Longrightarrow> MbnHelloTest_DoRun B stamp padding = Some (Some ''Message size'')"
  by (simp add: MbnHelloTest_DoRun_def hello_test_outcome)

end
