(* ===== verification/Simulation.thy ===== *)
theory Simulation
  imports Complex_Main Prelude
begin

text \<open>
  The simulation script \<open>src/input.cc\<close>: the class \<open>vanet\<close>, what its steps set up (the movement file, the
  attributes of the routing helper, the malicious nodes, the traffic) and the figures \<open>Run\<close> reports.
  A \<open>double\<close> is a rational number; converting one to \<open>uint32_t\<close> cuts its fraction off and has no value
  (\<open>None\<close>) outside the range; \<open>int\<close> is not bounded here. The helper \<open>tkcvanet\<close> comes from another module than the one in the repository: its
  functions are the record \<open>helper\<close>. Random numbers and the statistics of the flow monitor are arguments.
\<close>

section \<open>Parameters\<close>

record vanet =
  v_size :: u32
  totalTime :: rat
  pcap :: bool
  printRoutes :: bool
  packetSize :: u16
  enableReports :: bool
  enableTraffic :: bool
  nsenders :: int
  startTime :: rat
  stopOffset :: rat
  routingPkts :: u32
  attackrate :: rat
  attacktype :: u32
  attack :: bool
  speed :: u32

definition vanet_new :: vanet where
  "vanet_new = \<lparr>v_size = 50, totalTime = 100, pcap = False, printRoutes = True, packetSize = 512,
     enableReports = True, enableTraffic = True, nsenders = 2, startTime = 1, stopOffset = 10,
     routingPkts = 0, attackrate = 1 / 5, attacktype = 1, attack = True, speed = 0\<rparr>"

text \<open>The arguments the command line knows, each with its value as the parser reads it.\<close>

datatype argument =
    Pcap bool
  | PrintRoutes bool
  | NumberOfNodes u32
  | SimulationTime rat
  | Report bool
  | Traffic bool
  | Sinks int

fun set_argument :: "argument \<Rightarrow> vanet \<Rightarrow> vanet" where
  "set_argument (Pcap b) v = v\<lparr>pcap := b\<rparr>"
| "set_argument (PrintRoutes b) v = v\<lparr>printRoutes := b\<rparr>"
| "set_argument (NumberOfNodes k) v = v\<lparr>v_size := k\<rparr>"
| "set_argument (SimulationTime t) v = v\<lparr>totalTime := t\<rparr>"
| "set_argument (Report b) v = v\<lparr>enableReports := b\<rparr>"
| "set_argument (Traffic b) v = v\<lparr>enableTraffic := b\<rparr>"
| "set_argument (Sinks k) v = v\<lparr>nsenders := k\<rparr>"

definition Configure :: "argument list \<Rightarrow> vanet \<Rightarrow> bool \<times> vanet" where
  "Configure args v = (True, fold set_argument args v)"

section \<open>Nodes\<close>

text \<open>\<open>uint32_t\<close> of a double.\<close>

definition to_u32 :: "rat \<Rightarrow> u32 option" where
  "to_u32 x = (if - 1 < x \<and> x < 2 ^ 32 then Some (of_int (if 0 \<le> x then \<lfloor>x\<rfloor> else 0)) else None)"

definition nMalicious :: "vanet \<Rightarrow> rat" where
  "nMalicious v = of_nat (unat (v_size v)) * attackrate v"

definition movement_file :: "vanet \<Rightarrow> string" where
  "movement_file v =
     (let ss = (if speed v = 0 then
                  (if v_size v = 50 then ''scratch/nodes50.ns_movements''
                   else if v_size v = 100 then ''scratch/nodes100.ns_movements''
                   else if v_size v = 150 then ''scratch/nodes150.ns_movements''
                   else if v_size v = 200 then ''scratch/nodes200.ns_movements''
                   else if v_size v = 250 then ''scratch/nodes250.ns_movements'' else [])
                else [])
      in if speed v > 0 then
           ss @ (if speed v = 10 then ''scratch/speed10.ns_movements''
                 else if speed v = 20 then ''scratch/speed20.ns_movements''
                 else if speed v = 30 then ''scratch/speed30.ns_movements''
                 else if speed v = 40 then ''scratch/speed40.ns_movements''
                 else if speed v = 50 then ''scratch/speed50.ns_movements'' else [])
         else ss)"

text \<open>What \<open>CreateNodes\<close> makes: the nodes, the nodes of the container \<open>malicious\<close>, and the movement file.\<close>

record created =
  nodes :: u32
  malicious :: u32
  mobility :: string

definition CreateNodes :: "vanet \<Rightarrow> created option" where
  "CreateNodes v = do {
     k \<leftarrow> to_u32 (nMalicious v);
     Some \<lparr>nodes = v_size v, malicious = k, mobility = movement_file v\<rparr>
   }"

text \<open>\<open>drand48 ()\<close> is the argument \<open>d\<close>, a number in [0, 1).\<close>

definition GetRandomNode :: "int \<Rightarrow> rat \<Rightarrow> u32 option" where
  "GetRandomNode maxNodes d = to_u32 (of_int maxNodes * d)"

text \<open>\<open>round\<close>: to the nearest integer, halves away from zero.\<close>

definition round_away :: "rat \<Rightarrow> int" where
  "round_away x = (if 0 \<le> x then \<lfloor>x + 1 / 2\<rfloor> else - \<lfloor>1 / 2 - x\<rfloor>)"

text \<open>
  \<open>SelectMaliciousNodes\<close> on a container of \<open>n\<close> nodes: the indices whose attribute is set, in order. \<open>draws i\<close>
  is the random number of turn \<open>i\<close>; \<open>Get\<close> refuses an index outside the container.
\<close>

fun select_nodes :: "u32 \<Rightarrow> (nat \<Rightarrow> rat) \<Rightarrow> nat \<Rightarrow> nat \<Rightarrow> u32 list option" where
  "select_nodes n draws i 0 = Some []"
| "select_nodes n draws i (Suc k) = do {
     node \<leftarrow> GetRandomNode (sint n) (draws i);
     if node < n then map_option (Cons node) (select_nodes n draws (Suc i) k) else None
   }"

definition SelectMaliciousNodes :: "u32 \<Rightarrow> rat \<Rightarrow> (nat \<Rightarrow> rat) \<Rightarrow> u32 list option" where
  "SelectMaliciousNodes n attackNodes draws = do {
     attackNodesNum \<leftarrow> to_u32 (of_int (round_away (of_nat (unat n) * attackNodes)));
     select_nodes n draws 0 (unat attackNodesNum)
   }"

section \<open>Devices and stack\<close>

datatype attribute = Boolean bool | Uinteger u32 | SecondsValue int | Double rat | Text string

text \<open>What \<open>CreateDevices\<close> sets, in its order: the object that is configured, the attribute, the value.\<close>

definition device_attributes :: "(string \<times> string \<times> attribute) list" where
  "device_attributes =
     [(''YansWifiPhy'', ''PcapDataLinkType'', Text ''DLT_IEEE802_11''),
      (''YansWifiChannel'', ''PropagationDelay'', Text ''ns3::ConstantSpeedPropagationDelayModel''),
      (''TwoRayGroundPropagationLossModel'', ''SystemLoss'', Double 1),
      (''TwoRayGroundPropagationLossModel'', ''HeightAboveZ'', Double (3 / 2)),
      (''YansWifiPhy'', ''EnergyDetectionThreshold'', Double (- 66)), (''YansWifiPhy'', ''CcaMode1Threshold'', Double (- 69)),
      (''YansWifiPhy'', ''TxPowerStart'', Double 33), (''YansWifiPhy'', ''TxPowerEnd'', Double 33),
      (''YansWifiPhy'', ''TxPowerLevels'', Uinteger 1), (''YansWifiPhy'', ''TxGain'', Double 1),
      (''YansWifiPhy'', ''RxGain'', Double 1),
      (''QosWifiMac'', ''Type'', Text ''ns3::AdhocWifiMac''),
      (''Wifi'', ''Standard'', Text ''WIFI_PHY_STANDARD_80211_10MHZ''),
      (''ConstantRateWifiManager'', ''DataMode'', Text ''OfdmRate6MbpsBW10MHz''),
      (''ConstantRateWifiManager'', ''ControlMode'', Text ''OfdmRate6MbpsBW10MHz'')]"

definition stack_attributes :: "vanet \<Rightarrow> (string \<times> attribute) list" where
  "stack_attributes v =
     [(''LocHeader'', Boolean True), (''PredictFlag'', Boolean True), (''HelloInterval'', SecondsValue 3),
      (''DynHello'', Boolean True), (''CacheFlag'', Boolean True), (''MaxQueueTime'', SecondsValue 5),
      (''LsService'', Boolean False), (''LocHeader'', Boolean False), (''Manual'', Boolean False),
      (''HTMSNodes'', Uinteger (v_size v)), (''MainInterface'', Uinteger 1), (''LsInterface'', Uinteger 2),
      (''MainDevice'', Uinteger 0), (''GWInterface'', Uinteger 1), (''DistFact'', Double 1),
      (''AngFact'', Double (1 / 2)), (''HelloFact'', Double (1 / 2)), (''CnFFact'', Double (1 / 10)),
      (''SNRFact'', Double (1 / 5)), (''RoadFact'', Double (3 / 10)), (''TrustFact'', Double (attackrate v)),
      (''TotalNode'', Double (of_nat (unat (v_size v)))), (''maliciousAttribute'', Uinteger (attacktype v)),
      (''onOffAttackAttribute'', Uinteger 30), (''initPeriodAttribute'', Uinteger 50)]"

text \<open>\<open>tkcvanet.Set\<close> replaces an earlier value; the stack is installed with the last one of each name.\<close>

definition stack_attribute :: "vanet \<Rightarrow> string \<Rightarrow> attribute option" where
  "stack_attribute v name = map_of (rev (stack_attributes v)) name"

text \<open>\<open>InstallInternetStack\<close> hands \<open>SelectMaliciousNodes\<close> the number of malicious nodes as the fraction.\<close>

definition InstallInternetStack :: "vanet \<Rightarrow> (nat \<Rightarrow> rat) \<Rightarrow> created \<Rightarrow> u32 list option" where
  "InstallInternetStack v draws c = SelectMaliciousNodes (malicious c) (of_nat (unat (nodes c)) * attackrate v) draws"

section \<open>Traffic\<close>

record flow =
  sink_node :: nat
  sender_node :: nat
  remote_port :: u16
  data_rate :: "64 word"
  sink_start :: rat
  sender_start :: rat
  stop_time :: rat

text \<open>
  The loop of \<open>InstallRandomApplications\<close> from turn \<open>i\<close> on, \<open>k\<close> turns to go; \<open>Get\<close> and \<open>GetAddress\<close> refuse an
  index outside the container, and \<open>starts i\<close> is the random integer of turn \<open>i\<close>.
\<close>

fun install_flows :: "vanet \<Rightarrow> (nat \<Rightarrow> int) \<Rightarrow> 64 word \<Rightarrow> nat \<Rightarrow> nat \<Rightarrow> flow list option" where
  "install_flows v starts bps i 0 = Some []"
| "install_flows v starts bps i (Suc k) =
     (if i < unat (v_size v) \<and> i + nat (nsenders v) < unat (v_size v)
      then map_option (Cons \<lparr>sink_node = i, sender_node = i + nat (nsenders v), remote_port = 9, data_rate = bps,
                             sink_start = startTime v, sender_start = of_int (starts i), stop_time = totalTime v\<rparr>)
             (install_flows v starts (bps + 5) (Suc i) k)
      else None)"

definition InstallRandomApplications :: "vanet \<Rightarrow> (nat \<Rightarrow> int) \<Rightarrow> flow list option" where
  "InstallRandomApplications v starts = install_flows v starts 16000 0 (nat (nsenders v))"

text \<open>The trace sinks and the callback of the trust framework, which takes no packet.\<close>

definition TraceOverhead :: "vanet \<times> 64 word \<Rightarrow> vanet \<times> 64 word" where
  "TraceOverhead s = (case s of (v, countoverhead) \<Rightarrow> (v\<lparr>routingPkts := routingPkts v + 1\<rparr>, countoverhead + 1))"

definition TraceTotalSpamRate :: "64 word \<Rightarrow> 64 word" where
  "TraceTotalSpamRate spamrate = spamrate + 1"

definition PromiscuousReceiveFromDevice :: bool where
  "PromiscuousReceiveFromDevice = False"

text \<open>The nodes that are given a handler, in order.\<close>

definition InstallTrustFramework :: "vanet \<Rightarrow> u32 list" where
  "InstallTrustFramework v = map of_nat [0..<unat (v_size v)]"

section \<open>The run and its report\<close>

text \<open>
  The animation: the loop over the nodes, whose index is a \<open>uint16_t\<close> compared with the 32-bit size, and the
  indices that are described as attackers, one random integer per turn.
\<close>

partial_function (option) node_sizes :: "u32 \<Rightarrow> u16 \<Rightarrow> u16 list option" where
  "node_sizes n i =
     (if ucast i < n then Option.bind (node_sizes n (i + 1)) (\<lambda>js. Some (i # js)) else Some [])"

definition shown_attackers :: "vanet \<Rightarrow> (nat \<Rightarrow> u32) \<Rightarrow> u32 list" where
  "shown_attackers v draws = map draws [0..<nat \<lceil>nMalicious v\<rceil>]"

record helper =
  rxPacketsum_of :: "u32 \<Rightarrow> u32 \<Rightarrow> rat \<Rightarrow> rat \<Rightarrow> bool \<Rightarrow> rat"
  countoverhead_of :: "u32 \<Rightarrow> u32 \<Rightarrow> rat \<Rightarrow> rat \<Rightarrow> bool \<Rightarrow> rat"
  spamrate_of :: "u32 \<Rightarrow> u32 \<Rightarrow> rat \<Rightarrow> rat \<Rightarrow> bool \<Rightarrow> rat"

record flow_stats =
  txPackets :: u32
  rxPackets :: u32

record report =
  all_tx :: u32
  all_rx :: u32
  delivery_ratio :: u32
  overhead :: rat
  spam :: rat

fun sum_stats :: "rat \<Rightarrow> flow_stats list \<Rightarrow> u32 \<times> u32 \<Rightarrow> (u32 \<times> u32) option" where
  "sum_stats r [] s = Some s"
| "sum_stats r (i # is) (tx, rx) = do {
     let tx = tx + txPackets i;
     rx \<leftarrow> to_u32 (of_nat (unat tx) * r);
     sum_stats r is (tx, rx)
   }"

text \<open>
  \<open>Run\<close>: the figures come from the helper, which is called before the simulation runs; \<open>stats\<close> are the
  statistics of the flow monitor after it. \<open>None\<close>: a step fails, the loop of the animation does not end,
  or the division by the packets sent is one by zero. The nodes shown as attackers and cluster heads
  change the animation only.
\<close>

definition Run ::
  "helper \<Rightarrow> vanet \<Rightarrow> (nat \<Rightarrow> rat) \<Rightarrow> (nat \<Rightarrow> int) \<Rightarrow> flow_stats list \<Rightarrow> (flow list \<times> report) option" where
  "Run H v draws starts stats = do {
     c \<leftarrow> CreateNodes v;
     _ \<leftarrow> InstallInternetStack v draws c;
     flows \<leftarrow> (if enableTraffic v then InstallRandomApplications v starts else Some []);
     let r = rxPacketsum_of H (v_size v) (speed v) (totalTime v) (nMalicious v) (attack v);
     let oh = countoverhead_of H (v_size v) (speed v) (totalTime v) (nMalicious v) (attack v);
     let sp = spamrate_of H (v_size v) (speed v) (totalTime v) (nMalicious v) (attack v);
     _ \<leftarrow> node_sizes (v_size v) 0;
     (tx, rx) \<leftarrow> sum_stats r stats (0, 0);
     if tx = 0 then None
     else Some (flows, \<lparr>all_tx = tx, all_rx = rx div 100, delivery_ratio = rx div tx, overhead = oh, spam = sp\<rparr>)
   }"

definition script_main ::
  "helper \<Rightarrow> argument list \<Rightarrow> (nat \<Rightarrow> rat) \<Rightarrow> (nat \<Rightarrow> int) \<Rightarrow> flow_stats list \<Rightarrow> (flow list \<times> report) option" where
  "script_main H args draws starts stats =
     (case Configure args vanet_new of (ok, test) \<Rightarrow> if ok then Run H test draws starts stats else None)"

section \<open>Properties\<close>

lemma to_u32_nonneg: "0 \<le> x \<Longrightarrow> x < 2 ^ 32 \<Longrightarrow> to_u32 x = Some (of_int \<lfloor>x\<rfloor>)"
  by (simp add: to_u32_def)

text \<open>The animation's loop ends exactly when its index can reach the size.\<close>

lemma node_sizes_ends:
  assumes "unat n < 2 ^ 16" "i \<le> unat n"
  shows "node_sizes n (of_nat i) = Some (map of_nat [i..<unat n])"
  using assms(2)
proof (induction "unat n - i" arbitrary: i)
  case 0
  then have "i = unat n" by simp
  moreover have "\<not> (ucast (of_nat (unat n) :: u16) :: u32) < n"
    using assms(1) by (simp add: word_less_nat_alt unat_small unat_ucast_up del: of_nat_unat)
  ultimately show ?case by (subst node_sizes.simps) simp
next
  case (Suc k)
  then have i: "i < unat n" by simp
  have "(ucast (of_nat i :: u16) :: u32) < n"
    using assms(1) i by (simp add: word_less_nat_alt unat_small unat_ucast_up)
  moreover have "(of_nat i + 1 :: u16) = of_nat (Suc i)" by simp
  ultimately show ?case
    using Suc.hyps(1) [of "Suc i"] Suc.hyps(2) i
    by (subst node_sizes.simps) (simp add: upt_rec [of i] del: of_nat_Suc)
qed

lemma node_sizes_forever:
  assumes "2 ^ 16 \<le> unat n"
  shows "node_sizes n i = None"
proof -
  have "unat n < 2 ^ 16" if "node_sizes n i = Some js" for js
  proof (rule node_sizes.raw_induct [where P = "\<lambda>n i js. unat n < 2 ^ 16", OF _ that])
    fix rec and n :: u32 and i :: u16 and js
    assume IH: "\<And>n i js. rec n i = Some js \<Longrightarrow> unat n < 2 ^ 16"
      and body: "(if ucast i < n then Option.bind (rec n (i + 1)) (\<lambda>js. Some (i # js)) else Some []) = Some js"
    show "unat n < 2 ^ 16"
    proof (cases "ucast i < n")
      case True
      with body show ?thesis by (auto simp: bind_eq_Some_conv dest: IH)
    next
      case False
      then have "unat n \<le> unat i" by (simp add: word_less_nat_alt unat_ucast_up not_less)
      also have "unat i < 2 ^ 16" using unsigned_less [of i, where 'a = nat] by simp
      finally show ?thesis .
    qed
  qed
  with assms show ?thesis by (cases "node_sizes n i") auto
qed

text \<open>The loop: the packets sent add up, and the packets received are their number times \<open>r\<close>.\<close>

lemma sum_stats_spec:
  assumes "0 \<le> r" "unat tx + sum_list (map (\<lambda>i. unat (txPackets i)) (i # is)) = sent"
    and "sent < 2 ^ 32" "of_nat sent * r < 2 ^ 32"
  shows "sum_stats r (i # is) (tx, rx) = Some (of_nat sent, of_int \<lfloor>of_nat sent * r\<rfloor>)"
  using assms
proof (induction "is" arbitrary: i tx rx)
  case Nil
  then have sent: "unat tx + unat (txPackets i) = sent" by simp
  with Nil.prems(3) have tx: "unat (tx + txPackets i) = sent" by (simp add: unat_word_ariths)
  then have "of_nat sent = tx + txPackets i" using Nil.prems(3) by (simp add: word_unat_eq_iff unat_small)
  moreover have "(unsigned (tx + txPackets i) :: rat) = of_nat sent" using tx by (metis of_nat_unat)
  ultimately show ?case using Nil.prems by (simp add: to_u32_nonneg Let_def)
next
  case (Cons j js)
  let ?tx = "tx + txPackets i"
  have le: "unat tx + unat (txPackets i) \<le> sent" using Cons.prems(2) by simp
  then have tx: "unat ?tx = unat tx + unat (txPackets i)" using Cons.prems(3) by (simp add: unat_word_ariths)
  have "of_nat (unat ?tx) * r \<le> of_nat sent * r"
    by (rule mult_right_mono [OF _ Cons.prems(1)]) (use le tx in \<open>simp only: of_nat_le_iff\<close>)
  then have "to_u32 (of_nat (unat ?tx) * r) = Some (of_int \<lfloor>of_nat (unat ?tx) * r\<rfloor>)"
    by (intro to_u32_nonneg mult_nonneg_nonneg of_nat_0_le_iff Cons.prems(1) le_less_trans [OF _ Cons.prems(4)])
  moreover have "sum_stats r (j # js) (?tx, rx') = Some (of_nat sent, of_int \<lfloor>of_nat sent * r\<rfloor>)" for rx'
    by (rule Cons.IH) (use Cons.prems tx in simp_all)
  ultimately show ?case
    by (simp only: sum_stats.simps(2) [of r i "j # js"] Let_def bind.bind_lunit)
qed

lemma floor_quotient:
  fixes r :: rat
  assumes "0 < n" "0 \<le> r"
  shows "nat \<lfloor>of_nat n * r\<rfloor> div n = nat \<lfloor>r\<rfloor>"
proof -
  have "int n * \<lfloor>r\<rfloor> \<le> \<lfloor>of_nat n * r\<rfloor>"
    unfolding le_floor_iff using of_int_floor_le [of r] by (simp add: mult_left_mono)
  moreover have "\<lfloor>of_nat n * r\<rfloor> < int n * (\<lfloor>r\<rfloor> + 1)"
    unfolding floor_less_iff using assms(1) floor_correct [of r] by simp
  ultimately have "\<lfloor>of_nat n * r\<rfloor> div int n = \<lfloor>r\<rfloor>"
    using assms(1) by (intro int_div_pos_eq [where r = "\<lfloor>of_nat n * r\<rfloor> - int n * \<lfloor>r\<rfloor>"]) (simp_all add: algebra_simps)
  moreover have "nat \<lfloor>of_nat n * r\<rfloor> div n = nat (\<lfloor>of_nat n * r\<rfloor> div int n)"
    using assms by (simp add: nat_div_distrib)
  ultimately show ?thesis by simp
qed

text \<open>
  \<open>SelectMaliciousNodes\<close> is handed the number of malicious nodes where it takes a fraction, and the container of
  exactly as many: with \<open>k\<close> malicious nodes it draws \<open>k * k\<close> times among these \<open>k\<close>, and no node that runs the
  protocol is ever chosen.
\<close>

lemma sint_small: "unat n < 2 ^ 31 \<Longrightarrow> sint (n :: u32) = int (unat n)"
  by (simp add: sint_uint signed_take_bit_int_eq_self uint_nat del: of_nat_unat)

lemma select_nodes_spec:
  assumes "\<forall>i. 0 \<le> draws i \<and> draws i < 1" "0 < n" "unat n < 2 ^ 31"
  shows "\<exists>marked. select_nodes n draws i k = Some marked \<and> length marked = k \<and> (\<forall>m\<in>set marked. m < n)"
proof (induction k arbitrary: i)
  case (Suc k)
  obtain N where N: "unat n = N" by simp
  define x where "x = of_nat N * draws i"
  have pos: "0 < N" using assms(2) N by (simp add: word_less_nat_alt)
  have small: "N < 2 ^ 32" using unsigned_less [of n, where 'a = nat] N by simp
  have x: "0 \<le> x" "x < of_nat N"
    using assms(1) [rule_format, of i] pos by (simp_all add: x_def)
  have "rat_of_nat N < 2 ^ 32" using small by simp
  with x(2) have "x < 2 ^ 32" by (rule less_trans)
  moreover have "rat_of_int (sint n) * draws i = x"
    using sint_small [OF assms(3)] N by (simp add: x_def)
  ultimately have node: "GetRandomNode (sint n) (draws i) = Some (of_int \<lfloor>x\<rfloor>)"
    using x(1) by (simp add: GetRandomNode_def to_u32_nonneg)
  have fl: "nat \<lfloor>x\<rfloor> < N" using x by (simp add: nat_less_iff floor_less_iff)
  then have "unat (of_nat (nat \<lfloor>x\<rfloor>) :: u32) = nat \<lfloor>x\<rfloor>" using small by (simp add: unat_small)
  moreover have "of_int \<lfloor>x\<rfloor> = (of_nat (nat \<lfloor>x\<rfloor>) :: u32)" using x(1) by simp
  ultimately have "(of_int \<lfloor>x\<rfloor> :: u32) < n" using fl N by (simp add: word_less_nat_alt)
  with node Suc.IH [of "Suc i"] show ?case by auto
qed simp

lemma malicious_squared:
  assumes "nMalicious v = of_nat k" "0 < k" "k * k < 2 ^ 32" "\<forall>i. 0 \<le> draws i \<and> draws i < 1"
  shows "\<exists>c marked. CreateNodes v = Some c \<and> unat (malicious c) = k \<and> nodes c = v_size v
    \<and> InstallInternetStack v draws c = Some marked \<and> length marked = k * k \<and> (\<forall>m\<in>set marked. m < malicious c)"
proof -
  have "k \<le> k * k" using assms(2) by simp
  then have k: "k < 2 ^ 32" using assms(3) by (rule le_less_trans)
  then have "rat_of_nat k < 2 ^ 32" by simp
  then have "to_u32 (of_nat k) = Some (of_nat k)" by (simp add: to_u32_nonneg)
  then have c: "CreateNodes v = Some \<lparr>nodes = v_size v, malicious = of_nat k, mobility = movement_file v\<rparr>"
    by (simp add: CreateNodes_def assms(1))
  have n: "unat (of_nat k :: u32) = k" using k by (simp add: unat_small)
  have half: "k < 2 ^ 31"
  proof (rule ccontr)
    assume "\<not> k < 2 ^ 31"
    then have "2 ^ 31 * 2 ^ 31 \<le> k * k" by (intro mult_mono) simp_all
    then show False using assms(3) by simp
  qed
  have "round_away (of_nat (unat (of_nat k :: u32)) * of_nat k) = int (k * k)"
    unfolding n round_away_def by (simp flip: of_nat_mult) (rule floor_unique; simp)
  moreover have "rat_of_nat m < 2 ^ 32" if "m < 2 ^ 32" for m using that by simp
  from this [OF assms(3)] have "rat_of_nat (k * k) < 2 ^ 32" .
  then have "to_u32 (of_int (int (k * k))) = Some (of_nat (k * k))" by (simp add: to_u32_nonneg del: of_nat_mult)
  moreover have "unat (of_nat (k * k) :: u32) = k * k" using assms(3) by (simp add: unat_small del: of_nat_mult)
  moreover have "0 < (of_nat k :: u32)" using n assms(2) by (simp add: word_less_nat_alt)
  ultimately obtain marked where "SelectMaliciousNodes (of_nat k) (of_nat k) draws = Some marked" "length marked = k * k"
    "\<forall>m\<in>set marked. m < of_nat k"
    using select_nodes_spec [OF assms(4), of "of_nat k" 0 "k * k"] n half by (auto simp: SelectMaliciousNodes_def)
  moreover have "of_nat (unat (v_size v)) * attackrate v = of_nat k" using assms(1) by (simp only: nMalicious_def)
  ultimately show ?thesis using c n by (simp add: InstallInternetStack_def)
qed

text \<open>C40: The delivery ratio the script prints is not measured. With fewer than 65536 nodes, whenever the
  steps before the simulation succeed and no counter overflows, the ratio is the whole part of the number \<open>rxPacketsum\<close> makes of the parameters before
  the simulation starts, and the overhead and spam rate are the helper's too: how many packets any flow
  received, and how many it sent as long as one was, makes no difference.\<close>

theorem reported_ratio:
  assumes "CreateNodes v = Some c" and "InstallInternetStack v draws c \<noteq> None"
    and "\<not> enableTraffic v \<or> InstallRandomApplications v starts \<noteq> None"
    and "unat (v_size v) < 2 ^ 16"
    and "r = rxPacketsum_of H (v_size v) (speed v) (totalTime v) (nMalicious v) (attack v)" and "0 \<le> r"
    and "sent = sum_list (map (\<lambda>i. unat (txPackets i)) stats)"
    and "0 < sent" and "sent < 2 ^ 32" and "of_nat sent * r < 2 ^ 32"
  shows "\<exists>flows rep. Run H v draws starts stats = Some (flows, rep)
    \<and> unat (delivery_ratio rep) = nat \<lfloor>r\<rfloor> \<and> unat (all_tx rep) = sent
    \<and> overhead rep = countoverhead_of H (v_size v) (speed v) (totalTime v) (nMalicious v) (attack v)
    \<and> spam rep = spamrate_of H (v_size v) (speed v) (totalTime v) (nMalicious v) (attack v)"
proof -
  obtain i "is" where stats: "stats = i # is" using assms(7,8) by (cases stats) auto
  have sums: "sum_stats r stats (0, 0) = Some (of_nat sent, of_int \<lfloor>of_nat sent * r\<rfloor>)"
    unfolding stats by (rule sum_stats_spec) (use assms stats in simp_all)
  have tx: "unat (of_nat sent :: u32) = sent" using assms(9) by (simp add: unat_small)
  then have pos: "(of_nat sent :: u32) \<noteq> 0" using assms(8) by (auto simp: word_unat_eq_iff)
  have "of_int \<lfloor>of_nat sent * r\<rfloor> = (of_nat (nat \<lfloor>of_nat sent * r\<rfloor>) :: u32)" using assms(6) by simp
  moreover have "nat \<lfloor>of_nat sent * r\<rfloor> < 2 ^ 32" using assms(6,10) by (simp add: nat_less_iff floor_less_iff)
  ultimately have "unat (of_int \<lfloor>of_nat sent * r\<rfloor> :: u32) = nat \<lfloor>of_nat sent * r\<rfloor>"
    by (simp add: unat_small)
  then have ratio: "unat ((of_int \<lfloor>of_nat sent * r\<rfloor> :: u32) div of_nat sent) = nat \<lfloor>r\<rfloor>"
    unfolding unat_div tx using floor_quotient [OF assms(8,6)] by simp
  obtain marked flows where "InstallInternetStack v draws c = Some marked"
    "(if enableTraffic v then InstallRandomApplications v starts else Some []) = Some flows"
    using assms(2,3) by (cases "enableTraffic v") auto
  moreover have "node_sizes (v_size v) 0 \<noteq> None" using node_sizes_ends [OF assms(4), of 0] by simp
  ultimately show ?thesis using assms(1) sums pos ratio tx
    by (auto simp: Run_def Let_def simp flip: assms(5))
qed

theorem reported_ratio_witness:
  "\<exists>flows rep. Run \<lparr>rxPacketsum_of = (\<lambda>n s t m a. 957 / 10), countoverhead_of = (\<lambda>n s t m a. 1), spamrate_of = (\<lambda>n s t m a. 2)\<rparr>
       (vanet_new\<lparr>v_size := 10\<rparr>) (\<lambda>i. 1 / 2) (\<lambda>i. 1) [\<lparr>txPackets = 100, rxPackets = 3\<rparr>] = Some (flows, rep) \<and> delivery_ratio rep = 95"
proof -
  let ?v = "vanet_new\<lparr>v_size := 10\<rparr>"
  let ?H = "\<lparr>rxPacketsum_of = (\<lambda>n s t m a. 957 / 10), countoverhead_of = (\<lambda>n s t m a. 1), spamrate_of = (\<lambda>n s t m a. 2)\<rparr>"
  have "(case CreateNodes ?v of None \<Rightarrow> False | Some c \<Rightarrow>
      (case InstallInternetStack ?v (\<lambda>i. 1 / 2) c of None \<Rightarrow> False | Some marked \<Rightarrow> length marked = 4))"
    "InstallRandomApplications ?v (\<lambda>i. 1) \<noteq> None"
    by code_simp+
  moreover have tenths: "\<lfloor>957 / 10 :: rat\<rfloor> = 95" by (rule floor_unique) simp_all
  ultimately obtain c where "CreateNodes ?v = Some c" "InstallInternetStack ?v (\<lambda>i. 1 / 2) c \<noteq> None"
    "\<not> enableTraffic ?v \<or> InstallRandomApplications ?v (\<lambda>i. 1) \<noteq> None"
    by (auto split: option.splits)
  from reported_ratio [OF this, where r = "957 / 10" and H = ?H and
      stats = "[\<lparr>txPackets = 100, rxPackets = 3\<rparr>]" and sent = 100]
  obtain flows rep where "Run ?H ?v (\<lambda>i. 1 / 2) (\<lambda>i. 1) [\<lparr>txPackets = 100, rxPackets = 3\<rparr>] = Some (flows, rep)"
    "unat (delivery_ratio rep) = 95" by (auto simp: tenths)
  moreover from this(2) have "delivery_ratio rep = 95" by (simp add: word_unat_eq_iff)
  ultimately show ?thesis by blast
qed

lemma install_flows_spec:
  "install_flows v starts (16000 + 5 * of_nat i) i k =
     (if k = 0 \<or> i + k + nat (nsenders v) \<le> unat (v_size v)
      then Some (map (\<lambda>i. \<lparr>sink_node = i, sender_node = i + nat (nsenders v), remote_port = 9,
             data_rate = 16000 + 5 * of_nat i, sink_start = startTime v, sender_start = of_int (starts i),
             stop_time = totalTime v\<rparr>) [i..<i + k])
      else None)"
proof (induction k arbitrary: i)
  case (Suc k)
  have "16000 + 5 * of_nat i + 5 = (16000 + 5 * of_nat (Suc i) :: 64 word)" by simp
  with Suc.IH [of "Suc i"] show ?case by (auto simp: upt_rec [of i])
qed simp

text \<open>The traffic of a run. With \<open>n\<close> senders and at least \<open>2 * n\<close> nodes, turn \<open>i\<close> of the loop puts a sink on node
  \<open>i\<close> and a sender on node \<open>i + n\<close> with 5 bits per second more than the turn before, and no node has two
  parts; with fewer nodes the script stops, and without senders there is no traffic.\<close>

theorem traffic_matrix:
  "InstallRandomApplications v starts =
     (if 2 * nsenders v \<le> int (unat (v_size v)) \<or> nsenders v \<le> 0
      then Some (map (\<lambda>i. \<lparr>sink_node = i, sender_node = i + nat (nsenders v), remote_port = 9,
             data_rate = 16000 + 5 * of_nat i, sink_start = startTime v, sender_start = of_int (starts i),
             stop_time = totalTime v\<rparr>) [0..<nat (nsenders v)])
      else None)
   \<and> (\<forall>flows. InstallRandomApplications v starts = Some flows \<longrightarrow>
        distinct (map sink_node flows @ map sender_node flows))"
proof -
  let ?n = "nat (nsenders v)"
  have all: "InstallRandomApplications v starts =
     (if ?n = 0 \<or> ?n + ?n \<le> unat (v_size v)
      then Some (map (\<lambda>i. \<lparr>sink_node = i, sender_node = i + ?n, remote_port = 9,
             data_rate = 16000 + 5 * of_nat i, sink_start = startTime v, sender_start = of_int (starts i),
             stop_time = totalTime v\<rparr>) [0..<?n])
      else None)"
    using install_flows_spec [of v starts 0 ?n] by (simp add: InstallRandomApplications_def)
  have "2 * nsenders v \<le> int (unat (v_size v)) \<or> nsenders v \<le> 0 \<longleftrightarrow> ?n = 0 \<or> ?n + ?n \<le> unat (v_size v)"
    by linarith
  moreover have "distinct (map sink_node flows @ map sender_node flows)"
    if "InstallRandomApplications v starts = Some flows" for flows
    using that unfolding all by (auto simp: comp_def distinct_map inj_on_def split: if_splits)
  ultimately show ?thesis using all by auto
qed

end
