(* ===== verification/Spec2Isabelle.thy ===== *)
theory Spec2Isabelle
  imports Mesh_Error Printing Attributes Unit_Tests Simulation
begin

text \<open>
  \<^bold>\<open>A verification library for the AODV mesh routing protocol of the repository.\<close>

  \<^bold>\<open>The program.\<close> \<open>src/model/\<close> is an ns-3 routing protocol: AODV route discovery (requests, replies,
  errors) combined with a clustering of the mesh in which nodes announce themselves by hello messages,
  associate with a core node and join or leave a backbone; only backbone nodes repeat and answer
  requests. A node can be configured to be malicious, in which case it drops packets and forges replies.
  \<open>src/input.cc\<close> is a script that sets up a simulation and reports on it.

  \<^bold>\<open>Parts and theories.\<close>
  \<^item> \<open>Prelude\<close>: sorted association lists for \<open>std::map\<close>, lemmas on \<open>find\<close> and filters, and the
    interfaces several components share: \<open>ordered_map\<close>, \<open>expiring\<close> (containers that drop what is
    out of date), \<open>aging\<close> (entries that change state with time), \<open>preference\<close> (choosing a best element).
  \<^item> \<open>Common\<close>: \<open>aodv-common.h\<close>, the enumerations and the two-hop tuples. \<open>Network\<close>: what the code sees
    of ns-3 (packets, IPv4 headers, routes, interface addresses) and the record \<open>library\<close> of values it names.
  \<^item> \<open>Packet\<close>, \<open>Packet_Codec\<close>: \<open>aodv-packet.{h,cc}\<close>, the six headers over an abstract buffer; the locales
    \<open>header_codec\<close> and \<open>typed_packet\<close> state what a header promises and are interpreted on each of them.
  \<^item> \<open>IdCache\<close>: \<open>aodv-id-cache\<close> and \<open>aodv-dpd\<close>. \<open>RQueue\<close>: \<open>aodv-rqueue\<close>. \<open>RTable\<close>: \<open>aodv-rtable\<close>, with the
    interface \<open>route_store\<close>. \<open>Neighbor\<close>, \<open>Neighbor_Correct\<close>: \<open>aodv-neighbor\<close>.
  \<^item> \<open>Clustering\<close>, \<open>Clustering_Correct\<close>: association, \<open>Joining_Quitting_Mechanism\<close>,
    \<open>HeartBeat_Pushjoin_Anchors\<close> and the round of the long timer, of \<open>aodv-routing-protocol.cc\<close>.
  \<^item> \<open>Protocol_State\<close>: the state of \<open>RoutingProtocol\<close> (record \<open>node\<close>), what it reads of its surroundings
    (record \<open>env\<close>), the messages and effects, and the operations the handlers share. \<open>Handlers\<close>: the
    five message handlers and the timers. \<open>Data_Path\<close>: \<open>RouteOutput\<close>, \<open>RouteInput\<close>, \<open>Forwarding\<close>.
    \<open>Lifecycle\<close>: \<open>SetIpv4\<close>, \<open>Start\<close>, the interface notifications, \<open>DoDispose\<close>.
  \<^item> \<open>Events\<close>: the events of a node as the step relation \<open>node_step\<close> and the runs \<open>reachable\<close>.
    \<open>Evolution\<close>: the node invariant \<open>node_wf\<close> and the locale \<open>node_relation\<close>: a relation between an
    earlier and a later node that a change of each single field keeps is kept by every handler and
    every event. \<open>Protocol\<close> interprets it twice, as \<open>growth\<close> (the invariant, the request counter)
    and as \<open>memory\<close> (what the three caches know until a time they still know then), and the smaller locale \<open>evolution\<close> once
    more, as \<open>quiet\<close> (operations that send nothing but route errors).
    \<open>Attributes\<close>: the attributes of \<open>GetTypeId\<close>; setting them leads exactly to the initial states of the runs,
    and a third interpretation, \<open>settings\<close>, shows what they never reach. \<open>Protocol_Correct\<close>: the
    invariant and the request limit over runs, dispatch, freshness, the end of a discovery, repeated
    requests, the malicious node, forwarding. \<open>Discovery\<close>: floods are taken once, requests that are
    sent, a search nobody answers, a packet that waits. \<open>Replies\<close>: the destination's answer, a
    neighbour's reply from its bytes to the waiting packets, hello numbers in the place of sequence
    numbers, the limit on route errors. \<open>Route_Errors\<close>: what a reported loss and a broken link do to the
    table, and who is told. \<open>Reply_Forwarding\<close>: what a node between the two ends does with a reply.
  \<^item> \<open>Mesh\<close>: several nodes and the air between them as the step relation \<open>mesh_step\<close>; every node of a mesh runs
    as it would alone (\<open>mesh_node_reachable\<close>), so the theorems over runs hold of each, and what is in the
    air was sent and is sound. \<open>Mesh_Discovery\<close>: a discovery between two nodes, composed of the
    theorems on each side and the two frames between them. \<open>Mesh_Relay\<close>: a discovery over two hops, through the
    backbone node of the one that asks, which is as far as requests travel. \<open>Mesh_Error\<close>: a
    node loses a neighbour and tells those who send through it.
  \<^item> \<open>Printing\<close>: what \<open>Print\<close>, \<open>operator<<\<close>, \<open>PrintRoutingTable\<close> and \<open>GetLocalState\<close> write, as strings.
    \<open>Unit_Tests\<close>: the two tests inside the sources. \<open>Simulation\<close>: the script \<open>input.cc\<close>.

  \<^bold>\<open>How the state corresponds.\<close> A class is a record with the source's member names (prefixed where two
  classes share one), a method is a function from the old object to the new one and its answer. A
  pointer into a container is the element it points to, written back where the code writes through
  it. A callback that is invoked is an effect appended to \<open>out\<close>, or, for link failures inside the
  neighbour list, a list of addresses the protocol handles next (\<open>link_failures\<close>); the list is
  handled after the neighbour operation instead of during it, which makes no difference because the
  handler neither reads nor changes the neighbours. The entries' \<open>Ptr<Ipv4Route>\<close> is a value: the code
  always stores an entry it changed, so sharing is not observable. \<open>None\<close> is a failed assertion, a null
  pointer that is read, or undefined behaviour. Machine integers are words of their width, so that
  every wrap-around is the code's; differences of sequence numbers, \<open>int32_t (a) - int32_t (b)\<close>, are the
  32-bit difference read as signed. \<open>Time\<close> is an unbounded integer and the current time an argument;
  ns-3's 64-bit times are not bounded here, so the sum of \<open>GetMaximumSimulationTime\<close> and the
  current time does not overflow in the model. \<open>m_minHello\<close>, which the code leaves uninitialised until
  \<open>Start\<close>, is 0 until then; the theorems that depend on it state it as a value of the neighbour list.

  \<^bold>\<open>Loops and fuel.\<close> Loops over containers are structural recursion or list functions; the removal
  idiom is \<open>filter\<close>, \<open>std::list::sort\<close> the stable \<open>sort_key\<close>. \<open>SendPacketFromQueue\<close> loops until
  the queue has no packet for the destination; \<open>send_from_queue\<close> has the length of the queue plus
  one as its fuel, and \<open>send_from_queue_all\<close> shows that this empties the queue of the
  destination. Nothing else needs fuel. The one loop that may not end, over an index too narrow for
  its bound in the script's animation, is a \<open>partial_function\<close>, and both cases are proved
  (\<open>node_sizes_ends\<close>, \<open>node_sizes_forever\<close>).

  \<^bold>\<open>What the lemmas show.\<close> Codecs: round trips for every history of a header, sizes, the limits of
  one-byte counts. Cache, queue, table, neighbours: the invariant of each, kept by every operation,
  refinement of a map or a queue, and exactly what expires and is reported. Clustering: the three decisions
  equal declarative conditions on the neighbourhood and no assertion fails. Protocol: the node invariant
  over all runs, the request limit, dispatch, route freshness, which requests are repeated, forwarding, the
  malicious node; and the course of a route discovery: the packet that waits, the request on every
  socket, one action per flood whatever happens in between, the destination's reply, the waiting
  packets served or, after the last attempt, reported. Mesh: no node ever fails to read what another sent,
  discoveries over one and two hops succeed, and a route error makes exactly the routes over the lost
  link invalid where it is heard. Printing: the table dump and a request can be read back from their text,
  a route error cannot. Script: what it reports does not depend on the simulation. Where the code departs
  from its comments the theorem states what the code does.

  \<^bold>\<open>Parameters.\<close> \<open>buffer_ops\<close> with \<open>buffer_laws\<close> (writing and reading network byte order), \<open>time_unit\<close>
  (milliseconds), \<open>library\<close> and \<open>env\<close> stand for ns-3; \<open>net_buffer\<close>, \<open>nanoseconds\<close>, \<open>ns3_library\<close> and
  \<open>test_env\<close> instantiate them in the witnesses.
  \<open>printer\<close> (how addresses and seconds look) and \<open>helper\<close> (a module the script uses that is not in the
  repository) are instantiated in the same way.

  \<^bold>\<open>The medium.\<close> Frames are never altered and a receiver sees the sender's address; a frame may be lost, delayed,
  repeated, reordered and delivered to any socket of any node with any bytes after it. What a radio would
  guarantee beyond that, who hears whom, is not assumed and not modelled.

  \<^bold>\<open>Not modelled.\<close> The log lines inside the handlers, the trace sources for transmissions and the registration
  of types with the simulator (only their names are) have no effect on the protocol's state. \<open>m_ackTimer\<close> is
  only ever set up on copies and never runs, so \<open>AckTimerExpire\<close> is defined but is no event. Methods declared
  without a body (\<open>ProcessHello\<close>, \<open>handlePacketReceipt\<close>, some of \<open>Neighbors\<close>) have nothing to
  model. Of the script, the cluster heads of the animation come from classes the repository does not
  have, and doubles are rational numbers. The environment is the same during one event; the handlers
  run while the IPv4 stack is set.
\<close>

end
